(* ===== verification/Limiter_Interface.thy ===== *)
theory Limiter_Interface
  imports Prelude_Go
begin

text \<open>
  The interface \<open>RateLimiter\<close> of \<open>internal/middleware/ratelimit.go\<close> and the laws its callers
  rely on.  \<open>allow\<close> takes the key and the limit (the window is always one minute there) and
  the limiter's world; it answers a verdict and an optional error.  \<open>limiter_contract\<close> is
  what the middleware needs to fail closed and to keep the limiter well formed.
\<close>

definition minute :: int where "minute = 60 * 1000000000"

locale limiter_contract =
  fixes allow :: "string \<Rightarrow> int \<Rightarrow> 's \<Rightarrow> (bool \<times> 'e option) \<times> 's"
    and inv :: "'s \<Rightarrow> bool"
  assumes error_denies: "inv s \<Longrightarrow> allow k n s = ((ok, Some e), s') \<Longrightarrow> \<not> ok"
    and inv_allow: "inv s \<Longrightarrow> k \<noteq> '''' \<Longrightarrow> inv (snd (allow k n s))"

end
