(* ===== verification/Memory_Limiter.thy ===== *)
theory Memory_Limiter
  imports Limiter_Interface
begin

text \<open>
  \<open>internal/ratelimit/memory.go\<close>: the in-process sliding window used while Redis is down.

  A Go map is an association list with distinct keys; the order in which a \<open>range\<close>
  statement visits it is unspecified, so \<open>evictOldest\<close> takes a function that lists the
  entries in some order (\<open>range_order\<close>: each entry exactly once).  Instants are
  milliseconds: \<open>time.Now().UnixMilli()\<close> and a window of at most 292 years stay far inside
  64 bits, so \<open>int\<close> is exact.  The clock is read before the mutex is taken, so the
  instants of successive calls need not be ordered; nothing below assumes they are.
\<close>

record memoryWindow =
  times :: "int list"
  lastTouch :: int

record memoryLimiter =
  keys :: "(string \<times> memoryWindow) list"
  maxKeys :: int

type_synonym range_fun = "(string \<times> memoryWindow) list \<Rightarrow> (string \<times> memoryWindow) list"

definition NewMemory :: "int \<Rightarrow> memoryLimiter" where
  "NewMemory n = \<lparr>keys = [], maxKeys = (if n \<le> 0 then 100000 else n)\<rparr>"

text \<open>\<open>time.Duration.Milliseconds\<close>: division of nanoseconds, truncated towards zero.\<close>

definition milliseconds :: "int \<Rightarrow> int" where
  "milliseconds d = (if 0 \<le> d then d div 1000000 else - ((- d) div 1000000))"

section \<open>The pruning loop\<close>

text \<open>
  \<open>kept := w.times[:0]\<close> shares the array of \<open>w.times\<close>: the loop reads entry \<open>i\<close> and
  appends the ones inside the window at position \<open>j\<close> of the same array.
\<close>

function prune_loop :: "int \<Rightarrow> int list \<Rightarrow> nat \<Rightarrow> nat \<Rightarrow> int list \<times> nat" where
  "prune_loop start a i j =
     (if i < length a then
        (if start \<le> a ! i then prune_loop start (a[j := a ! i]) (Suc i) (Suc j)
         else prune_loop start a (Suc i) j)
      else (a, j))"
  by pat_completeness auto
termination
  by (relation "measure (\<lambda>(start, a, i, j). length a - i)") auto

declare prune_loop.simps [simp del]

definition prune_times :: "int \<Rightarrow> int list \<Rightarrow> int list" where
  "prune_times start a = (let (a', j) = prune_loop start a 0 0 in take j a')"

section \<open>Eviction\<close>

fun evict_loop :: "(string \<times> memoryWindow) list \<Rightarrow> string \<Rightarrow> int \<Rightarrow> bool \<Rightarrow> string" where
  "evict_loop [] victim oldest first = victim"
| "evict_loop ((k, w) # es) victim oldest first =
     (if first \<or> lastTouch w < oldest then evict_loop es k (lastTouch w) False
      else evict_loop es victim oldest first)"

definition evictOldest :: "range_fun \<Rightarrow> memoryLimiter \<Rightarrow> memoryLimiter" where
  "evictOldest rng m =
     (let victim = evict_loop (rng (keys m)) '''' 0 True
      in if victim \<noteq> '''' then m\<lparr>keys := AList.delete victim (keys m)\<rparr> else m)"

definition range_order :: "range_fun \<Rightarrow> bool" where
  "range_order rng \<longleftrightarrow> (\<forall>es. mset (rng es) = mset es)"

section \<open>Allow\<close>

definition memory_Allow ::
  "range_fun \<Rightarrow> int \<Rightarrow> string \<Rightarrow> int \<Rightarrow> int \<Rightarrow> memoryLimiter \<Rightarrow> bool \<times> memoryLimiter" where
  "memory_Allow rng now key limit window m =
     (let windowStart = now - milliseconds window;
          (w, m1) =
            (case map_of (keys m) key of
               Some w \<Rightarrow> (w, m)
             | None \<Rightarrow>
                 (let m0 = (if maxKeys m \<le> int (length (keys m)) then evictOldest rng m else m);
                      w0 = \<lparr>times = [], lastTouch = now\<rparr>
                  in (w0, m0\<lparr>keys := AList.update key w0 (keys m0)\<rparr>)));
          kept = prune_times windowStart (times w);
          w' = \<lparr>times = kept @ [now], lastTouch = now\<rparr>
      in (int (length (times w')) \<le> limit, m1\<lparr>keys := AList.update key w' (keys m1)\<rparr>))"

section \<open>The in-place loop is a filter\<close>

lemma prune_loop_spec:
  assumes "j \<le> i" and "i \<le> length a" and "prune_loop start a i j = (a', j')"
  shows "take j' a' = take j a @ filter (\<lambda>t. start \<le> t) (drop i a)"
  using assms
proof (induction start a i j arbitrary: a' j' rule: prune_loop.induct)
  case (1 start a i j)
  show ?case
  proof (cases "i < length a")
    case True
    note IH = "1.IH"(1)[OF True] "1.IH"(2)[OF True]
    have dr: "drop i a = a ! i # drop (Suc i) a" using True by (simp add: Cons_nth_drop_Suc)
    show ?thesis
    proof (cases "start \<le> a ! i")
      case keep: True
      have "take (Suc j) (a[j := a ! i]) = take j a @ [a ! i]"
        using True "1.prems"(1) by (simp add: take_Suc_conv_app_nth)
      moreover have "drop (Suc i) (a[j := a ! i]) = drop (Suc i) a"
        using "1.prems"(1) by simp
      ultimately show ?thesis
        using IH(1)[OF keep, of a' j'] "1.prems" True keep dr
        by (simp add: prune_loop.simps[of start a i j])
    next
      case False
      then show ?thesis
        using IH(2)[OF False, of a' j'] "1.prems" True dr
        by (simp add: prune_loop.simps[of start a i j])
    qed
  next
    case False
    then have "prune_loop start a i j = (a, j)" by (simp add: prune_loop.simps[of start a i j])
    with "1.prems" False show ?thesis by simp
  qed
qed

lemma prune_times_filter: "prune_times start a = filter (\<lambda>t. start \<le> t) a"
proof -
  obtain a' j' where "prune_loop start a 0 0 = (a', j')" by fastforce
  with prune_loop_spec[of 0 0 a start a' j'] show ?thesis
    by (simp add: prune_times_def)
qed

section \<open>Well-formedness and the bound on the keyspace\<close>

definition memory_wf :: "memoryLimiter \<Rightarrow> bool" where
  "memory_wf m \<longleftrightarrow>
     distinct (map fst (keys m)) \<and> 0 < maxKeys m \<and> int (length (keys m)) \<le> maxKeys m \<and>
     '''' \<notin> fst ` set (keys m)"

lemma memory_wf_new [simp]: "memory_wf (NewMemory n)"
  by (simp add: memory_wf_def NewMemory_def)

lemma evict_loop_started:
  "(evict_loop es v old False = v \<and> (\<forall>e \<in> set es. old \<le> lastTouch (snd e))) \<or>
   (\<exists>e \<in> set es. fst e = evict_loop es v old False \<and> lastTouch (snd e) < old \<and>
      (\<forall>x \<in> set es. lastTouch (snd e) \<le> lastTouch (snd x)))"
proof (induction es arbitrary: v old)
  case Nil
  show ?case by simp
next
  case (Cons e es)
  obtain k w where e: "e = (k, w)" by (cases e)
  show ?case
  proof (cases "lastTouch w < old")
    case True
    then have step: "evict_loop (e # es) v old False = evict_loop es k (lastTouch w) False"
      using e by simp
    from Cons.IH[of k "lastTouch w"] show ?thesis
    proof (elim disjE conjE bexE)
      assume "evict_loop es k (lastTouch w) False = k"
        and "\<forall>x \<in> set es. lastTouch w \<le> lastTouch (snd x)"
      with True e step show ?thesis by simp
    next
      fix u assume u: "u \<in> set es" "fst u = evict_loop es k (lastTouch w) False"
        "lastTouch (snd u) < lastTouch w" "\<forall>x \<in> set es. lastTouch (snd u) \<le> lastTouch (snd x)"
      then have "fst u = evict_loop (e # es) v old False \<and> lastTouch (snd u) < old \<and>
          (\<forall>x \<in> set (e # es). lastTouch (snd u) \<le> lastTouch (snd x))"
        using True e step by simp
      moreover have "u \<in> set (e # es)" using u(1) by simp
      ultimately show ?thesis by blast
    qed
  next
    case False
    then have step: "evict_loop (e # es) v old False = evict_loop es v old False"
      using e by simp
    from Cons.IH[of v old] show ?thesis
    proof (elim disjE conjE bexE)
      fix u assume u: "u \<in> set es" "fst u = evict_loop es v old False"
        "lastTouch (snd u) < old" "\<forall>x \<in> set es. lastTouch (snd u) \<le> lastTouch (snd x)"
      then have "fst u = evict_loop (e # es) v old False \<and> lastTouch (snd u) < old \<and>
          (\<forall>x \<in> set (e # es). lastTouch (snd u) \<le> lastTouch (snd x))"
        using False e step by simp
      moreover have "u \<in> set (e # es)" using u(1) by simp
      ultimately show ?thesis by blast
    qed (use False e step in simp)
  qed
qed

lemma evict_loop_oldest:
  assumes "es \<noteq> []"
  shows "\<exists>e \<in> set es. fst e = evict_loop es v old True \<and>
           (\<forall>x \<in> set es. lastTouch (snd e) \<le> lastTouch (snd x))"
proof -
  obtain e es' where es: "es = e # es'" using assms by (cases es) simp_all
  obtain k w where e: "e = (k, w)" by (cases e)
  have step: "evict_loop es v old True = evict_loop es' k (lastTouch w) False"
    using es e by simp
  from evict_loop_started[of es' k "lastTouch w"] show ?thesis
  proof (elim disjE conjE bexE)
    fix u assume u: "u \<in> set es'" "fst u = evict_loop es' k (lastTouch w) False"
      "lastTouch (snd u) < lastTouch w" "\<forall>x \<in> set es'. lastTouch (snd u) \<le> lastTouch (snd x)"
    then have "fst u = evict_loop es v old True \<and> (\<forall>x \<in> set es. lastTouch (snd u) \<le> lastTouch (snd x))"
      using es e step by simp
    moreover have "u \<in> set es" using u(1) es by simp
    ultimately show ?thesis by blast
  qed (use es e step in simp)
qed

lemma range_set: "range_order rng \<Longrightarrow> set (rng es) = set es"
  by (metis range_order_def set_mset_mset)

lemma range_distinct: "range_order rng \<Longrightarrow> distinct (map fst (rng es)) = distinct (map fst es)"
  by (rule mset_eq_imp_distinct_iff) (simp add: range_order_def)

lemma range_Nil: "range_order rng \<Longrightarrow> (rng es = []) = (es = [])"
  by (metis range_order_def mset_zero_iff)

section \<open>What one operation does to the keyspace\<close>

lemma evictOldest_victim:
  assumes "memory_wf m" and "range_order rng" and "keys m \<noteq> []"
  shows "\<exists>v w. map_of (keys m) v = Some w \<and> (\<forall>e \<in> set (keys m). lastTouch w \<le> lastTouch (snd e)) \<and>
           evictOldest rng m = m\<lparr>keys := AList.delete v (keys m)\<rparr>"
proof -
  let ?v = "evict_loop (rng (keys m)) '''' 0 True"
  have "rng (keys m) \<noteq> []" using assms by (simp add: range_Nil)
  from evict_loop_oldest[OF this, of "''''" 0] obtain e where
    e: "e \<in> set (rng (keys m))" "fst e = ?v"
    "\<forall>x \<in> set (rng (keys m)). lastTouch (snd e) \<le> lastTouch (snd x)" by blast
  have in_keys: "(?v, snd e) \<in> set (keys m)"
    using e(1,2) range_set[OF assms(2)] by (metis prod.collapse)
  then have "map_of (keys m) ?v = Some (snd e)"
    using assms(1) by (simp add: memory_wf_def)
  moreover have "?v \<noteq> ''''" using in_keys assms(1) by (force simp: memory_wf_def)
  ultimately show ?thesis
    using e(3) range_set[OF assms(2)] by (auto simp: evictOldest_def Let_def)
qed

lemma evictOldest_wf:
  assumes "memory_wf m" and "range_order rng" and "keys m \<noteq> []"
  shows "memory_wf (evictOldest rng m)" and "Suc (length (keys (evictOldest rng m))) = length (keys m)"
    and "maxKeys (evictOldest rng m) = maxKeys m"
proof -
  obtain v w where v: "map_of (keys m) v = Some w"
    and ev: "evictOldest rng m = m\<lparr>keys := AList.delete v (keys m)\<rparr>"
    using evictOldest_victim[OF assms] by blast
  from v have "v \<in> fst ` set (keys m)" by (force dest: map_of_SomeD)
  with assms(1) have len: "Suc (length (AList.delete v (keys m))) = length (keys m)"
    by (intro delete_length) (simp_all add: memory_wf_def)
  then show "Suc (length (keys (evictOldest rng m))) = length (keys m)" by (simp add: ev)
  show "maxKeys (evictOldest rng m) = maxKeys m" by (simp add: ev)
  show "memory_wf (evictOldest rng m)"
    using assms(1) len dom_delete_subset[of v "keys m"] by (auto simp: memory_wf_def ev distinct_delete)
qed

text \<open>The state a call leaves, by the two ways it can start.\<close>

definition stored_window :: "int \<Rightarrow> int \<Rightarrow> int list \<Rightarrow> memoryWindow" where
  "stored_window now window ts =
     \<lparr>times = filter (\<lambda>t. now - milliseconds window \<le> t) ts @ [now], lastTouch = now\<rparr>"

lemma memory_Allow_known:
  assumes "map_of (keys m) key = Some w"
  shows "memory_Allow rng now key limit window m =
     (int (length (times (stored_window now window (times w)))) \<le> limit,
      m\<lparr>keys := AList.update key (stored_window now window (times w)) (keys m)\<rparr>)"
  using assms by (simp add: memory_Allow_def stored_window_def prune_times_filter Let_def)

lemma memory_Allow_new:
  assumes "map_of (keys m) key = None"
    and "m0 = (if maxKeys m \<le> int (length (keys m)) then evictOldest rng m else m)"
  shows "memory_Allow rng now key limit window m =
     (1 \<le> limit, m0\<lparr>keys := AList.update key (stored_window now window []) (keys m0)\<rparr>)"
  using assms by (simp add: memory_Allow_def stored_window_def prune_times_filter Let_def)

lemma update_wf:
  assumes "memory_wf m" and "key \<noteq> ''''"
    and "key \<in> fst ` set (keys m) \<or> int (length (keys m)) < maxKeys m"
  shows "memory_wf (m\<lparr>keys := AList.update key w (keys m)\<rparr>)"
  using assms by (auto simp: memory_wf_def distinct_update update_length dom_update image_iff)

lemma memory_Allow_wf:
  assumes "memory_wf m" and "range_order rng" and "key \<noteq> ''''"
  shows "memory_wf (snd (memory_Allow rng now key limit window m))"
proof (cases "map_of (keys m) key")
  case (Some w)
  then have "key \<in> fst ` set (keys m)" by (force dest: map_of_SomeD)
  with Some assms show ?thesis by (simp add: memory_Allow_known update_wf)
next
  case None
  define m0 where "m0 = (if maxKeys m \<le> int (length (keys m)) then evictOldest rng m else m)"
  have m0: "memory_wf m0 \<and> int (length (keys m0)) < maxKeys m0"
  proof (cases "maxKeys m \<le> int (length (keys m))")
    case True
    with assms(1) have ne: "keys m \<noteq> []" by (auto simp: memory_wf_def)
    from evictOldest_wf[OF assms(1,2) ne] True assms(1) show ?thesis
      by (simp add: m0_def memory_wf_def)
  qed (use assms(1) m0_def in simp)
  then have "memory_wf (m0\<lparr>keys := AList.update key (stored_window now window []) (keys m0)\<rparr>)"
    using assms(3) by (intro update_wf) auto
  with None m0_def show ?thesis by (simp add: memory_Allow_new)
qed

section \<open>Runs of calls and the specification of the sliding window\<close>

record mem_call =
  c_rng :: range_fun
  c_now :: int
  c_key :: string
  c_limit :: int
  c_window :: int

definition memory_call :: "mem_call \<Rightarrow> memoryLimiter \<Rightarrow> bool \<times> memoryLimiter" where
  "memory_call c m = memory_Allow (c_rng c) (c_now c) (c_key c) (c_limit c) (c_window c) m"

fun memory_run :: "mem_call list \<Rightarrow> memoryLimiter \<Rightarrow> memoryLimiter" where
  "memory_run [] m = m"
| "memory_run (c # cs) m = memory_run cs (snd (memory_call c m))"

fun memory_verdicts :: "mem_call list \<Rightarrow> memoryLimiter \<Rightarrow> bool list" where
  "memory_verdicts [] m = []"
| "memory_verdicts (c # cs) m =
     (let (ok, m') = memory_call c m in ok # memory_verdicts cs m')"

text \<open>
  The specification keeps no state: an earlier request still counts when it lies in the
  window of every request made on the same key since.
\<close>

definition window_start :: "mem_call \<Rightarrow> int" where
  "window_start c = c_now c - milliseconds (c_window c)"

fun still_counted :: "mem_call list \<Rightarrow> int list" where
  "still_counted [] = []"
| "still_counted (c # cs) =
     (if list_all (\<lambda>d. window_start d \<le> c_now c) cs then [c_now c] else []) @ still_counted cs"

definition calls_on :: "string \<Rightarrow> mem_call list \<Rightarrow> mem_call list" where
  "calls_on k cs = filter (\<lambda>c. c_key c = k) cs"

lemma memory_run_append: "memory_run (cs @ ds) m = memory_run ds (memory_run cs m)"
  by (induction cs arbitrary: m) simp_all

lemma memory_run_wf:
  assumes "memory_wf m" and "\<forall>c \<in> set cs. range_order (c_rng c) \<and> c_key c \<noteq> ''''"
  shows "memory_wf (memory_run cs m)"
  using assms
  by (induction cs arbitrary: m) (simp_all add: memory_call_def memory_Allow_wf)

lemma memory_run_maxKeys:
  assumes "memory_wf m" and "\<forall>c \<in> set cs. range_order (c_rng c) \<and> c_key c \<noteq> ''''"
  shows "maxKeys (memory_run cs m) = maxKeys m"
  using assms
proof (induction cs arbitrary: m)
  case (Cons c cs)
  have "maxKeys (snd (memory_call c m)) = maxKeys m"
    using Cons.prems evictOldest_wf(3)[of m "c_rng c"]
    by (cases "map_of (keys m) (c_key c)"; cases "keys m")
       (auto simp: memory_call_def memory_Allow_known memory_Allow_new memory_wf_def)
  moreover have "memory_wf (snd (memory_call c m))"
    using Cons.prems by (simp add: memory_call_def memory_Allow_wf)
  ultimately show ?case using Cons by simp
qed simp

lemma still_counted_snoc:
  "still_counted (cs @ [c]) = filter (\<lambda>t. window_start c \<le> t) (still_counted cs) @ [c_now c]"
  by (induction cs) auto

text \<open>
  A key's window is what the specification says, as long as the distinct keys fit in the
  keyspace (so that nothing was evicted).
\<close>

lemma memory_run_windows:
  assumes "card (c_key ` set cs) \<le> nat (maxKeys (NewMemory n))"
  shows "fst ` set (keys (memory_run cs (NewMemory n))) = c_key ` set cs \<and>
         distinct (map fst (keys (memory_run cs (NewMemory n)))) \<and>
         maxKeys (memory_run cs (NewMemory n)) = maxKeys (NewMemory n) \<and>
         (\<forall>k \<in> c_key ` set cs.
            map_option times (map_of (keys (memory_run cs (NewMemory n))) k) = Some (still_counted (calls_on k cs)))"
  using assms
proof (induction cs rule: rev_induct)
  case Nil
  show ?case by (simp add: NewMemory_def)
next
  case (snoc c cs)
  let ?m = "memory_run cs (NewMemory n)"
  have le: "card (c_key ` set cs) \<le> card (c_key ` set (cs @ [c]))"
    by (intro card_mono) auto
  note IH = snoc.IH[OF le_trans[OF le snoc.prems]]
  define w' where "w' = stored_window (c_now c) (c_window c)
     (case map_of (keys ?m) (c_key c) of Some w \<Rightarrow> times w | None \<Rightarrow> [])"
  have step: "memory_run (cs @ [c]) (NewMemory n) = ?m\<lparr>keys := AList.update (c_key c) w' (keys ?m)\<rparr>"
  proof (cases "map_of (keys ?m) (c_key c)")
    case (Some w)
    then show ?thesis
      by (simp add: memory_run_append memory_call_def memory_Allow_known w'_def)
  next
    case None
    then have "c_key c \<notin> c_key ` set cs" using IH by (simp add: map_of_eq_None_iff)
    moreover have "length (keys ?m) = card (c_key ` set cs)"
      using IH by (metis distinct_card length_map list.set_map)
    ultimately have "int (length (keys ?m)) < maxKeys ?m"
      using snoc.prems IH by (simp add: NewMemory_def split: if_splits)
    with None show ?thesis
      by (simp add: memory_run_append memory_call_def memory_Allow_new w'_def)
  qed
  have old: "(case map_of (keys ?m) (c_key c) of Some w \<Rightarrow> times w | None \<Rightarrow> []) =
      still_counted (calls_on (c_key c) cs)"
  proof (cases "c_key c \<in> c_key ` set cs")
    case True
    then show ?thesis using IH by (auto split: option.splits)
  next
    case False
    then have "map_of (keys ?m) (c_key c) = None" using IH by (simp add: map_of_eq_None_iff)
    moreover have "calls_on (c_key c) cs = []"
      using False by (auto simp: calls_on_def filter_empty_conv image_iff)
    ultimately show ?thesis by simp
  qed
  have "times w' = still_counted (calls_on (c_key c) (cs @ [c]))"
    by (simp add: w'_def old stored_window_def calls_on_def still_counted_snoc window_start_def)
  moreover have "calls_on k (cs @ [c]) = calls_on k cs" if "k \<noteq> c_key c" for k
    using that by (simp add: calls_on_def)
  ultimately show ?case
    using IH by (auto simp: step dom_update distinct_update map_of_update)
qed

lemma memory_verdict:
  assumes "card (c_key ` set (cs @ [c])) \<le> nat (maxKeys (NewMemory n))"
  shows "fst (memory_call c (memory_run cs (NewMemory n))) \<longleftrightarrow>
           int (length (still_counted (calls_on (c_key c) (cs @ [c])))) \<le> c_limit c"
proof -
  let ?m = "memory_run cs (NewMemory n)" and ?m' = "memory_run (cs @ [c]) (NewMemory n)"
  have m': "?m' = snd (memory_call c ?m)" by (simp add: memory_run_append)
  have "map_option times (map_of (keys ?m') (c_key c)) = Some (still_counted (calls_on (c_key c) (cs @ [c])))"
    using memory_run_windows[OF assms] by auto
  moreover have "fst (memory_call c ?m) \<longleftrightarrow>
      (\<exists>w. map_of (keys (snd (memory_call c ?m))) (c_key c) = Some w \<and> int (length (times w)) \<le> c_limit c)"
    by (cases "map_of (keys ?m) (c_key c)")
       (simp_all add: memory_call_def memory_Allow_known memory_Allow_new map_of_update stored_window_def)
  ultimately show ?thesis by (auto simp: m')
qed

text \<open>
  Without that condition a window holds at least the latest of the requests that still count:
  an eviction only forgets.
\<close>

lemma evictOldest_lookup:
  "map_of (keys (evictOldest rng m)) k = map_of (keys m) k \<or> map_of (keys (evictOldest rng m)) k = None"
  by (simp add: evictOldest_def Let_def delete_conv)

lemma memory_run_suffix:
  "map_of (keys (memory_run cs (NewMemory n))) k = Some w \<Longrightarrow> \<exists>pre. still_counted (calls_on k cs) = pre @ times w"
proof (induction cs arbitrary: w rule: rev_induct)
  case Nil
  then show ?case by (simp add: NewMemory_def)
next
  case (snoc c cs)
  let ?m = "memory_run cs (NewMemory n)"
  have run: "memory_run (cs @ [c]) (NewMemory n) = snd (memory_call c ?m)" by (simp add: memory_run_append)
  show ?case
  proof (cases "k = c_key c")
    case True
    then have counted: "still_counted (calls_on k (cs @ [c])) =
        filter (\<lambda>t. window_start c \<le> t) (still_counted (calls_on k cs)) @ [c_now c]"
      by (simp add: calls_on_def still_counted_snoc)
    show ?thesis
    proof (cases "map_of (keys ?m) k")
      case None
      with snoc.prems True have "times w = [c_now c]"
        by (simp add: run memory_call_def memory_Allow_new map_of_update stored_window_def)
          (metis memoryWindow.select_convs(1))
      with counted show ?thesis by simp
    next
      case (Some w0)
      with snoc.prems True have "times w = filter (\<lambda>t. window_start c \<le> t) (times w0) @ [c_now c]"
        by (simp add: run memory_call_def memory_Allow_known map_of_update stored_window_def window_start_def)
          (metis memoryWindow.select_convs(1))
      moreover from snoc.IH[OF Some] obtain pre where "still_counted (calls_on k cs) = pre @ times w0" by blast
      ultimately show ?thesis using counted by simp
    qed
  next
    case False
    have "map_of (keys (snd (memory_call c ?m))) k = map_of (keys ?m) k \<or> map_of (keys (snd (memory_call c ?m))) k = None"
      using False evictOldest_lookup[of "c_rng c" ?m k]
      by (cases "map_of (keys ?m) (c_key c)")
         (auto simp: memory_call_def memory_Allow_known memory_Allow_new map_of_update)
    with snoc.prems have "map_of (keys ?m) k = Some w" by (auto simp: run)
    from snoc.IH[OF this] False show ?thesis by (simp add: calls_on_def)
  qed
qed

lemma memory_denial:
  assumes "\<not> fst (memory_call c (memory_run cs (NewMemory n)))"
  shows "c_limit c < int (length (still_counted (calls_on (c_key c) (cs @ [c]))))"
proof -
  let ?m = "memory_run cs (NewMemory n)"
  obtain w where w: "map_of (keys (snd (memory_call c ?m))) (c_key c) = Some w" "c_limit c < int (length (times w))"
    using assms
    by (cases "map_of (keys ?m) (c_key c)")
       (auto simp: memory_call_def memory_Allow_known memory_Allow_new map_of_update stored_window_def)
  have "memory_run (cs @ [c]) (NewMemory n) = snd (memory_call c ?m)" by (simp add: memory_run_append)
  with w(1) memory_run_suffix[of "cs @ [c]" n "c_key c" w] obtain pre where
    "still_counted (calls_on (c_key c) (cs @ [c])) = pre @ times w" by auto
  with w(2) show ?thesis by simp
qed

text \<open>With a clock that does not run backwards and one window length, what counts is what
  lies in the last window.\<close>

lemma still_counted_monotone:
  assumes "sorted (map c_now (cs @ [c]))" and "\<forall>d \<in> set (cs @ [c]). c_window d = W" and "0 \<le> W"
  shows "still_counted (cs @ [c]) = filter (\<lambda>t. c_now c - milliseconds W \<le> t) (map c_now (cs @ [c]))"
  using assms
proof (induction cs)
  case Nil
  then show ?case by (simp add: milliseconds_def)
next
  case (Cons a cs)
  have "list_all (\<lambda>d. window_start d \<le> c_now a) (cs @ [c]) \<longleftrightarrow> c_now c - milliseconds W \<le> c_now a"
    using Cons.prems by (force simp: list_all_iff window_start_def sorted_append)
  with Cons show ?case by simp
qed

section \<open>Properties\<close>

text \<open>What still counts, with an ordered clock and one window length on the key.\<close>

lemma still_counted_window:
  assumes "sorted (map c_now (calls_on (c_key c) (cs @ [c])))"
    and "\<forall>d \<in> set (calls_on (c_key c) (cs @ [c])). c_window d = W" and "0 \<le> W"
  shows "length (still_counted (calls_on (c_key c) (cs @ [c]))) =
    length (filter (\<lambda>d. c_key d = c_key c \<and> c_now c - milliseconds W \<le> c_now d) (cs @ [c]))"
proof -
  have same: "calls_on (c_key c) (cs @ [c]) = calls_on (c_key c) cs @ [c]" by (simp add: calls_on_def)
  from still_counted_monotone[of "calls_on (c_key c) cs" c W] assms
  have "still_counted (calls_on (c_key c) (cs @ [c])) =
      filter (\<lambda>t. c_now c - milliseconds W \<le> t) (map c_now (calls_on (c_key c) (cs @ [c])))"
    by (simp add: same)
  then show ?thesis by (simp add: calls_on_def filter_map comp_def conj_commute)
qed

text \<open>
  (C21) The fallback is a sliding window over the requests made on a key.  A request counts as
  long as it lies in the window of every request made on its key since; denied requests count
  too.  A call is denied only when more than its limit of requests count, itself included,
  whatever the clock did and whatever was evicted.  It is denied exactly then if all keys used
  so far fit into the keyspace, so that nothing was evicted; with more keys an eviction may
  forget requests.  And if the instants on its key are in order and its window has one length,
  not negative, the requests that count are those of the last window, both ends included.
\<close>

theorem memory_sliding_window:
  "let counted = int (length (still_counted (calls_on (c_key c) (cs @ [c]))));
       allowed = fst (memory_call c (memory_run cs (NewMemory n)))
   in (\<not> allowed \<longrightarrow> c_limit c < counted) \<and>
      (card (c_key ` set (cs @ [c])) \<le> nat (maxKeys (NewMemory n)) \<longrightarrow> (allowed \<longleftrightarrow> counted \<le> c_limit c)) \<and>
      (sorted (map c_now (calls_on (c_key c) (cs @ [c]))) \<and> 0 \<le> W \<and>
         (\<forall>d \<in> set (calls_on (c_key c) (cs @ [c])). c_window d = W) \<longrightarrow>
         counted = int (length (filter (\<lambda>d. c_key d = c_key c \<and> c_now c - milliseconds W \<le> c_now d) (cs @ [c]))))"
  unfolding Let_def
proof (intro conjI impI)
  show "c_limit c < int (length (still_counted (calls_on (c_key c) (cs @ [c]))))"
    if "\<not> fst (memory_call c (memory_run cs (NewMemory n)))" using that by (rule memory_denial)
  show "fst (memory_call c (memory_run cs (NewMemory n))) \<longleftrightarrow>
      int (length (still_counted (calls_on (c_key c) (cs @ [c])))) \<le> c_limit c"
    if "card (c_key ` set (cs @ [c])) \<le> nat (maxKeys (NewMemory n))" using that by (rule memory_verdict)
qed (simp add: still_counted_window[of c cs W])

definition demo_call :: "string \<Rightarrow> int \<Rightarrow> mem_call" where
  "demo_call k t = \<lparr>c_rng = (\<lambda>es. es), c_now = t, c_key = k, c_limit = 2, c_window = 60000000000\<rparr>"

theorem memory_sliding_window_witness:
  "let cs = [demo_call ''a'' 0, demo_call ''b'' 5, demo_call ''a'' 10]; c = demo_call ''a'' 60000
   in \<not> fst (memory_call c (memory_run cs (NewMemory 2))) \<and>
      2 < int (length (filter (\<lambda>d. c_key d = ''a'' \<and> 0 \<le> c_now d) (cs @ [c])))"
proof -
  let ?cs = "[demo_call ''a'' 0, demo_call ''b'' 5, demo_call ''a'' 10]" and ?c = "demo_call ''a'' 60000"
  have fit: "card (c_key ` set (?cs @ [?c])) \<le> nat (maxKeys (NewMemory 2))"
    by (simp add: demo_call_def NewMemory_def card_insert_if)
  have on: "calls_on (c_key ?c) (?cs @ [?c]) = [demo_call ''a'' 0, demo_call ''a'' 10, demo_call ''a'' 60000]"
    by (simp add: calls_on_def demo_call_def)
  have "sorted (map c_now (calls_on (c_key ?c) (?cs @ [?c])))" "(0::int) \<le> 60000000000"
    "\<forall>d \<in> set (calls_on (c_key ?c) (?cs @ [?c])). c_window d = 60000000000"
    unfolding on by (simp_all add: demo_call_def)
  with memory_sliding_window[of ?c ?cs 2 60000000000] fit show ?thesis
    by (simp add: Let_def demo_call_def milliseconds_def)
qed

text \<open>
  (C22) Under any sequence of calls on non-empty keys the limiter holds at most \<open>maxKeys\<close>
  windows, one per key, whatever order the map is visited in.
\<close>

theorem memory_keyspace_bounded:
  assumes "\<forall>c \<in> set cs. range_order (c_rng c) \<and> c_key c \<noteq> ''''"
  shows "int (length (keys (memory_run cs (NewMemory n)))) \<le> maxKeys (NewMemory n) \<and>
         distinct (map fst (keys (memory_run cs (NewMemory n))))"
  using memory_run_wf[OF memory_wf_new assms, of n] memory_run_maxKeys[OF memory_wf_new assms, of n]
  by (simp add: memory_wf_def)

theorem memory_keyspace_bounded_witness:
  "int (length (keys (memory_run [demo_call ''a'' 0, demo_call ''b'' 1, demo_call ''c'' 2] (NewMemory 2)))) \<le> 2"
proof -
  have "\<forall>c \<in> set [demo_call ''a'' 0, demo_call ''b'' 1, demo_call ''c'' 2].
      range_order (c_rng c) \<and> c_key c \<noteq> ''''"
    by (simp add: demo_call_def range_order_def)
  from memory_keyspace_bounded[OF this, of 2] show ?thesis by (simp add: NewMemory_def)
qed

text \<open>The empty key is the sentinel of \<open>evictOldest\<close>: it is never evicted, which is why
  the bound asks for non-empty keys.\<close>

lemma empty_key_is_never_evicted:
  "length (keys (memory_run [demo_call '''' 0, demo_call ''b'' 1] (NewMemory 1))) = 2"
  by (simp add: memory_call_def memory_Allow_def demo_call_def NewMemory_def evictOldest_def
      prune_times_filter milliseconds_def Let_def)

text \<open>
  A new key on a full keyspace costs exactly one other key, one whose last access is
  the oldest; every other window stays as it was and the new key starts with this request.
\<close>

theorem memory_evicts_least_recent:
  assumes "memory_wf m" and "range_order rng" and "maxKeys m = int (length (keys m))"
    and "map_of (keys m) key = None"
  shows "\<exists>v w. map_of (keys m) v = Some w \<and> (\<forall>e \<in> set (keys m). lastTouch w \<le> lastTouch (snd e)) \<and>
     (\<forall>k. map_of (keys (snd (memory_Allow rng now key limit window m))) k =
        (if k = key then Some \<lparr>times = [now], lastTouch = now\<rparr>
         else if k = v then None else map_of (keys m) k))"
proof -
  have "keys m \<noteq> []" using assms(1,3) by (auto simp: memory_wf_def)
  from evictOldest_victim[OF assms(1,2) this] obtain v w where
    v: "map_of (keys m) v = Some w" "\<forall>e \<in> set (keys m). lastTouch w \<le> lastTouch (snd e)"
      "evictOldest rng m = m\<lparr>keys := AList.delete v (keys m)\<rparr>" by blast
  then have "map_of (keys (snd (memory_Allow rng now key limit window m))) k =
        (if k = key then Some \<lparr>times = [now], lastTouch = now\<rparr>
         else if k = v then None else map_of (keys m) k)" for k
    using assms(3,4)
    by (simp add: memory_Allow_new map_of_update delete_conv stored_window_def)
  with v show ?thesis by blast
qed

theorem memory_evicts_least_recent_witness:
  "\<exists>v w. map_of [(''a'', \<lparr>times = [1], lastTouch = 1\<rparr>), (''b'', \<lparr>times = [0], lastTouch = 0\<rparr>)] v = Some w \<and>
     lastTouch w \<le> 0"
proof -
  let ?m = "\<lparr>keys = [(''a'', \<lparr>times = [1], lastTouch = 1\<rparr>), (''b'', \<lparr>times = [0], lastTouch = 0\<rparr>)],
             maxKeys = 2\<rparr>"
  have "memory_wf ?m" and "range_order (\<lambda>es. es)" and "maxKeys ?m = int (length (keys ?m))"
    and "map_of (keys ?m) ''c'' = None"
    by (simp_all add: memory_wf_def range_order_def)
  from memory_evicts_least_recent[OF this, of 2 5 60000000000] show ?thesis by auto
qed

text \<open>
  The in-place pruning loop, which writes into the array it is still reading, keeps
  exactly the instants that are not before the start of the window, in order.
\<close>

theorem prune_in_place: "prune_times start a = filter (\<lambda>t. start \<le> t) a"
  by (rule prune_times_filter)

section \<open>The memory limiter behind the interface\<close>

text \<open>The world of a call on the fallback alone: the instant, the map order and the state.\<close>

record memory_world =
  mw_now :: int
  mw_rng :: range_fun
  mw_lim :: memoryLimiter

definition memory_allow :: "string \<Rightarrow> int \<Rightarrow> memory_world \<Rightarrow> (bool \<times> unit option) \<times> memory_world" where
  "memory_allow k n s =
     (let (ok, m) = memory_Allow (mw_rng s) (mw_now s) k n minute (mw_lim s)
      in ((ok, None), s\<lparr>mw_lim := m\<rparr>))"

definition memory_inv :: "memory_world \<Rightarrow> bool" where
  "memory_inv s \<longleftrightarrow> memory_wf (mw_lim s) \<and> range_order (mw_rng s)"

interpretation memory: limiter_contract memory_allow memory_inv
proof
  fix s k n and ok :: bool and e :: unit and s'
  assume "memory_allow k n s = ((ok, Some e), s')"
  then show "\<not> ok" by (simp add: memory_allow_def split: prod.splits)
next
  fix s and k :: string and n
  assume "memory_inv s" "k \<noteq> ''''"
  then show "memory_inv (snd (memory_allow k n s))"
    using memory_Allow_wf[of "mw_lim s" "mw_rng s" k "mw_now s" n minute]
    by (auto simp: memory_allow_def memory_inv_def split: prod.splits)
qed

end
