(* ===== verification/Go_Time.thy ===== *)
theory Go_Time
  imports Main
begin

text \<open>
  Instants and durations of package \<open>time\<close>: nanoseconds as \<open>int\<close>, the zero time, the
  saturating difference, and the wrap-around of 64-bit arithmetic where the source does it
  by hand.
\<close>

text \<open>The zero \<open>time.Time\<close> (1 January of year 1) in nanoseconds since 1970, and
  \<open>Time.Sub\<close>, which saturates at the ends of a 64-bit duration.\<close>

definition zero_time :: int where "zero_time = - 62135596800 * 1000000000"

definition time_sub :: "int \<Rightarrow> int \<Rightarrow> int" where
  "time_sub a b = max (- (2 ^ 63)) (min (2 ^ 63 - 1) (a - b))"

definition wrap64 :: "int \<Rightarrow> int" where
  "wrap64 x = (x + 2 ^ 63) mod 2 ^ 64 - 2 ^ 63"

definition time_second :: int where "time_second = 1000000000"
definition time_minute :: int where "time_minute = 60 * time_second"
definition time_hour :: int where "time_hour = 60 * time_minute"

lemma time_sub_exact: "\<bar>a - b\<bar> < 2 ^ 63 \<Longrightarrow> time_sub a b = a - b"
  by (simp add: time_sub_def)

lemma wrap64_exact: "- (2 ^ 63) \<le> x \<Longrightarrow> x < 2 ^ 63 \<Longrightarrow> wrap64 x = x"
  by (simp add: wrap64_def)

end
