(* ===== verification/Redis_Limiter.thy ===== *)
theory Redis_Limiter
  imports Memory_Limiter Go_Time
begin

text \<open>
  \<open>internal/ratelimit/limiter.go\<close>: the Redis-backed limiter and how it degrades.

  Redis, the clock and the UUID generator are the outside world \<open>'r\<close>; the record
  \<open>redis_env\<close> holds what a call asks of it.  A pipeline execution answers with one integer
  per command, or \<open>None\<close> for an error.  The methods keep the source's structure: \<open>Allow\<close>
  calls \<open>redisAllow\<close> or \<open>degradedAllow\<close>, \<open>redisAllow\<close> calls \<open>onRedisError\<close>, which calls
  \<open>degradedAllow\<close>, which after a successful probe calls \<open>redisAllow\<close> again.  That last call
  is the argument \<open>again\<close> of the intermediate methods, and \<open>redisAllow\<close> spends one unit of
  fuel per Redis attempt; two are enough for a threshold of at least two
  (\<open>Limiter_Allow_two\<close>).  Calls run one after another here; \<open>Limiter_Interleaving\<close> interleaves
  them, with any threshold.
\<close>

datatype redis_cmd =
    ZRemRangeByScore string string string
  | ZAdd string int string
  | ZCard string
  | Expire string int

record 'r redis_env =
  time_now :: "'r \<Rightarrow> int \<times> 'r"
  new_uuid :: "'r \<Rightarrow> string \<times> 'r"
  pipe_exec :: "redis_cmd list \<Rightarrow> 'r \<Rightarrow> int list option \<times> 'r"
  ping :: "'r \<Rightarrow> bool \<times> 'r"
  map_range :: "'r \<Rightarrow> range_fun"

datatype limiter_error = ErrDegraded

definition DegradeModeMemory :: string where "DegradeModeMemory = ''memory''"

definition DegradeModeDeny :: string where "DegradeModeDeny = ''deny''"

record limiter_options =
  DegradeMode :: string
  DegradeThreshold :: int
  ProbeInterval :: int
  MaxMemoryKeys :: int

record limiter =
  fallback :: memoryLimiter
  mode :: string
  threshold :: int
  probeInterval :: int
  consecutiveFailures :: int
  degraded :: bool
  lastProbe :: int

definition unix_milli :: "int \<Rightarrow> int" where "unix_milli t = t div 1000000"

definition newLimiter :: "limiter_options \<Rightarrow> limiter" where
  "newLimiter opts = \<lparr>
     fallback = NewMemory (MaxMemoryKeys opts),
     mode = (if DegradeMode opts \<noteq> DegradeModeDeny then DegradeModeMemory else DegradeMode opts),
     threshold = (if DegradeThreshold opts \<le> 0 then 3 else DegradeThreshold opts),
     probeInterval = (if ProbeInterval opts \<le> 0 then 15 * 1000000000 else ProbeInterval opts),
     consecutiveFailures = 0, degraded = False, lastProbe = zero_time\<rparr>"

type_synonym 'r allow_result = "((bool \<times> limiter_error option) \<times> limiter \<times> 'r) option"

section \<open>The methods\<close>

definition tryProbe :: "('r, 'x) redis_env_scheme \<Rightarrow> limiter \<Rightarrow> 'r \<Rightarrow> bool \<times> limiter \<times> 'r" where
  "tryProbe env l r =
     (let (now, r1) = time_now env r
      in if time_sub now (lastProbe l) < probeInterval l then (False, l, r1)
         else
           (let (now2, r2) = time_now env r1;
                l1 = l\<lparr>lastProbe := now2\<rparr>;
                (ok, r3) = ping env r2
            in if \<not> ok then (False, l1, r3)
               else (True, l1\<lparr>degraded := False, consecutiveFailures := 0\<rparr>, r3)))"

definition degradedAllow ::
  "('r, 'x) redis_env_scheme \<Rightarrow> (limiter \<Rightarrow> 'r \<Rightarrow> 'r allow_result) \<Rightarrow> string \<Rightarrow> int \<Rightarrow> int \<Rightarrow>
     limiter \<Rightarrow> 'r \<Rightarrow> 'r allow_result" where
  "degradedAllow env again key limit window l r =
     (let (recovered, l1, r1) = tryProbe env l r
      in if recovered then again l1 r1
         else if mode l1 = DegradeModeDeny then Some ((False, Some ErrDegraded), l1, r1)
         else
           (let (now, r2) = time_now env r1;
                (ok, m) = memory_Allow (map_range env r2) (unix_milli now) key limit window (fallback l1)
            in Some ((ok, None), l1\<lparr>fallback := m\<rparr>, r2)))"

definition onRedisError ::
  "('r, 'x) redis_env_scheme \<Rightarrow> (limiter \<Rightarrow> 'r \<Rightarrow> 'r allow_result) \<Rightarrow> string \<Rightarrow> int \<Rightarrow> int \<Rightarrow>
     limiter \<Rightarrow> 'r \<Rightarrow> 'r allow_result" where
  "onRedisError env again key limit window l r =
     (let n = consecutiveFailures l + 1;
          deg = threshold l \<le> n;
          l1 = (if deg then l\<lparr>consecutiveFailures := 0, degraded := True\<rparr>
                else l\<lparr>consecutiveFailures := n\<rparr>)
      in if \<not> deg then Some ((True, None), l1, r)
         else degradedAllow env again key limit window l1 r)"

definition reply_val :: "int list \<Rightarrow> nat \<Rightarrow> int" where
  "reply_val rs i = (if i < length rs then rs ! i else 0)"

definition window_pipeline :: "string \<Rightarrow> int \<Rightarrow> int \<Rightarrow> string \<Rightarrow> redis_cmd list" where
  "window_pipeline key now window reqID =
     [ZRemRangeByScore key ''0'' (show_int (now - milliseconds window)),
      ZAdd key now reqID, ZCard key, Expire key (window + 1000000000)]"

fun redisAllow ::
  "('r, 'x) redis_env_scheme \<Rightarrow> nat \<Rightarrow> string \<Rightarrow> int \<Rightarrow> int \<Rightarrow> limiter \<Rightarrow> 'r \<Rightarrow> 'r allow_result" where
  "redisAllow env 0 key limit window l r = None"
| "redisAllow env (Suc fuel) key limit window l r =
     (let (t, r1) = time_now env r;
          (reqID, r2) = new_uuid env r1;
          (reply, r3) = pipe_exec env (window_pipeline key (unix_milli t) window reqID) r2
      in (case reply of
            None \<Rightarrow> onRedisError env (redisAllow env fuel key limit window) key limit window l r3
          | Some rs \<Rightarrow> Some ((reply_val rs 2 \<le> limit, None), l, r3)))"

definition isDegraded :: "limiter \<Rightarrow> bool" where
  "isDegraded l = degraded l"

definition Limiter_Allow ::
  "('r, 'x) redis_env_scheme \<Rightarrow> nat \<Rightarrow> string \<Rightarrow> int \<Rightarrow> int \<Rightarrow> limiter \<Rightarrow> 'r \<Rightarrow> 'r allow_result" where
  "Limiter_Allow env fuel key limit window l r =
     (if isDegraded l
      then degradedAllow env (redisAllow env fuel key limit window) key limit window l r
      else redisAllow env fuel key limit window l r)"

section \<open>One Redis attempt\<close>

definition redis_attempt ::
  "('r, 'x) redis_env_scheme \<Rightarrow> string \<Rightarrow> int \<Rightarrow> 'r \<Rightarrow> int list option \<times> 'r" where
  "redis_attempt env key window r =
     (let (t, r1) = time_now env r;
          (reqID, r2) = new_uuid env r1
      in pipe_exec env (window_pipeline key (unix_milli t) window reqID) r2)"

lemma redisAllow_Suc:
  "redisAllow env (Suc fuel) key limit window l r =
     (case redis_attempt env key window r of
        (None, r3) \<Rightarrow> onRedisError env (redisAllow env fuel key limit window) key limit window l r3
      | (Some rs, r3) \<Rightarrow> Some ((reply_val rs 2 \<le> limit, None), l, r3))"
  by (auto simp: redis_attempt_def Let_def split: prod.splits option.splits)

declare redisAllow.simps(2) [simp del]

lemma tryProbe_frame:
  assumes "tryProbe env l r = (recovered, l1, r1)"
  shows "mode l1 = mode l" "threshold l1 = threshold l" "probeInterval l1 = probeInterval l"
    "fallback l1 = fallback l"
    "recovered \<Longrightarrow> consecutiveFailures l1 = 0 \<and> \<not> degraded l1"
    "\<not> recovered \<Longrightarrow> consecutiveFailures l1 = consecutiveFailures l \<and> degraded l1 = degraded l"
  using assms by (auto simp: tryProbe_def Let_def split: prod.splits if_splits)

section \<open>Termination\<close>

text \<open>A Redis attempt on a limiter with no failures on record returns at once.\<close>

lemma redisAllow_fresh:
  assumes "consecutiveFailures l = 0" and "2 \<le> threshold l"
  shows "\<exists>res. \<forall>n. redisAllow env (Suc n) key limit window l r = Some res"
  using assms
  by (cases "redis_attempt env key window r"; cases "fst (redis_attempt env key window r)")
     (auto simp: redisAllow_Suc onRedisError_def)

lemma degradedAllow_returns:
  assumes "2 \<le> threshold l"
  shows "\<exists>res. \<forall>n. degradedAllow env (redisAllow env (Suc n) key limit window) key limit window l r = Some res"
proof -
  obtain recovered l1 r1 where p: "tryProbe env l r = (recovered, l1, r1)" by (cases "tryProbe env l r")
  show ?thesis
  proof (cases recovered)
    case True
    with tryProbe_frame[OF p] assms have "\<exists>res. \<forall>n. redisAllow env (Suc n) key limit window l1 r1 = Some res"
      by (intro redisAllow_fresh) simp_all
    with True show ?thesis by (simp add: degradedAllow_def p)
  next
    case False
    then show ?thesis by (auto simp: degradedAllow_def p split: prod.splits)
  qed
qed

lemma Limiter_Allow_two:
  assumes "2 \<le> threshold l"
  shows "\<exists>res. \<forall>n. Limiter_Allow env (Suc (Suc n)) key limit window l r = Some res"
proof (cases "degraded l")
  case True
  from degradedAllow_returns[OF assms] obtain res where
    "\<forall>n. degradedAllow env (redisAllow env (Suc n) key limit window) key limit window l r = Some res" ..
  with True show ?thesis by (cases res) (auto simp: Limiter_Allow_def isDegraded_def)
next
  case False
  obtain reply r3 where a: "redis_attempt env key window r = (reply, r3)" by fastforce
  let ?l1 = "l\<lparr>consecutiveFailures := 0, degraded := True\<rparr>"
  have "2 \<le> threshold ?l1" using assms by simp
  from degradedAllow_returns[OF this] obtain res where
    "\<forall>n. degradedAllow env (redisAllow env (Suc n) key limit window) key limit window ?l1 r3 = Some res" ..
  with False a show ?thesis
    by (cases reply; cases res)
       (auto simp: Limiter_Allow_def isDegraded_def redisAllow_Suc onRedisError_def Let_def)
qed

section \<open>Invariant\<close>

definition limiter_wf :: "limiter \<Rightarrow> bool" where
  "limiter_wf l \<longleftrightarrow>
     0 \<le> consecutiveFailures l \<and> consecutiveFailures l < threshold l \<and> 0 < probeInterval l \<and>
     (mode l = DegradeModeMemory \<or> mode l = DegradeModeDeny) \<and> memory_wf (fallback l)"

lemma limiter_wf_new [simp]: "limiter_wf (newLimiter opts)"
  by (simp add: limiter_wf_def newLimiter_def)

lemma tryProbe_wf:
  "tryProbe env l r = (recovered, l1, r1) \<Longrightarrow> limiter_wf l \<Longrightarrow> limiter_wf l1"
  by (auto simp: tryProbe_def limiter_wf_def Let_def split: prod.splits if_splits)

lemma degradedAllow_wf:
  assumes "limiter_wf l" and "\<forall>r. range_order (map_range env r)" and "key \<noteq> ''''"
    and again: "\<And>l1 r1 out l2 r2. limiter_wf l1 \<Longrightarrow> again l1 r1 = Some (out, l2, r2) \<Longrightarrow> limiter_wf l2"
    and "degradedAllow env again key limit window l r = Some (out, l', r')"
  shows "limiter_wf l'"
proof -
  obtain recovered l1 r1 where p: "tryProbe env l r = (recovered, l1, r1)" by (cases "tryProbe env l r")
  from tryProbe_wf[OF p assms(1)] have l1: "limiter_wf l1" .
  obtain now r2 where t: "time_now env r1 = (now, r2)" by fastforce
  have "memory_wf (snd (memory_Allow (map_range env r2) (unix_milli now) key limit window (fallback l1)))"
    using l1 assms(2,3) by (intro memory_Allow_wf) (simp_all add: limiter_wf_def)
  then show ?thesis
    using assms(5) l1 again[OF l1]
    by (auto simp: degradedAllow_def p t limiter_wf_def Let_def split: if_splits prod.splits)
qed

lemma redisAllow_wf:
  assumes "limiter_wf l" and "\<forall>r. range_order (map_range env r)" and "key \<noteq> ''''"
    and "redisAllow env fuel key limit window l r = Some (out, l', r')"
  shows "limiter_wf l'"
  using assms
proof (induction fuel arbitrary: l r out l' r')
  case (Suc fuel)
  let ?deg = "l\<lparr>consecutiveFailures := 0, degraded := True\<rparr>"
  have wf: "limiter_wf ?deg" using Suc.prems(1) by (simp add: limiter_wf_def)
  obtain reply r3 where a: "redis_attempt env key window r = (reply, r3)" by fastforce
  show ?case
  proof (cases reply)
    case (Some rs)
    with Suc.prems(1,4) a show ?thesis by (simp add: redisAllow_Suc)
  next
    case None
    show ?thesis
    proof (cases "threshold l \<le> consecutiveFailures l + 1")
      case True
      with None a Suc.prems(4) have d: "degradedAllow env (redisAllow env fuel key limit window) key limit window
          ?deg r3 = Some (out, l', r')" by (simp add: redisAllow_Suc onRedisError_def)
      show ?thesis by (rule degradedAllow_wf[OF wf Suc.prems(2,3) _ d]) (rule Suc.IH[OF _ Suc.prems(2,3)])
    next
      case False
      with None a Suc.prems(4) have "l' = l\<lparr>consecutiveFailures := consecutiveFailures l + 1\<rparr>"
        by (simp add: redisAllow_Suc onRedisError_def Let_def)
      with False Suc.prems(1) show ?thesis by (simp add: limiter_wf_def)
    qed
  qed
qed simp

lemma Limiter_Allow_wf:
  assumes "limiter_wf l" and "\<forall>r. range_order (map_range env r)" and "key \<noteq> ''''"
    and "Limiter_Allow env fuel key limit window l r = Some (out, l', r')"
  shows "limiter_wf l'"
proof (cases "degraded l")
  case True
  with assms(4) have d: "degradedAllow env (redisAllow env fuel key limit window) key limit window l r
      = Some (out, l', r')" by (simp add: Limiter_Allow_def isDegraded_def)
  show ?thesis by (rule degradedAllow_wf[OF assms(1,2,3) _ d]) (rule redisAllow_wf[OF _ assms(2,3)])
next
  case False
  with assms(4) have "redisAllow env fuel key limit window l r = Some (out, l', r')"
    by (simp add: Limiter_Allow_def isDegraded_def)
  then show ?thesis by (rule redisAllow_wf[OF assms(1,2,3)])
qed

section \<open>Runs and outages\<close>

text \<open>A run of calls, each given as its key, limit and window; the results in order.\<close>

fun limiter_run ::
  "('r, 'x) redis_env_scheme \<Rightarrow> (string \<times> int \<times> int) list \<Rightarrow> limiter \<Rightarrow> 'r \<Rightarrow>
     ((bool \<times> limiter_error option) list \<times> limiter \<times> 'r) option" where
  "limiter_run env [] l r = Some ([], l, r)"
| "limiter_run env ((key, limit, window) # cs) l r =
     (case Limiter_Allow env 2 key limit window l r of
        None \<Rightarrow> None
      | Some (out, l1, r1) \<Rightarrow>
          (case limiter_run env cs l1 r1 of
             None \<Rightarrow> None
           | Some (outs, l2, r2) \<Rightarrow> Some (out # outs, l2, r2)))"

text \<open>An outage: every pipeline and every ping fails.\<close>

definition pings_fail :: "('r, 'x) redis_env_scheme \<Rightarrow> bool" where
  "pings_fail env \<longleftrightarrow> (\<forall>r. \<not> fst (ping env r))"

definition outage :: "('r, 'x) redis_env_scheme \<Rightarrow> bool" where
  "outage env \<longleftrightarrow> (\<forall>cmds r. fst (pipe_exec env cmds r) = None) \<and> pings_fail env"

lemma outage_pings: "outage env \<Longrightarrow> pings_fail env"
  by (simp add: outage_def)

lemma outage_attempt:
  assumes "outage env"
  shows "\<exists>r3. redis_attempt env key window r = (None, r3)"
proof -
  obtain t r1 where t: "time_now env r = (t, r1)" by fastforce
  obtain u r2 where u: "new_uuid env r1 = (u, r2)" by fastforce
  obtain reply r3 where e: "pipe_exec env (window_pipeline key (unix_milli t) window u) r2 = (reply, r3)"
    by fastforce
  then have "reply = None" using assms unfolding outage_def by (metis fst_conv)
  with t u e show ?thesis by (simp add: redis_attempt_def)
qed

lemma same_lastProbe: "l\<lparr>lastProbe := lastProbe l\<rparr> = (l :: limiter)"
  by (cases l) simp

lemma failed_probe:
  assumes "pings_fail env"
  shows "\<exists>t r1. tryProbe env l r = (False, l\<lparr>lastProbe := t\<rparr>, r1)"
proof -
  obtain now r1 where t: "time_now env r = (now, r1)" by fastforce
  obtain now2 r2 where t2: "time_now env r1 = (now2, r2)" by fastforce
  obtain ok r3 where p: "ping env r2 = (ok, r3)" by fastforce
  with assms have "\<not> ok" by (metis pings_fail_def fst_conv)
  show ?thesis
  proof (cases "time_sub now (lastProbe l) < probeInterval l")
    case True
    then have "tryProbe env l r = (False, l\<lparr>lastProbe := lastProbe l\<rparr>, r1)"
      by (simp add: tryProbe_def t same_lastProbe)
    then show ?thesis by blast
  next
    case False
    with t2 p \<open>\<not> ok\<close> have "tryProbe env l r = (False, l\<lparr>lastProbe := now2\<rparr>, r3)"
      by (simp add: tryProbe_def t Let_def)
    then show ?thesis by blast
  qed
qed

text \<open>One call in an outage: below the threshold it passes and is counted as a failure;
  otherwise it is served by the degraded path.\<close>

lemma outage_below:
  assumes "outage env" and "\<not> degraded l" and "consecutiveFailures l + 1 < threshold l"
  shows "\<exists>r'. Limiter_Allow env 2 key limit window l r =
     Some ((True, None), l\<lparr>consecutiveFailures := consecutiveFailures l + 1\<rparr>, r')"
proof -
  obtain r3 where "redis_attempt env key window r = (None, r3)" using outage_attempt[OF assms(1)] by blast
  with assms(2,3) show ?thesis
    by (auto simp: Limiter_Allow_def isDegraded_def numeral_2_eq_2 redisAllow_Suc onRedisError_def Let_def)
qed

definition tripped :: "limiter \<Rightarrow> limiter" where
  "tripped l = (if degraded l then l else l\<lparr>consecutiveFailures := 0, degraded := True\<rparr>)"

lemma tripped_simps [simp]:
  "degraded (tripped l)" "mode (tripped l) = mode l" "fallback (tripped l) = fallback l"
  "threshold (tripped l) = threshold l"
  by (simp_all add: tripped_def)

lemma unrecovered_degradedAllow:
  assumes "pings_fail env"
  shows "\<exists>t r1. degradedAllow env again key limit window l r =
     (if mode l = DegradeModeDeny then Some ((False, Some ErrDegraded), l\<lparr>lastProbe := t\<rparr>, r1)
      else (let (now, r2) = time_now env r1;
                (ok, m) = memory_Allow (map_range env r2) (unix_milli now) key limit window (fallback l)
            in Some ((ok, None), l\<lparr>lastProbe := t, fallback := m\<rparr>, r2)))"
proof -
  obtain t r1 where "tryProbe env l r = (False, l\<lparr>lastProbe := t\<rparr>, r1)"
    using failed_probe[OF assms] by blast
  then have "degradedAllow env again key limit window l r =
     (if mode l = DegradeModeDeny then Some ((False, Some ErrDegraded), l\<lparr>lastProbe := t\<rparr>, r1)
      else (let (now, r2) = time_now env r1;
                (ok, m) = memory_Allow (map_range env r2) (unix_milli now) key limit window (fallback l)
            in Some ((ok, None), l\<lparr>lastProbe := t, fallback := m\<rparr>, r2)))"
    by (simp add: degradedAllow_def)
  then show ?thesis by blast
qed

lemma outage_tripped:
  assumes "outage env" and "degraded l \<or> threshold l \<le> consecutiveFailures l + 1"
  shows "\<exists>again r1. Limiter_Allow env 2 key limit window l r =
     degradedAllow env again key limit window (tripped l) r1"
proof (cases "degraded l")
  case True
  then show ?thesis by (auto simp: Limiter_Allow_def isDegraded_def tripped_def)
next
  case False
  obtain r3 where "redis_attempt env key window r = (None, r3)" using outage_attempt[OF assms(1)] by blast
  with False assms(2) have "Limiter_Allow env 2 key limit window l r =
      degradedAllow env (redisAllow env 1 key limit window) key limit window (tripped l) r3"
    by (simp add: Limiter_Allow_def isDegraded_def numeral_2_eq_2 redisAllow_Suc onRedisError_def tripped_def)
  then show ?thesis by blast
qed

lemma outage_deny:
  assumes "outage env" and "degraded l \<or> threshold l \<le> consecutiveFailures l + 1"
    and "mode l = DegradeModeDeny"
  shows "\<exists>l' r'. Limiter_Allow env 2 key limit window l r = Some ((False, Some ErrDegraded), l', r') \<and>
     degraded l' \<and> mode l' = DegradeModeDeny"
proof -
  obtain again r1 where eq: "Limiter_Allow env 2 key limit window l r =
      degradedAllow env again key limit window (tripped l) r1"
    using outage_tripped[OF assms(1,2)] by blast
  from unrecovered_degradedAllow[OF outage_pings[OF assms(1)], of again key limit window "tripped l" r1] assms(3)
  show ?thesis by (auto simp: eq)
qed

lemma outage_memory:
  assumes "outage env" and "degraded l \<or> threshold l \<le> consecutiveFailures l + 1"
    and "mode l \<noteq> DegradeModeDeny"
  shows "\<exists>mc l' r'. (c_key mc, c_limit mc, c_window mc) = (key, limit, window) \<and>
     Limiter_Allow env 2 key limit window l r = Some ((fst (memory_call mc (fallback l)), None), l', r') \<and>
     degraded l' \<and> mode l' = mode l \<and> fallback l' = snd (memory_call mc (fallback l))"
proof -
  obtain again r1 where eq: "Limiter_Allow env 2 key limit window l r =
      degradedAllow env again key limit window (tripped l) r1"
    using outage_tripped[OF assms(1,2)] by blast
  from unrecovered_degradedAllow[OF outage_pings[OF assms(1)], of again key limit window "tripped l" r1] assms(3)
  obtain t r2 where d: "degradedAllow env again key limit window (tripped l) r1 =
      (let (now, r3) = time_now env r2;
           (ok, m) = memory_Allow (map_range env r3) (unix_milli now) key limit window (fallback l)
       in Some ((ok, None), (tripped l)\<lparr>lastProbe := t, fallback := m\<rparr>, r3))" by auto
  obtain now r3 where n: "time_now env r2 = (now, r3)" by fastforce
  define mc where "mc = \<lparr>c_rng = map_range env r3, c_now = unix_milli now, c_key = key,
      c_limit = limit, c_window = window\<rparr>"
  obtain ok m where m: "memory_call mc (fallback l) = (ok, m)" by fastforce
  then have "memory_Allow (map_range env r3) (unix_milli now) key limit window (fallback l) = (ok, m)"
    by (simp add: memory_call_def mc_def)
  with d n eq m show ?thesis
    by (intro exI[of _ mc] exI[of _ "(tripped l)\<lparr>lastProbe := t, fallback := m\<rparr>"] exI[of _ r3])
       (simp add: mc_def)
qed

lemma deny_run:
  assumes "outage env" and "mode l = DegradeModeDeny" and "degraded l"
  shows "\<exists>l' r'. limiter_run env cs l r = Some (replicate (length cs) (False, Some ErrDegraded), l', r') \<and> degraded l'"
  using assms(2,3)
proof (induction cs arbitrary: l r)
  case (Cons c cs)
  obtain key limit window where c: "c = (key, limit, window)" by (cases c)
  obtain l1 r1 where step: "Limiter_Allow env 2 key limit window l r = Some ((False, Some ErrDegraded), l1, r1)"
    and l1: "mode l1 = DegradeModeDeny" "degraded l1"
    using outage_deny[OF assms(1)] Cons.prems by blast
  from Cons.IH[OF l1, of r1] step show ?case by (auto simp: c)
qed simp

lemma memory_mode_run:
  assumes "outage env" and "mode l \<noteq> DegradeModeDeny" and "degraded l"
  shows "\<exists>mcs l' r'. map (\<lambda>c. (c_key c, c_limit c, c_window c)) mcs = cs \<and>
     limiter_run env cs l r = Some (map (\<lambda>v. (v, None)) (memory_verdicts mcs (fallback l)), l', r') \<and>
     degraded l' \<and> fallback l' = memory_run mcs (fallback l)"
  using assms(2,3)
proof (induction cs arbitrary: l r)
  case Nil
  then show ?case by (intro exI[of _ "[]"]) simp
next
  case (Cons c cs)
  obtain key limit window where c: "c = (key, limit, window)" by (cases c)
  from outage_memory[OF assms(1) _ Cons.prems(1), of key limit window r] Cons.prems(2)
  obtain mc l1 r1 where mc: "(c_key mc, c_limit mc, c_window mc) = (key, limit, window)"
    and step: "Limiter_Allow env 2 key limit window l r = Some ((fst (memory_call mc (fallback l)), None), l1, r1)"
    and l1: "degraded l1" "mode l1 = mode l" "fallback l1 = snd (memory_call mc (fallback l))" by auto
  from Cons.IH[of l1 r1] l1 Cons.prems obtain mcs l' r' where
    "map (\<lambda>c. (c_key c, c_limit c, c_window c)) mcs = cs"
    "limiter_run env cs l1 r1 = Some (map (\<lambda>v. (v, None)) (memory_verdicts mcs (fallback l1)), l', r')"
    "degraded l'" "fallback l' = memory_run mcs (fallback l1)" by auto
  then show ?case
    using mc step l1(3) by (intro exI[of _ "mc # mcs"]) (simp add: c split: prod.splits)
qed

text \<open>The calls before the threshold is reached pass; the next one starts the degraded run.\<close>

lemma outage_run_prefix:
  assumes "outage env" and "\<not> degraded l" and "int (length cs) + consecutiveFailures l < threshold l"
  shows "\<exists>r'. limiter_run env cs l r = Some (replicate (length cs) (True, None),
     l\<lparr>consecutiveFailures := consecutiveFailures l + int (length cs)\<rparr>, r')"
  using assms(2,3)
proof (induction cs arbitrary: l r)
  case Nil
  have "l\<lparr>consecutiveFailures := consecutiveFailures l\<rparr> = l" by (cases l) simp
  then show ?case by simp
next
  case (Cons c cs)
  obtain key limit window where c: "c = (key, limit, window)" by (cases c)
  let ?l1 = "l\<lparr>consecutiveFailures := consecutiveFailures l + 1\<rparr>"
  obtain r1 where "Limiter_Allow env 2 key limit window l r = Some ((True, None), ?l1, r1)"
    using outage_below[OF assms(1) Cons.prems(1), of key limit window r] Cons.prems(2) by auto
  moreover from Cons.prems obtain r' where "limiter_run env cs ?l1 r1 = Some (replicate (length cs) (True, None),
     ?l1\<lparr>consecutiveFailures := consecutiveFailures ?l1 + int (length cs)\<rparr>, r')"
    using Cons.IH[of ?l1 r1] by auto
  ultimately show ?case by (simp add: c algebra_simps)
qed

lemma limiter_run_append:
  "limiter_run env (cs @ ds) l r =
     (case limiter_run env cs l r of
        None \<Rightarrow> None
      | Some (outs, l1, r1) \<Rightarrow>
          (case limiter_run env ds l1 r1 of
             None \<Rightarrow> None
           | Some (outs', l2, r2) \<Rightarrow> Some (outs @ outs', l2, r2)))"
  by (induction cs arbitrary: l r) (auto split: option.splits prod.splits)

lemma limiter_run_Cons_out:
  assumes "Limiter_Allow env 2 key limit window l r = Some (out, l1, r1)"
    and "limiter_run env cs l1 r1 = Some (outs, l2, r2)"
  shows "limiter_run env ((key, limit, window) # cs) l r = Some (out # outs, l2, r2)"
  using assms by simp

lemma tripping_deny_run:
  assumes "outage env" and "mode l = DegradeModeDeny"
    and "degraded l \<or> threshold l \<le> consecutiveFailures l + 1"
  shows "\<exists>l' r'. limiter_run env cs l r = Some (replicate (length cs) (False, Some ErrDegraded), l', r')"
proof (cases cs)
  case (Cons c ds)
  obtain key limit window where c: "c = (key, limit, window)" by (cases c)
  obtain l1 r1 where step: "Limiter_Allow env 2 key limit window l r = Some ((False, Some ErrDegraded), l1, r1)"
    and l1: "mode l1 = DegradeModeDeny" "degraded l1"
    using outage_deny[OF assms(1,3,2)] by blast
  from deny_run[OF assms(1) l1, of ds r1] limiter_run_Cons_out[OF step] show ?thesis
    by (auto simp: Cons c)
qed simp

lemma tripping_memory_run:
  assumes "outage env" and "mode l \<noteq> DegradeModeDeny"
    and "degraded l \<or> threshold l \<le> consecutiveFailures l + 1"
  shows "\<exists>mcs l' r'. map (\<lambda>c. (c_key c, c_limit c, c_window c)) mcs = cs \<and>
     limiter_run env cs l r = Some (map (\<lambda>v. (v, None)) (memory_verdicts mcs (fallback l)), l', r')"
proof (cases cs)
  case (Cons c ds)
  obtain key limit window where c: "c = (key, limit, window)" by (cases c)
  from outage_memory[OF assms(1,3,2), of key limit window r]
  obtain mc l1 r1 where mc: "(c_key mc, c_limit mc, c_window mc) = (key, limit, window)"
    and step: "Limiter_Allow env 2 key limit window l r = Some ((fst (memory_call mc (fallback l)), None), l1, r1)"
    and l1: "degraded l1" "mode l1 = mode l" "fallback l1 = snd (memory_call mc (fallback l))" by auto
  from memory_mode_run[OF assms(1) _ l1(1), of ds r1] l1 assms(2) obtain mcs l' r' where
    "map (\<lambda>c. (c_key c, c_limit c, c_window c)) mcs = ds"
    "limiter_run env ds l1 r1 = Some (map (\<lambda>v. (v, None)) (memory_verdicts mcs (fallback l1)), l', r')"
    by auto
  then show ?thesis
    using mc limiter_run_Cons_out[OF step] l1(3)
    by (intro exI[of _ "mc # mcs"]) (simp add: Cons c split: prod.splits)
qed (auto intro: exI[of _ "[]"])

text \<open>The calls an outage lets through before the limiter degrades.\<close>

definition open_calls :: "limiter \<Rightarrow> nat" where
  "open_calls l = nat (threshold l - 1 - consecutiveFailures l)"

lemma outage_split:
  assumes "outage env" and "\<not> degraded l" and "0 \<le> consecutiveFailures l" "consecutiveFailures l < threshold l"
  shows "\<exists>l1 r1. limiter_run env (take (open_calls l) cs) l r =
      Some (replicate (min (open_calls l) (length cs)) (True, None), l1, r1) \<and>
    mode l1 = mode l \<and> fallback l1 = fallback l \<and>
    (open_calls l \<le> length cs \<longrightarrow> threshold l1 \<le> consecutiveFailures l1 + 1)"
proof -
  have "int (length (take (open_calls l) cs)) + consecutiveFailures l < threshold l"
    using assms(3,4) by (simp add: open_calls_def)
  from outage_run_prefix[OF assms(1,2) this, of r] show ?thesis
    by (auto simp: open_calls_def min_def)
qed

lemma outage_memory_run:
  assumes "outage env" and "\<not> degraded l" and "0 \<le> consecutiveFailures l" "consecutiveFailures l < threshold l"
    and "mode l \<noteq> DegradeModeDeny"
  shows "\<exists>mcs l' r'. map (\<lambda>c. (c_key c, c_limit c, c_window c)) mcs = drop (open_calls l) cs \<and>
     limiter_run env cs l r = Some (replicate (min (open_calls l) (length cs)) (True, None) @
       map (\<lambda>v. (v, None)) (memory_verdicts mcs (fallback l)), l', r')"
proof -
  let ?k = "open_calls l"
  from outage_split[OF assms(1-4)] obtain l1 r1 where
    run: "limiter_run env (take ?k cs) l r = Some (replicate (min ?k (length cs)) (True, None), l1, r1)"
    and l1: "mode l1 = mode l" "fallback l1 = fallback l"
      "?k \<le> length cs \<longrightarrow> threshold l1 \<le> consecutiveFailures l1 + 1" by blast
  have "\<exists>mcs l' r'. map (\<lambda>c. (c_key c, c_limit c, c_window c)) mcs = drop ?k cs \<and>
      limiter_run env (drop ?k cs) l1 r1 = Some (map (\<lambda>v. (v, None)) (memory_verdicts mcs (fallback l1)), l', r')"
  proof (cases "?k \<le> length cs")
    case True
    with tripping_memory_run[OF assms(1), of l1 "drop ?k cs" r1] l1 assms(5) show ?thesis by simp
  qed (auto intro: exI[of _ "[]"])
  then show ?thesis
    using run l1(2) limiter_run_append[of env "take ?k cs" "drop ?k cs" l r] by auto
qed

lemma outage_deny_run:
  assumes "outage env" and "\<not> degraded l" and "0 \<le> consecutiveFailures l" "consecutiveFailures l < threshold l"
    and "mode l = DegradeModeDeny"
  shows "\<exists>l' r'. limiter_run env cs l r = Some (replicate (min (open_calls l) (length cs)) (True, None) @
     replicate (length cs - open_calls l) (False, Some ErrDegraded), l', r')"
proof -
  let ?k = "open_calls l"
  from outage_split[OF assms(1-4)] obtain l1 r1 where
    run: "limiter_run env (take ?k cs) l r = Some (replicate (min ?k (length cs)) (True, None), l1, r1)"
    and l1: "mode l1 = mode l" "?k \<le> length cs \<longrightarrow> threshold l1 \<le> consecutiveFailures l1 + 1" by blast
  have "\<exists>l' r'. limiter_run env (drop ?k cs) l1 r1 =
      Some (replicate (length cs - ?k) (False, Some ErrDegraded), l', r')"
  proof (cases "?k \<le> length cs")
    case True
    with tripping_deny_run[OF assms(1), of l1 "drop ?k cs" r1] l1 assms(5) show ?thesis by simp
  qed simp
  then show ?thesis
    using run limiter_run_append[of env "take ?k cs" "drop ?k cs" l r] by auto
qed

section \<open>Properties\<close>

text \<open>
  (C23) With a threshold of at least two (the default is three), a call that no other call
  interrupts returns after at most two Redis attempts, whatever Redis and the clock answer, and
  more fuel never changes the result.  With a threshold of one a single failure after a recovery
  trips the limiter again, and the bound depends on the clock: \<open>Limiter_Interleaving\<close> gives it.
\<close>

theorem Limiter_Allow_returns:
  assumes "2 \<le> threshold l"
  shows "\<exists>out l' r'. \<forall>fuel \<ge> 2. Limiter_Allow env fuel key limit window l r = Some (out, l', r')"
proof -
  from Limiter_Allow_two[OF assms] obtain res where
    res: "\<forall>n. Limiter_Allow env (Suc (Suc n)) key limit window l r = Some res" ..
  obtain out l' r' where "res = (out, l', r')" by (cases res)
  with res have "Limiter_Allow env fuel key limit window l r = Some (out, l', r')" if "2 \<le> fuel" for fuel
    using that by (metis Suc_le_D numeral_2_eq_2 Suc_le_mono)
  then show ?thesis by blast
qed

text \<open>A scripted world: the outcomes of the next pipelines, and a clock that stands still.\<close>

record scripted =
  clock :: int
  script :: "bool list"

definition script_env :: "scripted redis_env" where
  "script_env = \<lparr>
     time_now = (\<lambda>r. (clock r, r)),
     new_uuid = (\<lambda>r. (''id'', r)),
     pipe_exec = (\<lambda>cmds r. (case script r of
        True # bs \<Rightarrow> (Some [0, 1, 1, 1], r\<lparr>script := bs\<rparr>)
      | False # bs \<Rightarrow> (None, r\<lparr>script := bs\<rparr>)
      | [] \<Rightarrow> (None, r))),
     ping = (\<lambda>r. (False, r)),
     map_range = (\<lambda>r es. es)\<rparr>"

definition down_env :: "unit redis_env" where
  "down_env = \<lparr>time_now = (\<lambda>r. (0, r)), new_uuid = (\<lambda>r. (''id'', r)), pipe_exec = (\<lambda>cmds r. (None, r)),
     ping = (\<lambda>r. (False, r)), map_range = (\<lambda>r es. es)\<rparr>"

lemma down_env_outage [simp]: "outage down_env"
  by (simp add: outage_def pings_fail_def down_env_def)

definition demo_options :: "string \<Rightarrow> limiter_options" where
  "demo_options m = \<lparr>DegradeMode = m, DegradeThreshold = 2, ProbeInterval = 0, MaxMemoryKeys = 2\<rparr>"

theorem Limiter_Allow_returns_witness:
  "\<exists>out l' r'. Limiter_Allow down_env 2 ''k'' 5 60000000000 (newLimiter (demo_options ''memory'')) () = Some (out, l', r')"
proof -
  have "2 \<le> threshold (newLimiter (demo_options ''memory''))" by (simp add: newLimiter_def demo_options_def)
  from Limiter_Allow_returns[OF this, of down_env "''k''" 5 60000000000 "()"] show ?thesis by blast
qed

text \<open>
  The limiter's invariant: fewer failures on record than the threshold, a mode that is
  memory or deny, a positive probe interval and a well-formed fallback.  A fresh limiter has
  it and every call keeps it, with any fuel and whatever the world answers.
\<close>

theorem limiter_invariant:
  assumes "\<forall>r. range_order (map_range env r)" and "\<forall>(key, limit, window) \<in> set cs. key \<noteq> ''''"
    and "limiter_run env cs (newLimiter opts) r = Some (outs, l', r')"
  shows "limiter_wf l'"
proof -
  have "limiter_wf l' " if "limiter_wf l" "limiter_run env cs l r = Some (outs, l', r')" for l
    using assms(2) that
  proof (induction cs arbitrary: l r outs)
    case (Cons c cs)
    obtain key limit window where c: "c = (key, limit, window)" by (cases c)
    with Cons.prems(3) obtain out l1 r1 outs1 where
      step: "Limiter_Allow env 2 key limit window l r = Some (out, l1, r1)"
      and rest: "limiter_run env cs l1 r1 = Some (outs1, l', r')"
      by (auto split: option.splits)
    have "limiter_wf l1"
      using Limiter_Allow_wf[OF Cons.prems(2) assms(1) _ step] Cons.prems(1) c by simp
    with Cons.IH rest Cons.prems(1) show ?case by simp
  qed simp
  then show ?thesis using assms(3) limiter_wf_new by blast
qed

theorem limiter_invariant_witness:
  "\<exists>outs l' r'. limiter_run down_env [(''k'', 1, 60000000000), (''k'', 1, 60000000000)]
      (newLimiter (demo_options ''memory'')) () = Some (outs, l', r') \<and> limiter_wf l'"
proof -
  let ?cs = "[(''k'', 1, 60000000000), (''k'', 1, 60000000000)] :: (string \<times> int \<times> int) list"
  have cs: "\<forall>(key, limit, window) \<in> set ?cs. key \<noteq> ''''" by simp
  have rng: "\<forall>r. range_order (map_range down_env r)" by (simp add: down_env_def range_order_def)
  obtain outs l' r' where run: "limiter_run down_env ?cs (newLimiter (demo_options ''memory'')) () = Some (outs, l', r')"
    using outage_memory_run[OF down_env_outage, of "newLimiter (demo_options ''memory'')" ?cs "()"]
    by (auto simp: newLimiter_def demo_options_def DegradeModeMemory_def DegradeModeDeny_def)
  from limiter_invariant[OF rng cs run] run show ?thesis by blast
qed

text \<open>
  A Redis outage cannot disable throttling.  In memory mode, while every pipeline and
  ping fails, a healthy limiter lets through only the calls before its failure threshold is
  reached; every later one gets the verdict of the in-process limiter, with the same key,
  limit and window, at some instants and map orders.
\<close>

theorem outage_memory_mode:
  assumes "outage env" and "limiter_wf l" and "\<not> degraded l" and "mode l = DegradeModeMemory"
  shows "\<exists>mcs l' r'. map (\<lambda>c. (c_key c, c_limit c, c_window c)) mcs = drop (open_calls l) cs \<and>
     limiter_run env cs l r = Some (replicate (min (open_calls l) (length cs)) (True, None) @
       map (\<lambda>v. (v, None)) (memory_verdicts mcs (fallback l)), l', r')"
  using assms by (intro outage_memory_run) (simp_all add: limiter_wf_def DegradeModeMemory_def DegradeModeDeny_def)

theorem outage_memory_mode_witness:
  "\<exists>mcs l' r'. length mcs = 1 \<and>
     limiter_run down_env [(''k'', 0, 60000000000), (''k'', 0, 60000000000)]
       (newLimiter (demo_options ''memory'')) () =
     Some ((True, None) # map (\<lambda>v. (v, None)) (memory_verdicts mcs (NewMemory 2)), l', r')"
proof -
  let ?l = "newLimiter (demo_options ''memory'')"
    and ?cs = "[(''k'', 0, 60000000000), (''k'', 0, 60000000000)] :: (string \<times> int \<times> int) list"
  have l: "\<not> degraded ?l" "mode ?l = DegradeModeMemory" "open_calls ?l = 1" "fallback ?l = NewMemory 2"
    by (simp_all add: newLimiter_def demo_options_def DegradeModeMemory_def DegradeModeDeny_def open_calls_def)
  from outage_memory_mode[OF down_env_outage limiter_wf_new l(1,2), of ?cs "()"] obtain mcs l' r' where
    m: "map (\<lambda>c. (c_key c, c_limit c, c_window c)) mcs = drop (open_calls ?l) ?cs"
    and run: "limiter_run down_env ?cs ?l () = Some (replicate (min (open_calls ?l) (length ?cs)) (True, None) @
       map (\<lambda>v. (v, None)) (memory_verdicts mcs (fallback ?l)), l', r')" by blast
  from arg_cong[OF m, of length] have "length mcs = 1" by (simp add: l(3))
  with run show ?thesis by (simp add: l(3,4) del: limiter_run.simps) blast
qed

text \<open>
  In deny mode the outage is answered exactly: the calls before the threshold pass and
  all later ones are refused with \<open>ErrDegraded\<close>.
\<close>

theorem outage_deny_mode:
  assumes "outage env" and "limiter_wf l" and "\<not> degraded l" and "mode l = DegradeModeDeny"
  shows "\<exists>l' r'. limiter_run env cs l r = Some (replicate (min (open_calls l) (length cs)) (True, None) @
     replicate (length cs - open_calls l) (False, Some ErrDegraded), l', r')"
  using assms by (intro outage_deny_run) (simp_all add: limiter_wf_def)

theorem outage_deny_mode_witness:
  "\<exists>l' r'. limiter_run down_env [(''k'', 9, 60000000000), (''k'', 9, 60000000000)]
       (newLimiter (demo_options ''deny'')) () = Some ([(True, None), (False, Some ErrDegraded)], l', r')"
proof -
  let ?l = "newLimiter (demo_options ''deny'')"
    and ?cs = "[(''k'', 9, 60000000000), (''k'', 9, 60000000000)] :: (string \<times> int \<times> int) list"
  have "\<not> degraded ?l" "mode ?l = DegradeModeDeny" "open_calls ?l = 1"
    by (simp_all add: newLimiter_def demo_options_def DegradeModeDeny_def open_calls_def)
  with outage_deny_mode[OF down_env_outage limiter_wf_new this(1,2), of ?cs "()"] show ?thesis by simp
qed

text \<open>Once degraded, and while pings fail, a limiter stays degraded; Redis is not asked.\<close>

lemma unrecovered_result:
  assumes "pings_fail env"
  shows "\<exists>out l1 r1. degradedAllow env again key limit window l r = Some (out, l1, r1) \<and>
     (degraded l \<longrightarrow> degraded l1)"
  using unrecovered_degradedAllow[OF assms, of again key limit window l r]
  by (auto simp: Let_def split: prod.splits if_splits)

lemma degraded_stays:
  assumes "pings_fail env" and "degraded l"
  shows "\<exists>out l' r'. Limiter_Allow env 2 key limit window l r = Some (out, l', r') \<and> degraded l'"
  using unrecovered_result[OF assms(1), of "redisAllow env 2 key limit window" key limit window l r] assms(2)
  by (auto simp: Limiter_Allow_def isDegraded_def)

lemma degraded_run_stays:
  assumes "pings_fail env" and "degraded l"
  shows "\<exists>outs l' r'. limiter_run env cs l r = Some (outs, l', r') \<and> degraded l'"
  using assms(2)
proof (induction cs arbitrary: l r)
  case (Cons c cs)
  obtain key limit window where c: "c = (key, limit, window)" by (cases c)
  from degraded_stays[OF assms(1) Cons.prems, of key limit window r] obtain out l1 r1 where
    "Limiter_Allow env 2 key limit window l r = Some (out, l1, r1)" "degraded l1" by blast
  with Cons.IH[of l1 r1] show ?case by (auto simp: c)
qed simp

lemma script_pings [simp]: "pings_fail script_env"
  by (simp add: pings_fail_def script_env_def)

lemma script_attempt:
  "redis_attempt script_env key window \<lparr>clock = t, script = b # bs\<rparr> =
     (if b then Some [0, 1, 1, 1] else None, \<lparr>clock = t, script = bs\<rparr>)"
  by (cases b) (simp_all add: redis_attempt_def script_env_def)

lemma script_run:
  assumes "\<not> degraded l" and "consecutiveFailures l < threshold l" and "length cs = length bs"
  shows "\<exists>outs l' r'. limiter_run script_env cs l \<lparr>clock = t, script = bs\<rparr> = Some (outs, l', r') \<and>
     (degraded l' \<longleftrightarrow> threshold l \<le> consecutiveFailures l + int (length (filter Not bs)))"
  using assms
proof (induction cs arbitrary: l bs)
  case (Cons c cs)
  obtain key limit window where c: "c = (key, limit, window)" by (cases c)
  obtain b bs' where bs: "bs = b # bs'" using Cons.prems(3) by (cases bs) auto
  let ?r = "\<lparr>clock = t, script = bs\<rparr>" and ?r1 = "\<lparr>clock = t, script = bs'\<rparr>"
  show ?case
  proof (cases b)
    case True
    then obtain out where "Limiter_Allow script_env 2 key limit window l ?r = Some (out, l, ?r1)"
      using Cons.prems(1)
      by (simp add: Limiter_Allow_def isDegraded_def numeral_2_eq_2 redisAllow_Suc script_attempt bs)
    with Cons.IH[of l bs'] Cons.prems bs True show ?thesis by (auto simp: c)
  next
    case fails: False
    show ?thesis
    proof (cases "threshold l \<le> consecutiveFailures l + 1")
      case True
      have "Limiter_Allow script_env 2 key limit window l ?r = degradedAllow script_env
          (redisAllow script_env 1 key limit window) key limit window (tripped l) ?r1"
        using Cons.prems(1) True fails
        by (simp add: Limiter_Allow_def isDegraded_def numeral_2_eq_2 redisAllow_Suc script_attempt bs
            onRedisError_def tripped_def)
      with unrecovered_result[OF script_pings, of "redisAllow script_env 1 key limit window" key limit window
          "tripped l" ?r1]
      obtain out l1 r1 where "Limiter_Allow script_env 2 key limit window l ?r = Some (out, l1, r1)" "degraded l1"
        by force
      with degraded_run_stays[OF script_pings, of l1 cs r1] True fails bs show ?thesis by (auto simp: c)
    next
      case False
      let ?l1 = "l\<lparr>consecutiveFailures := consecutiveFailures l + 1\<rparr>"
      have "Limiter_Allow script_env 2 key limit window l ?r = Some ((True, None), ?l1, ?r1)"
        using Cons.prems(1) False fails
        by (simp add: Limiter_Allow_def isDegraded_def numeral_2_eq_2 redisAllow_Suc script_attempt bs
            onRedisError_def Let_def)
      with Cons.IH[of ?l1 bs'] Cons.prems bs False fails show ?thesis by (auto simp: c algebra_simps)
    qed
  qed
qed simp

text \<open>
  What degrades the limiter is the number of failed pipelines since it was built or
  last recovered, not a streak of them: a successful call leaves the count as it is.  For
  any sequence of outcomes the limiter ends up degraded exactly when the failures in it
  reach the threshold, however many successes lie between them.
\<close>

theorem failures_need_not_be_consecutive:
  assumes "0 < DegradeThreshold opts" and "length cs = length bs"
  shows "\<exists>outs l' r'. limiter_run script_env cs (newLimiter opts) \<lparr>clock = t, script = bs\<rparr> = Some (outs, l', r') \<and>
     (degraded l' \<longleftrightarrow> DegradeThreshold opts \<le> int (length (filter Not bs)))"
  using script_run[of "newLimiter opts" cs bs t] assms by (simp add: newLimiter_def)

theorem failures_need_not_be_consecutive_witness:
  "\<exists>outs l' r'. limiter_run script_env (replicate 4 (''k'', 9, 60000000000))
      (newLimiter (demo_options ''memory'')) \<lparr>clock = 0, script = [False, True, True, False]\<rparr> = Some (outs, l', r') \<and>
     degraded l'"
proof -
  have "0 < DegradeThreshold (demo_options ''memory'')" by (simp add: demo_options_def)
  from failures_need_not_be_consecutive[OF this, of "replicate 4 (''k'', 9, 60000000000)" "[False, True, True, False]" 0]
  show ?thesis by (simp add: demo_options_def del: limiter_run.simps)
qed

text \<open>
  The fallback does not quite mirror the Redis pipeline it stands in for.  With the
  inclusive bounds Redis documents for \<open>ZREMRANGEBYSCORE\<close>, the one recorded instant the two
  treat differently is the one at the very start of the window: the pipeline removes it, the
  in-process limiter still counts it.
\<close>

theorem window_edge_differs:
  assumes documented: "\<forall>lo hi score. removes lo hi score \<longleftrightarrow> lo \<le> score \<and> score \<le> hi"
    and "0 \<le> now - milliseconds window"
  shows "\<exists>s. hd (window_pipeline key now window reqID) = ZRemRangeByScore key ''0'' (show_int s) \<and>
     (\<forall>t. 0 \<le> t \<longrightarrow> (t \<in> set (prune_times (now - milliseconds window) [t]) \<and> removes 0 s t \<longleftrightarrow> t = s))"
  using assms by (intro exI[of _ "now - milliseconds window"])
    (auto simp: window_pipeline_def prune_times_filter)

theorem window_edge_differs_witness:
  "\<exists>s. hd (window_pipeline ''k'' 100000 60000000000 ''id'') = ZRemRangeByScore ''k'' ''0'' (show_int s) \<and>
     (40000 \<in> set (prune_times 40000 [40000]) \<and> 40000 \<le> s \<longleftrightarrow> 40000 = s)"
proof -
  have "\<forall>lo hi score. (\<lambda>lo hi score. lo \<le> score \<and> score \<le> hi) lo hi (score :: int) \<longleftrightarrow> lo \<le> score \<and> score \<le> hi"
    and ms: "(100000::int) - milliseconds 60000000000 = 40000" by (simp_all add: milliseconds_def)
  then obtain s where
    s: "hd (window_pipeline ''k'' 100000 60000000000 ''id'') = ZRemRangeByScore ''k'' ''0'' (show_int s)"
    "\<forall>t. 0 \<le> t \<longrightarrow> (t \<in> set (prune_times (100000 - milliseconds 60000000000) [t]) \<and>
        (0 \<le> t \<and> t \<le> s) \<longleftrightarrow> t = s)"
    using window_edge_differs[of "\<lambda>lo hi score. lo \<le> score \<and> score \<le> hi" 100000 60000000000 "''k''" "''id''"]
    by (metis zero_le_numeral)
  from s(2)[rule_format, of 40000] have "40000 \<in> set (prune_times 40000 [40000]) \<and> 40000 \<le> s \<longleftrightarrow> 40000 = s"
    by (simp only: ms) simp
  with s(1) show ?thesis by blast
qed

section \<open>The limiter behind the interface\<close>

text \<open>
  The limiter with its world, as the middleware calls it (window one minute).  The \<open>None\<close>
  branch stands for a call that does not return; by \<open>Limiter_Allow_two\<close> there is none for a
  threshold of at least two.
\<close>

definition limiter_allow ::
  "string \<Rightarrow> int \<Rightarrow> 'r redis_env \<times> limiter \<times> 'r \<Rightarrow>
     (bool \<times> limiter_error option) \<times> 'r redis_env \<times> limiter \<times> 'r" where
  "limiter_allow k n s =
     (case s of (env, l, r) \<Rightarrow>
       (case Limiter_Allow env 2 k n minute l r of
          Some (out, l', r') \<Rightarrow> (out, env, l', r')
        | None \<Rightarrow> ((False, None), env, l, r)))"

definition limiter_inv :: "'r redis_env \<times> limiter \<times> 'r \<Rightarrow> bool" where
  "limiter_inv s \<longleftrightarrow> (case s of (env, l, r) \<Rightarrow> limiter_wf l \<and> (\<forall>r. range_order (map_range env r)))"

lemma degradedAllow_error:
  assumes "degradedAllow env again key limit window l r = Some ((ok, Some e), l', r')"
    and "\<And>l1 r1. again l1 r1 = Some ((ok, Some e), l', r') \<Longrightarrow> \<not> ok"
  shows "\<not> ok"
  using assms by (auto simp: degradedAllow_def Let_def split: prod.splits if_splits)

lemma redisAllow_error:
  "redisAllow env fuel key limit window l r = Some ((ok, Some e), l', r') \<Longrightarrow> \<not> ok"
proof (induction fuel arbitrary: l r)
  case (Suc fuel)
  obtain reply r3 where a: "redis_attempt env key window r = (reply, r3)" by fastforce
  show ?case
  proof (cases reply)
    case None
    with Suc.prems a have "degradedAllow env (redisAllow env fuel key limit window) key limit window
        (l\<lparr>consecutiveFailures := 0, degraded := True\<rparr>) r3 = Some ((ok, Some e), l', r')"
      by (auto simp: redisAllow_Suc onRedisError_def Let_def split: if_splits)
    then show ?thesis by (rule degradedAllow_error) (rule Suc.IH)
  qed (use Suc.prems a in \<open>simp add: redisAllow_Suc\<close>)
qed simp

lemma Limiter_Allow_error:
  "Limiter_Allow env fuel key limit window l r = Some ((ok, Some e), l', r') \<Longrightarrow> \<not> ok"
  using degradedAllow_error redisAllow_error
  by (metis Limiter_Allow_def)

interpretation redis: limiter_contract limiter_allow limiter_inv
proof
  fix s :: "'r redis_env \<times> limiter \<times> 'r" and k n ok e s'
  assume "limiter_allow k n s = ((ok, Some e), s')"
  then show "\<not> ok"
    by (auto simp: limiter_allow_def dest: Limiter_Allow_error split: prod.splits option.splits)
next
  fix s :: "'r redis_env \<times> limiter \<times> 'r" and k :: string and n
  assume "limiter_inv s" "k \<noteq> ''''"
  then show "limiter_inv (snd (limiter_allow k n s))"
    by (auto simp: limiter_allow_def limiter_inv_def dest: Limiter_Allow_wf split: prod.splits option.splits)
qed

end
