(* ===== verification/Http_Model.thy ===== *)
theory Http_Model
  imports Prelude_Go
begin

text \<open>
  The part of \<open>net/http\<close>, \<open>net/textproto\<close> and \<open>context\<close> the gateway's own code uses:
  header maps with canonical keys, response writers whose header is fixed by the first
  \<open>WriteHeader\<close>, request contexts, cookies, bodies under \<open>MaxBytesReader\<close>, and handlers.

  \<open>swlib\<close> is another repository.  Its functions are fields of the record \<open>swlib\<close>, an
  argument of every definition that calls them; \<open>swlib_context\<close> states what the gateway
  (and its tests) rely on: an accessor returns what was last stored under its key.

  A middleware is a function from the next handler to a handler.  The locale \<open>gate\<close> is
  the contract all of them share: a middleware either answers the request by itself or
  passes one request on, and its decision does not depend on what comes after it.
\<close>

section \<open>Header maps\<close>

definition token_char :: "char \<Rightarrow> bool" where
  "token_char c =
     (let n = of_char c :: nat
      in (48 \<le> n \<and> n \<le> 57) \<or> (65 \<le> n \<and> n \<le> 90) \<or> (97 \<le> n \<and> n \<le> 122) \<or>
         List.member [33, 35, 36, 37, 38, 39, 42, 43, 45, 46, 94, 95, 96, 124, 126] n)"

fun canon_letters :: "bool \<Rightarrow> string \<Rightarrow> string" where
  "canon_letters up [] = []"
| "canon_letters up (c # cs) =
     (if up then upper_char c else lower_char c) # canon_letters (c = CHR ''-'') cs"

definition canonical_key :: "string \<Rightarrow> string" where
  "canonical_key s = (if list_all token_char s then canon_letters True s else s)"

type_synonym header = "(string \<times> string list) list"

definition h_values :: "header \<Rightarrow> string \<Rightarrow> string list" where
  "h_values h name = (case map_of h (canonical_key name) of None \<Rightarrow> [] | Some vs \<Rightarrow> vs)"

definition h_get :: "header \<Rightarrow> string \<Rightarrow> string" where
  "h_get h name = (case h_values h name of [] \<Rightarrow> '''' | v # _ \<Rightarrow> v)"

definition h_set :: "header \<Rightarrow> string \<Rightarrow> string \<Rightarrow> header" where
  "h_set h name v = AList.update (canonical_key name) [v] h"

definition h_add :: "header \<Rightarrow> string \<Rightarrow> string \<Rightarrow> header" where
  "h_add h name v = AList.update (canonical_key name) (h_values h name @ [v]) h"

definition h_del :: "header \<Rightarrow> string \<Rightarrow> header" where
  "h_del h name = AList.delete (canonical_key name) h"

text \<open>A header as the server parses it: one entry per key, every key canonical.\<close>

definition canonical_header :: "header \<Rightarrow> bool" where
  "canonical_header h = (distinct (map fst h) \<and> list_all (\<lambda>k. canonical_key k = k) (map fst h))"

lemma h_values_set [go_map]:
  "h_values (h_set h n v) m = (if canonical_key m = canonical_key n then [v] else h_values h m)"
  by (simp add: h_values_def h_set_def update_conv)

lemma h_get_set [go_map]:
  "h_get (h_set h n v) m = (if canonical_key m = canonical_key n then v else h_get h m)"
  by (simp add: h_get_def go_map)

lemma h_values_del [go_map]:
  "h_values (h_del h n) m = (if canonical_key m = canonical_key n then [] else h_values h m)"
  by (simp add: h_values_def h_del_def delete_conv)

lemma h_get_del [go_map]:
  "h_get (h_del h n) m = (if canonical_key m = canonical_key n then '''' else h_get h m)"
  by (simp add: h_get_def go_map)

section \<open>Response writers\<close>

text \<open>
  \<open>hdr\<close> is the header map handlers edit, \<open>committed\<close> the status and the header as they
  were at the first \<open>WriteHeader\<close> (later calls are ignored), \<open>passed\<close> every status a
  \<open>WriteHeader\<close> was called with, which a recorder around the writer sees, and \<open>out\<close> the
  bytes written.  A \<open>Write\<close> before any \<open>WriteHeader\<close> commits status 200.
\<close>

record response =
  hdr :: header
  committed :: "(int \<times> header) option"
  passed :: "int list"
  out :: string

definition fresh_response :: response where
  "fresh_response = \<lparr>hdr = [], committed = None, passed = [], out = ''''\<rparr>"

definition set_header :: "response \<Rightarrow> string \<Rightarrow> string \<Rightarrow> response" where
  "set_header w name v = w\<lparr>hdr := h_set (hdr w) name v\<rparr>"

definition write_header :: "response \<Rightarrow> int \<Rightarrow> response" where
  "write_header w code =
     (case committed w of
        None \<Rightarrow> w\<lparr>committed := Some (code, hdr w), passed := passed w @ [code]\<rparr>
      | Some _ \<Rightarrow> w\<lparr>passed := passed w @ [code]\<rparr>)"

definition write_body :: "response \<Rightarrow> string \<Rightarrow> response" where
  "write_body w data =
     (case committed w of
        None \<Rightarrow> w\<lparr>committed := Some (200, hdr w), out := out w @ data\<rparr>
      | Some _ \<Rightarrow> w\<lparr>out := out w @ data\<rparr>)"

definition http_error :: "response \<Rightarrow> string \<Rightarrow> int \<Rightarrow> response" where
  "http_error w msg code =
     (let h1 = h_del (hdr w) ''Content-Length'';
          h2 = h_set h1 ''Content-Type'' ''text/plain; charset=utf-8'';
          h3 = h_set h2 ''X-Content-Type-Options'' ''nosniff''
      in write_body (write_header (w\<lparr>hdr := h3\<rparr>) code) (msg @ [CHR 0x0A]))"

definition status_of :: "response \<Rightarrow> int option" where
  "status_of w = map_option fst (committed w)"

definition sent_header :: "response \<Rightarrow> header" where
  "sent_header w = (case committed w of None \<Rightarrow> [] | Some (_, h) \<Rightarrow> h)"

lemma status_write_header [simp]:
  "committed w = None \<Longrightarrow> status_of (write_header w c) = Some c"
  by (simp add: write_header_def status_of_def)

lemma status_write_header_again:
  "status_of w = Some c \<Longrightarrow> status_of (write_header w d) = Some c"
  by (auto simp: write_header_def status_of_def split: option.splits)

lemma status_http_error [simp]:
  "committed w = None \<Longrightarrow> status_of (http_error w m c) = Some c"
  by (simp add: http_error_def write_body_def write_header_def status_of_def Let_def)

lemma out_http_error [simp]: "out (http_error w m c) = out w @ m @ [CHR 0x0A]"
  by (simp add: http_error_def write_body_def write_header_def Let_def split: option.splits)

lemma committed_http_error [simp]: "committed (http_error w m c) \<noteq> None"
  by (simp add: http_error_def write_body_def write_header_def Let_def split: option.splits)

section \<open>Claims and request contexts\<close>

text \<open>The fields of \<open>jwt.Claims\<close> and \<open>jwt.SwayRiderUserClaims\<close> the gateway reads; a
  \<open>sw_claims\<close> of \<open>None\<close> is a claims value of another kind (the type assertion fails).
  Claims in a context are non-nil pointers, which is what a successful \<open>Verify\<close> yields.\<close>

record user_claims =
  account_level :: string
  is_admin :: bool

record claims =
  subject :: string
  email :: "string option"
  email_verified :: "bool option"
  sw_claims :: "user_claims option"

datatype ctx_key = ClaimsKey | JwtKey | RefreshKey | OrigIpKey | SecureKey

datatype ctx_val = VClaims claims | VString string | VBool bool

type_synonym ctx = "(ctx_key \<times> ctx_val) list"

definition with_value :: "ctx \<Rightarrow> ctx_key \<Rightarrow> ctx_val \<Rightarrow> ctx" where
  "with_value c k v = (k, v) # c"

definition ctx_value :: "ctx \<Rightarrow> ctx_key \<Rightarrow> ctx_val option" where
  "ctx_value c k = map_of c k"

lemma ctx_value_with [go_map]:
  "ctx_value (with_value c k v) k' = (if k' = k then Some v else ctx_value c k')"
  by (simp add: ctx_value_def with_value_def)

text \<open>The functions of \<open>swlib\<close> the gateway calls.\<close>

record swlib =
  getClaims :: "ctx \<Rightarrow> claims option \<times> bool"
  getJwt :: "ctx \<Rightarrow> string \<times> bool"
  getRefreshToken :: "ctx \<Rightarrow> string \<times> bool"
  getOrigIp :: "ctx \<Rightarrow> string \<times> bool"
  fullCookieName :: "string \<Rightarrow> string"
  decodeValue :: "string \<Rightarrow> string option"

definition stored_string :: "ctx_val option \<Rightarrow> string \<times> bool" where
  "stored_string v = (case v of Some (VString s) \<Rightarrow> (s, True) | _ \<Rightarrow> ('''', False))"

definition stored_claims :: "ctx_val option \<Rightarrow> claims option \<times> bool" where
  "stored_claims v = (case v of Some (VClaims c) \<Rightarrow> (Some c, True) | _ \<Rightarrow> (None, False))"

definition swlib_context :: "swlib \<Rightarrow> bool" where
  "swlib_context lib \<longleftrightarrow>
     (\<forall>c. getClaims lib c = stored_claims (ctx_value c ClaimsKey)) \<and>
     (\<forall>c. getJwt lib c = stored_string (ctx_value c JwtKey)) \<and>
     (\<forall>c. getRefreshToken lib c = stored_string (ctx_value c RefreshKey)) \<and>
     (\<forall>c. getOrigIp lib c = stored_string (ctx_value c OrigIpKey))"

text \<open>An instance that satisfies it, for the concrete inputs of witnesses.\<close>

definition plain_swlib :: swlib where
  "plain_swlib = \<lparr>
     getClaims = (\<lambda>c. stored_claims (ctx_value c ClaimsKey)),
     getJwt = (\<lambda>c. stored_string (ctx_value c JwtKey)),
     getRefreshToken = (\<lambda>c. stored_string (ctx_value c RefreshKey)),
     getOrigIp = (\<lambda>c. stored_string (ctx_value c OrigIpKey)),
     fullCookieName = (\<lambda>n. ''ns.'' @ n),
     decodeValue = Some\<rparr>"

lemma plain_swlib_context [simp]: "swlib_context plain_swlib"
  by (simp add: swlib_context_def plain_swlib_def)

lemma swlib_contextD:
  assumes "swlib_context lib"
  shows "getClaims lib c = stored_claims (ctx_value c ClaimsKey)"
    and "getJwt lib c = stored_string (ctx_value c JwtKey)"
    and "getRefreshToken lib c = stored_string (ctx_value c RefreshKey)"
    and "getOrigIp lib c = stored_string (ctx_value c OrigIpKey)"
  using assms by (simp_all add: swlib_context_def)

section \<open>Requests\<close>

text \<open>
  A body is its bytes and the bound \<open>MaxBytesReader\<close> put on it; reading all of a longer
  body fails with \<open>MaxBytesError\<close>.
\<close>

record body =
  content :: string
  max_bytes :: "int option"

definition max_bytes_reader :: "body \<Rightarrow> int \<Rightarrow> body" where
  "max_bytes_reader b n =
     b\<lparr>max_bytes := Some (case max_bytes b of None \<Rightarrow> n | Some m \<Rightarrow> min m n)\<rparr>"

definition read_all :: "body \<Rightarrow> string option" where
  "read_all b =
     (case max_bytes b of
        Some n \<Rightarrow> if int (length (content b)) \<le> n then Some (content b) else None
      | None \<Rightarrow> Some (content b))"

record request =
  r_method :: string
  r_path :: string
  r_raw_path :: string
  r_header :: header
  r_remote_addr :: string
  r_tls :: bool
  r_body :: body
  r_ctx :: ctx

definition with_context :: "request \<Rightarrow> ctx \<Rightarrow> request" where
  "with_context r c = r\<lparr>r_ctx := c\<rparr>"

text \<open>
  \<open>Request.Cookie\<close>: the first well-formed pair of the \<open>Cookie\<close> header lines with that
  name, as \<open>net/http\<close> reads them.
\<close>

definition trim_http_space :: "string \<Rightarrow> string" where
  "trim_http_space s =
     (let sp = (\<lambda>c. c = CHR 0x20 \<or> c = CHR 0x09)
      in rev (dropWhile sp (rev (dropWhile sp s))))"

definition cookie_value_byte :: "char \<Rightarrow> bool" where
  "cookie_value_byte c =
     (let n = of_char c :: nat in 32 \<le> n \<and> n < 127 \<and> n \<noteq> 34 \<and> n \<noteq> 59 \<and> n \<noteq> 92)"

definition parse_cookie_value :: "string \<Rightarrow> string option" where
  "parse_cookie_value raw =
     (let v = (if 1 < length raw \<and> hd raw = CHR 0x22 \<and> last raw = CHR 0x22
               then butlast (tl raw) else raw)
      in if list_all cookie_value_byte v then Some v else None)"

definition parse_cookie_pair :: "string \<Rightarrow> (string \<times> string) option" where
  "parse_cookie_pair part =
     (let (name, rest) = cut_byte (CHR ''='') (trim_http_space part);
          val = (case rest of None \<Rightarrow> '''' | Some v \<Rightarrow> v);
          name' = trim_http_space name
      in if name' = '''' \<or> \<not> list_all token_char name' then None
         else map_option (Pair name') (parse_cookie_value val))"

definition request_cookies :: "header \<Rightarrow> (string \<times> string) list" where
  "request_cookies h =
     List.map_filter parse_cookie_pair (concat (map (split_on (CHR '';'')) (h_values h ''Cookie'')))"

definition request_cookie :: "request \<Rightarrow> string \<Rightarrow> string option" where
  "request_cookie r name = map_of (request_cookies (r_header r)) name"

section \<open>Handlers and middleware\<close>

type_synonym 's handler = "request \<Rightarrow> response \<Rightarrow> 's \<Rightarrow> response \<times> 's"

type_synonym 's verdict = "(response \<times> 's) + (request \<times> response \<times> 's)"

definition decide_then ::
  "(request \<Rightarrow> response \<Rightarrow> 's \<Rightarrow> 's verdict) \<Rightarrow> (request \<Rightarrow> response \<Rightarrow> 's \<Rightarrow> 's verdict) \<Rightarrow>
     request \<Rightarrow> response \<Rightarrow> 's \<Rightarrow> 's verdict" where
  "decide_then d1 d2 r w s =
     (case d1 r w s of Inl o1 \<Rightarrow> Inl o1 | Inr (r', w', s') \<Rightarrow> d2 r' w' s')"

locale gate =
  fixes mw :: "'s handler \<Rightarrow> 's handler"
    and decide :: "request \<Rightarrow> response \<Rightarrow> 's \<Rightarrow> 's verdict"
  assumes mw_decide:
    "mw next r w s = (case decide r w s of Inl o1 \<Rightarrow> o1 | Inr (r', w', s') \<Rightarrow> next r' w' s')"
begin

lemma answered: "decide r w s = Inl o1 \<Longrightarrow> mw next r w s = o1"
  by (simp add: mw_decide)

lemma forwarded: "decide r w s = Inr (r', w', s') \<Longrightarrow> mw next r w s = next r' w' s'"
  by (simp add: mw_decide)

lemma next_only_when_forwarded:
  assumes "\<And>r' w' s'. decide r w s = Inr (r', w', s') \<Longrightarrow> n1 r' w' s' = n2 r' w' s'"
  shows "mw n1 r w s = mw n2 r w s"
  using assms by (auto simp: mw_decide split: sum.splits prod.splits)

end

locale two_gates = outer: gate mw1 d1 + inner: gate mw2 d2
  for mw1 :: "'s handler \<Rightarrow> 's handler" and d1 and mw2 :: "'s handler \<Rightarrow> 's handler" and d2

sublocale two_gates \<subseteq> chain: gate "\<lambda>next. mw1 (mw2 next)" "decide_then d1 d2"
  by unfold_locales
    (auto simp: decide_then_def outer.mw_decide inner.mw_decide split: sum.splits prod.splits)

end
