(* ===== verification/Rate_Middleware.thy ===== *)
theory Rate_Middleware
  imports Http_Model Limiter_Interface
begin

text \<open>
  \<open>internal/middleware/ratelimit.go\<close>: the class of a request path, the key and limit it is
  counted under, and the handler that asks the limiter and answers 429.  The limiter is any
  \<open>allow\<close>; lemmas that need the limiter's laws are in the contexts of the interface locales.
\<close>

record ExtensionClass =
  ec_Name :: string
  ec_UserPerMin :: int
  ec_IPPerMin :: int
  ec_PerIPOnly :: bool

record RateLimitConfig =
  Extension :: "(request \<Rightarrow> ExtensionClass \<times> bool) option"
  IPAuth :: int
  IPPublic :: int
  IPAPI :: int
  UserAPI :: int
  UserExpensive :: int
  UserReroute :: int
  UserTiles :: int

definition endpointClass :: "string \<Rightarrow> string \<times> bool" where
  "endpointClass path =
     (if path = ''/api/v1/auth/login'' \<or> path = ''/api/v1/auth/register'' \<or>
         path = ''/api/v1/auth/request-password-reset'' \<or> path = ''/api/v1/auth/forgot-password'' \<or>
         path = ''/api/v1/auth/verify-email'' \<or> path = ''/api/v1/auth/mfa/reset/request'' \<or>
         path = ''/api/v1/auth/mfa/verify''
      then (''auth'', False)
      else if path = ''/health'' \<or> path = ''/api/v1/auth/public-keys'' then (''public'', False)
      else if has_prefix path ''/v1/tiles/'' then (''tiles'', True)
      else if path = ''/api/v1/route/reroute'' then (''reroute'', True)
      else if has_prefix path ''/api/v1/route'' \<or> has_prefix path ''/api/v1/search'' then (''expensive'', True)
      else (''api'', True))"

text \<open>\<open>claims.Subject\<close>; only read where \<open>GetClaims\<close> said the claims are there.\<close>

definition claims_subject :: "claims option \<Rightarrow> string" where
  "claims_subject c = (case c of Some x \<Rightarrow> subject x | None \<Rightarrow> '''')"

text \<open>The switch of \<open>RateLimit\<close>: each case asks the limiter once; an unknown class asks
  nothing and denies.\<close>

definition rate_check ::
  "swlib \<Rightarrow> (string \<Rightarrow> int \<Rightarrow> 's \<Rightarrow> (bool \<times> 'e option) \<times> 's) \<Rightarrow> RateLimitConfig \<Rightarrow> request \<Rightarrow> 's \<Rightarrow>
     (bool \<times> 'e option) \<times> 's" where
  "rate_check lib allow cfg r s =
     (let ip = fst (getOrigIp lib (r_ctx r));
          (claims, authed) = getClaims lib (r_ctx r);
          (class, perUser) = endpointClass (r_path r);
          (ext, isExt) = (case Extension cfg of
             Some f \<Rightarrow> f r
           | None \<Rightarrow> (\<lparr>ec_Name = '''', ec_UserPerMin = 0, ec_IPPerMin = 0, ec_PerIPOnly = False\<rparr>, False))
      in if isExt then
           (let class = ''ext:'' @ ec_Name ext
            in if authed \<and> \<not> ec_PerIPOnly ext
               then allow (''rl:'' @ class @ '':user:'' @ claims_subject claims) (ec_UserPerMin ext) s
               else allow (''rl:'' @ class @ '':ip:'' @ ip) (ec_IPPerMin ext) s)
         else if class = ''auth'' then allow (''rl:auth:ip:'' @ ip) (IPAuth cfg) s
         else if class = ''public'' then allow (''rl:pub:ip:'' @ ip) (IPPublic cfg) s
         else if perUser \<and> authed then
           (let limit = (if class = ''expensive'' then UserExpensive cfg
                         else if class = ''reroute'' then UserReroute cfg
                         else if class = ''tiles'' then UserTiles cfg
                         else UserAPI cfg)
            in allow (''rl:'' @ class @ '':user:'' @ claims_subject claims) limit s)
         else if perUser then allow (''rl:'' @ class @ '':ip:'' @ ip) (IPAPI cfg) s
         else ((False, None), s))"

definition rateLimit ::
  "swlib \<Rightarrow> (string \<Rightarrow> int \<Rightarrow> 's \<Rightarrow> (bool \<times> 'e option) \<times> 's) \<Rightarrow> RateLimitConfig \<Rightarrow> 's handler \<Rightarrow> 's handler" where
  "rateLimit lib allow cfg next r w s =
     (let ((allowed, err), s') = rate_check lib allow cfg r s
      in if err \<noteq> None \<or> \<not> allowed
         then (http_error (set_header w ''Retry-After'' ''60'') ''rate limit exceeded'' 429, s')
         else next r w s')"

section \<open>The target of a request: the key and the limit it is counted under\<close>

text \<open>The specification of the switch: a class, a scope (user or ip) and an identity.\<close>

definition rl_key :: "string \<Rightarrow> string \<Rightarrow> string \<Rightarrow> string" where
  "rl_key class scope ident = ''rl:'' @ class @ '':'' @ scope @ '':'' @ ident"

definition extension_class :: "RateLimitConfig \<Rightarrow> request \<Rightarrow> ExtensionClass option" where
  "extension_class cfg r =
     (case Extension cfg of None \<Rightarrow> None | Some f \<Rightarrow> (case f r of (ext, isExt) \<Rightarrow> if isExt then Some ext else None))"

definition signed_in :: "swlib \<Rightarrow> request \<Rightarrow> bool" where
  "signed_in lib r = snd (getClaims lib (r_ctx r))"

definition rate_scope :: "swlib \<Rightarrow> RateLimitConfig \<Rightarrow> request \<Rightarrow> string \<times> string" where
  "rate_scope lib cfg r =
     (let user = (''user'', claims_subject (fst (getClaims lib (r_ctx r))));
          ip = (''ip'', fst (getOrigIp lib (r_ctx r)))
      in case extension_class cfg r of
           Some ext \<Rightarrow> if signed_in lib r \<and> \<not> ec_PerIPOnly ext then user else ip
         | None \<Rightarrow> if snd (endpointClass (r_path r)) \<and> signed_in lib r then user else ip)"

definition rate_class :: "RateLimitConfig \<Rightarrow> request \<Rightarrow> string" where
  "rate_class cfg r =
     (case extension_class cfg r of
        Some ext \<Rightarrow> ''ext:'' @ ec_Name ext
      | None \<Rightarrow> (let c = fst (endpointClass (r_path r)) in if c = ''public'' then ''pub'' else c))"

definition rate_limit :: "swlib \<Rightarrow> RateLimitConfig \<Rightarrow> request \<Rightarrow> int" where
  "rate_limit lib cfg r =
     (let user = fst (rate_scope lib cfg r) = ''user''
      in case extension_class cfg r of
           Some ext \<Rightarrow> if user then ec_UserPerMin ext else ec_IPPerMin ext
         | None \<Rightarrow>
             (let c = fst (endpointClass (r_path r))
              in if c = ''auth'' then IPAuth cfg else if c = ''public'' then IPPublic cfg
                 else if \<not> user then IPAPI cfg
                 else if c = ''expensive'' then UserExpensive cfg else if c = ''reroute'' then UserReroute cfg
                 else if c = ''tiles'' then UserTiles cfg else UserAPI cfg))"

definition rate_key :: "swlib \<Rightarrow> RateLimitConfig \<Rightarrow> request \<Rightarrow> string" where
  "rate_key lib cfg r = rl_key (rate_class cfg r) (fst (rate_scope lib cfg r)) (snd (rate_scope lib cfg r))"

lemma endpointClass_range:
  "endpointClass path \<in> {(''auth'', False), (''public'', False), (''tiles'', True), (''reroute'', True),
     (''expensive'', True), (''api'', True)}"
  by (simp add: endpointClass_def)

lemma endpointClass_cases:
  obtains "endpointClass path = (''auth'', False)" | "endpointClass path = (''public'', False)"
    | "endpointClass path = (''tiles'', True)" | "endpointClass path = (''reroute'', True)"
    | "endpointClass path = (''expensive'', True)" | "endpointClass path = (''api'', True)"
  using endpointClass_range[of path] by auto

text \<open>The switch asks the limiter exactly once, with that key and limit: its default case,
  an unknown class, is never reached.\<close>

lemma rate_check_target:
  "rate_check lib allow cfg r s = allow (rate_key lib cfg r) (rate_limit lib cfg r) s"
proof -
  obtain claims authed where c: "getClaims lib (r_ctx r) = (claims, authed)" by fastforce
  show ?thesis
  proof (cases "extension_class cfg r")
    case (Some ext)
    then obtain f where "Extension cfg = Some f" "f r = (ext, True)"
      by (auto simp: extension_class_def split: option.splits prod.splits if_splits)
    with Some c show ?thesis
      by (simp add: rate_check_def rate_key_def rl_key_def rate_limit_def rate_class_def rate_scope_def
          signed_in_def Let_def split: prod.splits)
  next
    case None
    then have ext: "Extension cfg = None \<or> (\<exists>f e. Extension cfg = Some f \<and> f r = (e, False))"
      by (auto simp: extension_class_def split: option.splits prod.splits if_splits)
    show ?thesis
      using ext None c
      by (cases rule: endpointClass_cases[of "r_path r"])
         (auto simp: rate_check_def rate_key_def rl_key_def rate_limit_def rate_class_def rate_scope_def
           signed_in_def Let_def)
  qed
qed

section \<open>The middleware as a gate\<close>

definition rateLimit_decide ::
  "swlib \<Rightarrow> (string \<Rightarrow> int \<Rightarrow> 's \<Rightarrow> (bool \<times> 'e option) \<times> 's) \<Rightarrow> RateLimitConfig \<Rightarrow>
     request \<Rightarrow> response \<Rightarrow> 's \<Rightarrow> 's verdict" where
  "rateLimit_decide lib allow cfg r w s =
     (case allow (rate_key lib cfg r) (rate_limit lib cfg r) s of
        ((True, None), s') \<Rightarrow> Inr (r, w, s')
      | (_, s') \<Rightarrow> Inl (http_error (set_header w ''Retry-After'' ''60'') ''rate limit exceeded'' 429, s'))"

interpretation rate: gate "rateLimit lib allow cfg" "rateLimit_decide lib allow cfg"
  for lib and allow :: "string \<Rightarrow> int \<Rightarrow> 's \<Rightarrow> (bool \<times> 'e option) \<times> 's" and cfg
  by unfold_locales
    (auto simp: rateLimit_def rateLimit_decide_def rate_check_target Let_def
      split: prod.splits option.splits bool.splits)

lemma rate_key_nonempty [simp]: "rate_key lib cfg r \<noteq> ''''"
  by (simp add: rate_key_def rl_key_def)

context limiter_contract
begin

lemma gate_keeps_inv:
  assumes "inv s"
  shows "(case rateLimit_decide lib allow cfg r w s of
      Inl (_, s') \<Rightarrow> inv s' | Inr (_, _, s') \<Rightarrow> inv s')"
  using inv_allow[OF assms, of "rate_key lib cfg r" "rate_limit lib cfg r"]
  by (auto simp: rateLimit_decide_def split: prod.splits option.splits bool.splits)

end

section \<open>Budgets are separate\<close>

lemma builtin_class:
  assumes "extension_class cfg r = None"
  shows "rate_class cfg r \<in> {''auth'', ''pub'', ''tiles'', ''reroute'', ''expensive'', ''api''}"
  using assms by (cases rule: endpointClass_cases[of "r_path r"]) (simp_all add: rate_class_def)

lemma rate_scope_kind: "fst (rate_scope lib cfg r) \<in> {''user'', ''ip''}"
  by (simp add: rate_scope_def Let_def split: option.splits)

lemma rl_key_inj:
  assumes "CHR '':'' \<notin> set c" "CHR '':'' \<notin> set c'" "CHR '':'' \<notin> set k" "CHR '':'' \<notin> set k'"
    and "rl_key c k i = rl_key c' k' i'"
  shows "c = c' \<and> k = k' \<and> i = i'"
proof -
  have "c @ CHR '':'' # (k @ CHR '':'' # i) = c' @ CHR '':'' # (k' @ CHR '':'' # i')"
    using assms(5) by (simp add: rl_key_def)
  from append_sep_eq[OF assms(1,2) this] append_sep_eq[OF assms(3,4)] show ?thesis by blast
qed

lemma rl_key_class_head:
  assumes "CHR '':'' \<notin> set c" and "rl_key c k i = rl_key (''ext:'' @ n) k' i'"
  shows "c = ''ext''"
proof -
  have "c @ CHR '':'' # (k @ CHR '':'' # i) = ''ext'' @ CHR '':'' # (n @ CHR '':'' # k' @ CHR '':'' # i')"
    using assms(2) by (simp add: rl_key_def)
  from append_sep_eq[OF assms(1) _ this] show ?thesis by simp
qed

lemma builtin_class_colon_free:
  assumes "extension_class cfg r = None"
  shows "CHR '':'' \<notin> set (rate_class cfg r)" and "rate_class cfg r \<noteq> ''ext''"
  using builtin_class[OF assms] by (elim insertE emptyE, simp_all)+

lemma scope_colon_free: "CHR '':'' \<notin> set (fst (rate_scope lib cfg r))"
  using rate_scope_kind[of lib cfg r] by (elim insertE emptyE) simp_all

lemma same_target_limit:
  assumes "extension_class cfg r1 = None" "extension_class cfg r2 = None"
    and "rate_class cfg r1 = rate_class cfg r2" "rate_scope lib1 cfg r1 = rate_scope lib2 cfg r2"
  shows "rate_limit lib1 cfg r1 = rate_limit lib2 cfg r2"
  using assms
  by (cases rule: endpointClass_cases[of "r_path r1"]; cases rule: endpointClass_cases[of "r_path r2"])
     (simp_all add: rate_limit_def rate_class_def Let_def)

section \<open>Properties\<close>

text \<open>
  Every request is counted exactly once, whatever its path and token: the middleware
  asks the limiter once, under the key of its class, scope and identity and with that
  class's limit; the next handler runs, on the state the limiter left, only when the answer
  was allowed without an error, and any other answer is a 429 with \<open>Retry-After: 60\<close>.
\<close>

theorem rate_limit_checks_every_request:
  "rateLimit lib allow cfg next r w s =
     (case allow (rate_key lib cfg r) (rate_limit lib cfg r) s of
        ((True, None), s') \<Rightarrow> next r w s'
      | (_, s') \<Rightarrow> (http_error (set_header w ''Retry-After'' ''60'') ''rate limit exceeded'' 429, s'))"
  by (simp add: rate.mw_decide rateLimit_decide_def split: prod.splits option.splits bool.splits)

text \<open>
  A built-in budget is shared only by requests of the same class, scope and identity,
  hence of the same limit: equal keys mean equal budgets, and no extension route, whatever
  its name, can consume a built-in budget.
\<close>

theorem budgets_are_separate:
  assumes "rate_key lib cfg r1 = rate_key lib cfg r2" and "extension_class cfg r1 = None"
  shows "extension_class cfg r2 = None \<and> rate_class cfg r1 = rate_class cfg r2 \<and>
         rate_scope lib cfg r1 = rate_scope lib cfg r2 \<and> rate_limit lib cfg r1 = rate_limit lib cfg r2"
proof -
  note c1 = builtin_class_colon_free[OF assms(2)]
  have ext: "extension_class cfg r2 = None"
  proof (rule ccontr)
    assume "extension_class cfg r2 \<noteq> None"
    then obtain e where "extension_class cfg r2 = Some e" by blast
    then have "rate_class cfg r2 = ''ext:'' @ ec_Name e" by (simp add: rate_class_def)
    with assms(1) have "rl_key (rate_class cfg r1) (fst (rate_scope lib cfg r1)) (snd (rate_scope lib cfg r1)) =
        rl_key (''ext:'' @ ec_Name e) (fst (rate_scope lib cfg r2)) (snd (rate_scope lib cfg r2))"
      by (simp only: rate_key_def)
    from rl_key_class_head[OF c1(1) this] c1(2) show False by simp
  qed
  from rl_key_inj[OF c1(1) builtin_class_colon_free(1)[OF ext] scope_colon_free scope_colon_free
      assms(1)[unfolded rate_key_def]]
  have "rate_class cfg r1 = rate_class cfg r2" "rate_scope lib cfg r1 = rate_scope lib cfg r2"
    by (simp_all add: prod_eq_iff)
  with ext same_target_limit[OF assms(2) ext] show ?thesis by simp
qed

definition demo_request :: "string \<Rightarrow> request" where
  "demo_request path = \<lparr>r_method = ''POST'', r_path = path, r_raw_path = '''', r_header = [],
     r_remote_addr = ''192.0.2.7:4711'', r_tls = False,
     r_body = \<lparr>content = '''', max_bytes = None\<rparr>, r_ctx = [(OrigIpKey, VString ''192.0.2.7'')]\<rparr>"

definition demo_limits :: RateLimitConfig where
  "demo_limits = \<lparr>Extension = None, IPAuth = 10, IPPublic = 600, IPAPI = 60, UserAPI = 300,
     UserExpensive = 20, UserReroute = 12, UserTiles = 3000\<rparr>"

theorem budgets_are_separate_witness:
  "rate_limit plain_swlib demo_limits (demo_request ''/api/v1/auth/login'') =
   rate_limit plain_swlib demo_limits (demo_request ''/api/v1/auth/register'')"
proof -
  have "rate_key plain_swlib demo_limits (demo_request ''/api/v1/auth/login'') =
        rate_key plain_swlib demo_limits (demo_request ''/api/v1/auth/register'')"
    and "extension_class demo_limits (demo_request ''/api/v1/auth/login'') = None"
    by (simp_all add: rate_key_def rate_class_def rate_scope_def signed_in_def extension_class_def
        demo_limits_def demo_request_def endpointClass_def plain_swlib_def ctx_value_def
        stored_claims_def Let_def)
  from budgets_are_separate[OF this] show ?thesis by blast
qed

text \<open>
  Omitting the token never escapes the limiter: a request without claims is counted per
  client address, under the class of its path, and with the per-address limit.
\<close>

theorem unauthenticated_limited_per_ip:
  assumes "swlib_context lib" and "ctx_value (r_ctx r) ClaimsKey = None"
    and "ctx_value (r_ctx r) OrigIpKey = Some (VString ip)" and "extension_class cfg r = None"
  shows "rate_scope lib cfg r = (''ip'', ip) \<and>
     rate_key lib cfg r = rl_key (rate_class cfg r) ''ip'' ip \<and>
     rate_limit lib cfg r \<in> {IPAuth cfg, IPPublic cfg, IPAPI cfg}"
  using assms
  by (auto simp: rate_scope_def rate_key_def rate_limit_def signed_in_def swlib_contextD stored_claims_def
      stored_string_def Let_def)

theorem unauthenticated_limited_per_ip_witness:
  "rate_key plain_swlib demo_limits (demo_request ''/api/v1/route'') = ''rl:expensive:ip:192.0.2.7''"
proof -
  let ?r = "demo_request ''/api/v1/route''"
  have "ctx_value (r_ctx ?r) ClaimsKey = None" "ctx_value (r_ctx ?r) OrigIpKey = Some (VString ''192.0.2.7'')"
    "extension_class demo_limits ?r = None"
    by (simp_all add: demo_request_def ctx_value_def extension_class_def demo_limits_def)
  from unauthenticated_limited_per_ip[OF plain_swlib_context this] show ?thesis
    by (simp add: rl_key_def rate_class_def extension_class_def demo_limits_def demo_request_def
        endpointClass_def)
qed

end
