(* ===== verification/Go_Net.thy ===== *)
theory Go_Net
  imports Prelude_Go "HOL-Library.Word"
begin

text \<open>
  The functions of Go's package \<open>net\<close> that decide which peers are trusted proxies:
  \<open>SplitHostPort\<close>, \<open>ParseIP\<close>, \<open>ParseCIDR\<close>, \<open>IPNet.Contains\<close>, and \<open>strings.EqualFold\<close> against
  an ASCII text.  Addresses are byte lists, of length 4 or 16 as in Go.
\<close>

unbundle bit_operations_syntax

type_synonym byte = "8 word"
type_synonym ip = "byte list"

record ipnet =
  net_ip :: ip
  net_mask :: ip

section \<open>Addresses\<close>

definition digit :: "char \<Rightarrow> bool" where
  "digit c = (let n = of_char c :: nat in 48 \<le> n \<and> n \<le> 57)"

definition digit_val :: "char \<Rightarrow> nat" where
  "digit_val c = of_char c - 48"

definition decimal :: "string \<Rightarrow> nat" where
  "decimal s = foldl (\<lambda>v c. 10 * v + digit_val c) 0 s"

definition parse_octet :: "string \<Rightarrow> byte option" where
  "parse_octet s =
     (if s = [] \<or> \<not> list_all digit s \<or> (1 < length s \<and> hd s = CHR ''0'') \<or> 3 < length s \<or> 255 < decimal s
      then None else Some (of_nat (decimal s)))"

fun all_some :: "'a option list \<Rightarrow> 'a list option" where
  "all_some [] = Some []"
| "all_some (None # xs) = None"
| "all_some (Some x # xs) = map_option (Cons x) (all_some xs)"

definition parse_ipv4 :: "string \<Rightarrow> ip option" where
  "parse_ipv4 s =
     (let fields = split_on (CHR ''.'') s
      in if length fields = 4 then all_some (map parse_octet fields) else None)"

definition hex_digit :: "char \<Rightarrow> nat option" where
  "hex_digit c =
     (let n = of_char c :: nat
      in if 48 \<le> n \<and> n \<le> 57 then Some (n - 48)
         else if 97 \<le> n \<and> n \<le> 102 then Some (n - 87)
         else if 65 \<le> n \<and> n \<le> 70 then Some (n - 55) else None)"

definition hex_value :: "string \<Rightarrow> nat" where
  "hex_value s = foldl (\<lambda>v c. 16 * v + (case hex_digit c of Some d \<Rightarrow> d | None \<Rightarrow> 0)) 0 s"

text \<open>The loop over the groups of an IPv6 address; at most eight groups.\<close>

fun ipv6_groups :: "nat \<Rightarrow> ip \<Rightarrow> nat option \<Rightarrow> string \<Rightarrow> (ip \<times> nat option \<times> string) option" where
  "ipv6_groups 0 acc ell s = Some (acc, ell, s)"
| "ipv6_groups (Suc n) acc ell s =
     (let hex = takeWhile (\<lambda>c. hex_digit c \<noteq> None) s;
          rest = drop (length hex) s
      in if hex = [] \<or> 4 < length hex then None
         else if rest \<noteq> [] \<and> hd rest = CHR ''.'' then
           (if (ell = None \<and> length acc \<noteq> 12) \<or> 16 < length acc + 4 then None
            else map_option (\<lambda>b. (acc @ b, ell, [])) (parse_ipv4 s))
         else
           (let acc' = acc @ [of_nat (hex_value hex div 256), of_nat (hex_value hex mod 256)]
            in case rest of
                 [] \<Rightarrow> Some (acc', ell, [])
               | c # r \<Rightarrow>
                   if c \<noteq> CHR '':'' \<or> r = [] then None
                   else if hd r = CHR '':'' then
                     (if ell \<noteq> None then None
                      else if tl r = [] then Some (acc', Some (length acc'), [])
                      else ipv6_groups n acc' (Some (length acc')) (tl r))
                   else ipv6_groups n acc' ell r))"

definition parse_ipv6 :: "string \<Rightarrow> ip option" where
  "parse_ipv6 s =
     (let lead = has_prefix s ''::'';
          body = (if lead then drop 2 s else s)
      in if lead \<and> body = [] then Some (replicate 16 0)
         else
           (case ipv6_groups 8 [] (if lead then Some 0 else None) body of
              None \<Rightarrow> None
            | Some (acc, ell, rest) \<Rightarrow>
                if rest \<noteq> [] then None
                else if length acc < 16 then
                  (case ell of
                     None \<Rightarrow> None
                   | Some e \<Rightarrow> Some (take e acc @ replicate (16 - length acc) 0 @ drop e acc))
                else if ell \<noteq> None then None
                else Some acc))"

text \<open>\<open>netip.ParseAddr\<close> for addresses without a zone: the first separator decides the
  family.  An address with a zone is rejected by all its callers here.\<close>

datatype addr = AddrV4 ip | AddrV6 ip

definition parse_addr :: "string \<Rightarrow> addr option" where
  "parse_addr s =
     (case find (\<lambda>c. c = CHR ''.'' \<or> c = CHR '':'' \<or> c = CHR ''%'') s of
        None \<Rightarrow> None
      | Some c \<Rightarrow>
          if c = CHR ''.'' then map_option AddrV4 (parse_ipv4 s)
          else if c = CHR '':'' \<and> \<not> List.member s (CHR ''%'') then map_option AddrV6 (parse_ipv6 s)
          else None)"

definition v4_prefix :: ip where "v4_prefix = replicate 10 0 @ [255, 255]"

definition as16 :: "addr \<Rightarrow> ip" where
  "as16 a = (case a of AddrV4 b \<Rightarrow> v4_prefix @ b | AddrV6 b \<Rightarrow> b)"

definition ParseIP :: "string \<Rightarrow> ip option" where
  "ParseIP s = map_option as16 (parse_addr s)"

definition To4 :: "ip \<Rightarrow> ip option" where
  "To4 b = (if length b = 4 then Some b
            else if length b = 16 \<and> take 12 b = v4_prefix then Some (drop 12 b) else None)"

section \<open>Networks\<close>

definition mask_bytes :: "ip \<Rightarrow> ip \<Rightarrow> ip" where
  "mask_bytes b m = map2 (AND) b m"

definition cidr_mask :: "nat \<Rightarrow> nat \<Rightarrow> ip" where
  "cidr_mask ones bits =
     map (\<lambda>i. if 8 * (i + 1) \<le> ones then 255
              else if ones \<le> 8 * i then 0
              else 255 - (2 ^ (8 * (i + 1) - ones) - 1)) [0..<bits div 8]"

definition ip_mask :: "ip \<Rightarrow> ip \<Rightarrow> ip option" where
  "ip_mask b m =
     (let b' = (if length m = 4 \<and> length b = 16 \<and> take 12 b = v4_prefix then drop 12 b else b)
      in if length b' = length m then Some (mask_bytes b' m) else None)"

definition ParseCIDR :: "string \<Rightarrow> ipnet option" where
  "ParseCIDR s =
     (case cut_byte (CHR ''/'') s of
        (_, None) \<Rightarrow> None
      | (host, Some len) \<Rightarrow>
          (case parse_addr host of
             None \<Rightarrow> None
           | Some a \<Rightarrow>
               (let bits = (case a of AddrV4 _ \<Rightarrow> 32 | AddrV6 _ \<Rightarrow> 128)
                in if len = [] \<or> \<not> list_all digit len \<or> bits < decimal len then None
                   else map_option (\<lambda>b. \<lparr>net_ip = b, net_mask = cidr_mask (decimal len) bits\<rparr>)
                          (ip_mask (as16 a) (cidr_mask (decimal len) bits)))))"

definition network_number_and_mask :: "ipnet \<Rightarrow> (ip \<times> ip) option" where
  "network_number_and_mask n =
     (let m = net_mask n
      in case To4 (net_ip n) of
           Some b \<Rightarrow> if length m = 4 then Some (b, m) else if length m = 16 then Some (b, drop 12 m) else None
         | None \<Rightarrow> if length (net_ip n) = 16 \<and> length m = 16 then Some (net_ip n, m) else None)"

definition Contains :: "ipnet \<Rightarrow> ip \<Rightarrow> bool" where
  "Contains n b =
     (let b' = (case To4 b of Some x \<Rightarrow> x | None \<Rightarrow> b)
      in case network_number_and_mask n of
           None \<Rightarrow> b' = []
         | Some (nn, m) \<Rightarrow> length b' = length nn \<and> mask_bytes nn m = mask_bytes b' m)"

section \<open>Host and port\<close>

text \<open>\<open>SplitHostPort\<close>: the host, or \<open>None\<close> for an error.\<close>

definition last_colon :: "string \<Rightarrow> nat option" where
  "last_colon s = (if List.member s (CHR '':'') then Some (length s - Suc (length (takeWhile (\<lambda>c. c \<noteq> CHR '':'') (rev s)))) else None)"

definition split_host :: "string \<Rightarrow> string option" where
  "split_host s =
     (case last_colon s of
        None \<Rightarrow> None
      | Some i \<Rightarrow>
          if hd s = CHR ''['' then
            (let inner = takeWhile (\<lambda>c. c \<noteq> CHR '']'') s; end = length inner
             in if end = length s \<or> end + 1 \<noteq> i \<or> List.member (drop 1 s) (CHR ''['') \<or>
                   List.member (drop (end + 1) s) (CHR '']'')
                then None else Some (drop 1 inner))
          else
            (let host = take i s
             in if List.member host (CHR '':'') \<or> List.member s (CHR ''['') \<or> List.member s (CHR '']'')
                then None else Some host))"

section \<open>EqualFold against an ASCII text\<close>

text \<open>Besides the two cases of each ASCII letter, the only code points that fold to ASCII
  are U+017F (to s) and U+212A (to k).\<close>

fun fold_str :: "string \<Rightarrow> string" where
  "fold_str [] = []"
| "fold_str (c # cs) =
     (case cs of
        d # ds \<Rightarrow>
          if c = CHR 0xC5 \<and> d = CHR 0xBF then CHR ''s'' # fold_str ds
          else (case ds of
                  e # es \<Rightarrow> if c = CHR 0xE2 \<and> d = CHR 0x84 \<and> e = CHR 0xAA then CHR ''k'' # fold_str es
                            else lower_char c # fold_str cs
                | [] \<Rightarrow> lower_char c # fold_str cs)
      | [] \<Rightarrow> [lower_char c])"

definition equal_fold :: "string \<Rightarrow> string \<Rightarrow> bool" where
  "equal_fold s t = (fold_str s = fold_str t)"

end
