(* ===== verification/Auth_Middleware.thy ===== *)
theory Auth_Middleware
  imports Http_Model Go_Net
begin

text \<open>
  \<open>internal/middleware/auth.go\<close>: the token of a request, the address and scheme the
  gateway believes, and the guards that refuse anonymous, unverified and ordinary users.
  \<open>verify\<close> is the key cache's \<open>Verify\<close> (\<open>swlib/jwtkeys\<close>): the claims, or \<open>None\<close> for an
  error.
\<close>

section \<open>Peers and clients\<close>

definition peerIP :: "request \<Rightarrow> string" where
  "peerIP r = (case split_host (r_remote_addr r) of Some host \<Rightarrow> host | None \<Rightarrow> r_remote_addr r)"

definition isTrustedProxy :: "string \<Rightarrow> ipnet list \<Rightarrow> bool" where
  "isTrustedProxy ip trusted =
     (case ParseIP ip of
        None \<Rightarrow> False
      | Some parsed \<Rightarrow> list_ex (\<lambda>n. Contains n parsed) trusted)"

text \<open>The loop of \<open>clientIP\<close> over the entries, from the last one to the first.\<close>

fun last_untrusted :: "ipnet list \<Rightarrow> string \<Rightarrow> string list \<Rightarrow> string" where
  "last_untrusted trusted peer [] = peer"
| "last_untrusted trusted peer (e # before) =
     (let ip = trim_space e
      in if ip = '''' \<or> isTrustedProxy ip trusted then last_untrusted trusted peer before
         else ip)"

definition clientIP :: "request \<Rightarrow> string \<Rightarrow> ipnet list \<Rightarrow> string" where
  "clientIP r peer trusted =
     (if \<not> isTrustedProxy peer trusted then peer
      else
        (let xff = h_get (r_header r) ''X-Forwarded-For''
         in if xff = '''' then peer
            else last_untrusted trusted peer (rev (split_on (CHR '','') xff))))"

section \<open>The middleware\<close>

definition auth_token :: "swlib \<Rightarrow> request \<Rightarrow> string" where
  "auth_token lib r =
     (let auth = h_get (r_header r) ''Authorization''
      in if has_prefix auth ''Bearer '' then trim_prefix auth ''Bearer ''
         else (case request_cookie r (fullCookieName lib ''access_token'') of
                 Some cookie \<Rightarrow> (case decodeValue lib cookie of Some b \<Rightarrow> b | None \<Rightarrow> '''')
               | None \<Rightarrow> ''''))"

definition auth_ctx :: "swlib \<Rightarrow> (string \<Rightarrow> claims option) \<Rightarrow> ipnet list \<Rightarrow> request \<Rightarrow> ctx" where
  "auth_ctx lib verify trusted r =
     (let ctx = r_ctx r;
          token = auth_token lib r;
          ctx = (if token \<noteq> '''' then
                   (case verify token of
                      Some claims \<Rightarrow> with_value (with_value ctx ClaimsKey (VClaims claims)) JwtKey (VString token)
                    | None \<Rightarrow> ctx)
                 else ctx);
          ctx = (case request_cookie r (fullCookieName lib ''refresh_token'') of
                   Some cookie \<Rightarrow> (case decodeValue lib cookie of
                                       Some b \<Rightarrow> with_value ctx RefreshKey (VString b)
                                     | None \<Rightarrow> ctx)
                 | None \<Rightarrow> ctx);
          peer = peerIP r;
          ctx = with_value ctx OrigIpKey (VString (clientIP r peer trusted));
          secure = (r_tls r \<or> isTrustedProxy peer trusted \<and>
                    equal_fold (h_get (r_header r) ''X-Forwarded-Proto'') ''https'')
      in with_value ctx SecureKey (VBool secure))"

definition Auth :: "swlib \<Rightarrow> (string \<Rightarrow> claims option) \<Rightarrow> ipnet list \<Rightarrow> 's handler \<Rightarrow> 's handler" where
  "Auth lib verify trusted next r w s = next (with_context r (auth_ctx lib verify trusted r)) w s"

definition RequireUser :: "swlib \<Rightarrow> 's handler \<Rightarrow> 's handler" where
  "RequireUser lib next r w s =
     (let (_, ok) = getClaims lib (r_ctx r)
      in if \<not> ok then (http_error w ''unauthorized'' 401, s) else next r w s)"

definition RequireVerifiedUser :: "swlib \<Rightarrow> 's handler \<Rightarrow> 's handler" where
  "RequireVerifiedUser lib next r w s =
     (case getClaims lib (r_ctx r) of
        (Some claims, True) \<Rightarrow>
          (if email_verified claims \<noteq> Some True
           then (http_error w ''forbidden: email not verified'' 403, s)
           else next r w s)
      | _ \<Rightarrow> (http_error w ''unauthorized'' 401, s))"

definition RequireAdmin :: "swlib \<Rightarrow> 's handler \<Rightarrow> 's handler" where
  "RequireAdmin lib next r w s =
     (case getClaims lib (r_ctx r) of
        (Some claims, True) \<Rightarrow>
          (case sw_claims claims of
             Some u \<Rightarrow> if is_admin u then next r w s else (http_error w ''forbidden'' 403, s)
           | None \<Rightarrow> (http_error w ''forbidden'' 403, s))
      | _ \<Rightarrow> (http_error w ''unauthorized'' 401, s))"

section \<open>The guards as gates\<close>

text \<open>The verdicts: what a guard requires of the claims, and the refusals.\<close>

definition verified_email :: "claims \<Rightarrow> bool" where
  "verified_email c \<longleftrightarrow> email_verified c = Some True"

definition admin_claims :: "claims \<Rightarrow> bool" where
  "admin_claims c \<longleftrightarrow> (case sw_claims c of Some u \<Rightarrow> is_admin u | None \<Rightarrow> False)"

definition guard_decide ::
  "swlib \<Rightarrow> (claims \<Rightarrow> bool) \<Rightarrow> string \<Rightarrow> request \<Rightarrow> response \<Rightarrow> 's \<Rightarrow> 's verdict" where
  "guard_decide lib ok refusal r w s =
     (case getClaims lib (r_ctx r) of
        (Some c, True) \<Rightarrow> if ok c then Inr (r, w, s) else Inl (http_error w refusal 403, s)
      | _ \<Rightarrow> Inl (http_error w ''unauthorized'' 401, s))"

definition user_decide :: "swlib \<Rightarrow> request \<Rightarrow> response \<Rightarrow> 's \<Rightarrow> 's verdict" where
  "user_decide lib r w s =
     (if snd (getClaims lib (r_ctx r)) then Inr (r, w, s) else Inl (http_error w ''unauthorized'' 401, s))"

definition auth_decide ::
  "swlib \<Rightarrow> (string \<Rightarrow> claims option) \<Rightarrow> ipnet list \<Rightarrow> request \<Rightarrow> response \<Rightarrow> 's \<Rightarrow> 's verdict" where
  "auth_decide lib verify trusted r w s = Inr (with_context r (auth_ctx lib verify trusted r), w, s)"

interpretation auth: gate "Auth lib verify trusted" "auth_decide lib verify trusted"
  for lib verify trusted
  by unfold_locales (simp add: Auth_def auth_decide_def)

interpretation user: gate "RequireUser lib" "user_decide lib" for lib
  by unfold_locales (simp add: RequireUser_def user_decide_def split: prod.splits)

interpretation verified: gate "RequireVerifiedUser lib"
    "guard_decide lib verified_email ''forbidden: email not verified''" for lib
  by unfold_locales
    (auto simp: RequireVerifiedUser_def guard_decide_def verified_email_def
      split: prod.splits option.splits bool.splits)

interpretation admin: gate "RequireAdmin lib" "guard_decide lib admin_claims ''forbidden''" for lib
  by unfold_locales
    (auto simp: RequireAdmin_def guard_decide_def admin_claims_def
      split: prod.splits option.splits bool.splits)

text \<open>The guards run downstream of \<open>Auth\<close>; the chains are gates again.\<close>

interpretation auth_user: two_gates "Auth lib verify trusted" "auth_decide lib verify trusted"
    "RequireUser lib" "user_decide lib" for lib verify trusted ..

interpretation auth_verified: two_gates "Auth lib verify trusted" "auth_decide lib verify trusted"
    "RequireVerifiedUser lib" "guard_decide lib verified_email ''forbidden: email not verified''"
  for lib verify trusted ..

interpretation auth_admin: two_gates "Auth lib verify trusted" "auth_decide lib verify trusted"
    "RequireAdmin lib" "guard_decide lib admin_claims ''forbidden''" for lib verify trusted ..

section \<open>What the context holds after Auth\<close>

text \<open>The claims a request proves: those of its token, when the key cache accepts it.\<close>

definition proved_claims :: "swlib \<Rightarrow> (string \<Rightarrow> claims option) \<Rightarrow> request \<Rightarrow> claims option" where
  "proved_claims lib verify r =
     (if auth_token lib r = '''' then None else verify (auth_token lib r))"

lemma auth_ctx_claims:
  "ctx_value (auth_ctx lib verify trusted r) ClaimsKey =
     (case proved_claims lib verify r of Some c \<Rightarrow> Some (VClaims c) | None \<Rightarrow> ctx_value (r_ctx r) ClaimsKey)"
  by (simp add: auth_ctx_def proved_claims_def Let_def go_map split: option.splits)

lemma auth_ctx_jwt:
  "ctx_value (auth_ctx lib verify trusted r) JwtKey =
     (case proved_claims lib verify r of
        Some c \<Rightarrow> Some (VString (auth_token lib r)) | None \<Rightarrow> ctx_value (r_ctx r) JwtKey)"
  by (simp add: auth_ctx_def proved_claims_def Let_def go_map split: option.splits)

lemma auth_ctx_ip:
  "ctx_value (auth_ctx lib verify trusted r) OrigIpKey =
     Some (VString (clientIP r (peerIP r) trusted))"
  by (simp add: auth_ctx_def Let_def go_map)

lemma auth_ctx_secure:
  "ctx_value (auth_ctx lib verify trusted r) SecureKey =
     Some (VBool (r_tls r \<or> isTrustedProxy (peerIP r) trusted \<and>
        equal_fold (h_get (r_header r) ''X-Forwarded-Proto'') ''https''))"
  by (simp add: auth_ctx_def Let_def go_map)

lemmas auth_ctx_values = auth_ctx_claims auth_ctx_jwt auth_ctx_ip auth_ctx_secure

lemma ctx_with_context [simp]: "r_ctx (with_context r c) = c"
  by (simp add: with_context_def)

lemma claims_after_auth:
  assumes "swlib_context lib" and "ctx_value (r_ctx r) ClaimsKey = None"
  shows "getClaims lib (auth_ctx lib verify trusted r) =
    (proved_claims lib verify r, proved_claims lib verify r \<noteq> None)"
  using assms by (simp add: swlib_contextD auth_ctx_claims stored_claims_def split: option.splits)

section \<open>Lists of forwarded entries\<close>

definition skipped_entry :: "ipnet list \<Rightarrow> string \<Rightarrow> bool" where
  "skipped_entry trusted e \<longleftrightarrow> trim_space e = '''' \<or> isTrustedProxy (trim_space e) trusted"

lemma last_untrusted_append:
  "last_untrusted trusted peer (xs @ ys) =
     (if list_all (skipped_entry trusted) xs then last_untrusted trusted peer ys
      else last_untrusted trusted peer xs)"
  by (induction xs) (auto simp: skipped_entry_def Let_def)

lemma last_untrusted_rightmost:
  assumes "list_all (skipped_entry trusted) post" and "\<not> skipped_entry trusted e"
  shows "last_untrusted trusted peer (rev (pre @ e # post)) = trim_space e"
  using assms by (simp add: last_untrusted_append) (simp add: skipped_entry_def Let_def)

lemma last_untrusted_all_skipped:
  "list_all (skipped_entry trusted) es \<Longrightarrow> last_untrusted trusted peer es = peer"
  by (induction es) (auto simp: skipped_entry_def Let_def)

section \<open>Concrete inputs\<close>

definition demo_peer :: "string \<Rightarrow> header \<Rightarrow> request" where
  "demo_peer addr h = \<lparr>r_method = ''GET'', r_path = ''/api/v1/region/list'', r_raw_path = '''', r_header = h,
     r_remote_addr = addr, r_tls = False,
     r_body = \<lparr>content = '''', max_bytes = None\<rparr>, r_ctx = []\<rparr>"

definition demo_trusted :: "ipnet list" where
  "demo_trusted = List.map_filter ParseCIDR [''10.0.0.0/8'']"

definition demo_xff :: string where
  "demo_xff = ''6.6.6.6, 203.0.113.9, 10.1.2.3''"

definition demo_proxied :: request where
  "demo_proxied = demo_peer ''10.0.0.2:5000'' [(''X-Forwarded-For'', [demo_xff])]"

definition demo_verify :: "string \<Rightarrow> claims option" where
  "demo_verify t = (if t = ''good'' then Some \<lparr>subject = ''u1'', email = None, email_verified = Some True,
     sw_claims = Some \<lparr>account_level = ''free'', is_admin = False\<rparr>\<rparr> else None)"

lemma demo_peers:
  "isTrustedProxy ''10.0.0.2'' demo_trusted" "\<not> isTrustedProxy ''203.0.113.9'' demo_trusted"
  "peerIP demo_proxied = ''10.0.0.2''" "peerIP (demo_peer ''203.0.113.9:4000'' []) = ''203.0.113.9''"
  by code_simp+

lemma demo_entries:
  "list_all (skipped_entry demo_trusted) ['' 10.1.2.3'']" "\<not> skipped_entry demo_trusted '' 203.0.113.9''"
  "split_on (CHR '','') demo_xff = [''6.6.6.6''] @ '' 203.0.113.9'' # ['' 10.1.2.3'']"
  "trim_space '' 203.0.113.9'' = ''203.0.113.9''"
  by code_simp+

lemma demo_xff_header: "h_get (r_header demo_proxied) ''X-Forwarded-For'' = demo_xff"
  by code_simp

section \<open>Properties\<close>

text \<open>
  (C13) A peer outside the trusted networks is believed in nothing it writes: whatever
  headers it sends, the client address is the peer's own and the connection counts as
  secure only when it is TLS, so neither a rate-limit identity nor a cookie without the
  Secure flag can be forged.
\<close>

theorem untrusted_peer_is_not_believed:
  assumes "\<not> isTrustedProxy (peerIP r) trusted"
  shows "ctx_value (auth_ctx lib verify trusted (r\<lparr>r_header := h\<rparr>)) OrigIpKey = Some (VString (peerIP r)) \<and>
         ctx_value (auth_ctx lib verify trusted (r\<lparr>r_header := h\<rparr>)) SecureKey = Some (VBool (r_tls r))"
proof -
  have "peerIP (r\<lparr>r_header := h\<rparr>) = peerIP r" by (simp add: peerIP_def split: option.split)
  with assms show ?thesis by (simp add: auth_ctx_values clientIP_def)
qed

theorem untrusted_peer_is_not_believed_witness:
  "ctx_value (auth_ctx plain_swlib demo_verify demo_trusted
     ((demo_peer ''203.0.113.9:4000'' [])\<lparr>r_header := [(''X-Forwarded-For'', [''6.6.6.6''])]\<rparr>)) OrigIpKey =
   Some (VString ''203.0.113.9'')"
  using untrusted_peer_is_not_believed[of "demo_peer ''203.0.113.9:4000'' []" demo_trusted] demo_peers
  by metis

text \<open>
  (C14) Behind a trusted proxy the client is the rightmost forwarded entry that is not a
  trusted proxy itself: entries after it are proxies or blank, and nothing an attacker puts
  before it, however many entries, changes the result.
\<close>

theorem client_is_rightmost_untrusted:
  assumes "isTrustedProxy peer trusted"
    and "h_get (r_header r) ''X-Forwarded-For'' \<noteq> ''''"
    and "split_on (CHR '','') (h_get (r_header r) ''X-Forwarded-For'') = forged @ client # proxies"
    and "list_all (skipped_entry trusted) proxies" and "\<not> skipped_entry trusted client"
  shows "clientIP r peer trusted = trim_space client"
  using assms by (simp add: clientIP_def last_untrusted_rightmost del: rev_append)

theorem client_is_rightmost_untrusted_witness:
  "clientIP demo_proxied ''10.0.0.2'' demo_trusted = ''203.0.113.9''"
proof -
  have "demo_xff \<noteq> ''''" by (simp add: demo_xff_def)
  with client_is_rightmost_untrusted[of "''10.0.0.2''" demo_trusted demo_proxied] demo_peers(1) demo_entries
    demo_xff_header show ?thesis by metis
qed

text \<open>
  Appending is enough: when a trusted proxy appends a list of entries that names an
  untrusted client to a header of any content, the client address is the one of the
  appended list alone.
\<close>

theorem forged_prefix_is_ignored:
  assumes "isTrustedProxy peer trusted"
    and "h_get (r_header r) ''X-Forwarded-For'' = forged @ CHR '','' # appended"
    and "h_get (r_header r') ''X-Forwarded-For'' = appended"
    and "\<not> list_all (skipped_entry trusted) (split_on (CHR '','') appended)"
  shows "clientIP r peer trusted = clientIP r' peer trusted"
proof -
  have "appended \<noteq> ''''"
    using assms(4) by (auto simp: skipped_entry_def trim_space_def trim_left_seqs.simps)
  with assms show ?thesis
    by (simp add: clientIP_def split_on_append last_untrusted_append list_all_rev)
qed

theorem forged_prefix_is_ignored_witness:
  "clientIP (demo_peer ''10.0.0.2:1'' [(''X-Forwarded-For'', [''evil,'' @ demo_xff])]) ''10.0.0.2'' demo_trusted =
   clientIP demo_proxied ''10.0.0.2'' demo_trusted"
proof -
  have "h_get (r_header (demo_peer ''10.0.0.2:1'' [(''X-Forwarded-For'', [''evil,'' @ demo_xff])]))
      ''X-Forwarded-For'' = ''evil'' @ CHR '','' # demo_xff" by code_simp
  moreover have "\<not> list_all (skipped_entry demo_trusted) (split_on (CHR '','') demo_xff)"
    by (simp add: demo_entries)
  ultimately show ?thesis
    using forged_prefix_is_ignored demo_peers(1) demo_xff_header by blast
qed

text \<open>
  Claims reach the handlers from a verified token only: on a request whose context
  starts without claims, the handlers see claims exactly when the request's token is not
  empty and the key cache accepts that very token, the claims are the ones the cache
  returned, and the stored raw token is that token.
\<close>

theorem claims_are_verified:
  assumes "swlib_context lib" and "ctx_value (r_ctx r) ClaimsKey = None"
    and "ctx_value (r_ctx r) JwtKey = None"
  shows "(getClaims lib (auth_ctx lib verify trusted r) = (Some c, True) \<longleftrightarrow>
            auth_token lib r \<noteq> '''' \<and> verify (auth_token lib r) = Some c) \<and>
         (getJwt lib (auth_ctx lib verify trusted r) = (t, True) \<longleftrightarrow>
            auth_token lib r = t \<and> t \<noteq> '''' \<and> verify t \<noteq> None)"
  using assms
  by (auto simp: swlib_contextD auth_ctx_jwt auth_ctx_claims stored_claims_def stored_string_def
      proved_claims_def split: if_splits option.splits)

theorem claims_are_verified_witness:
  "getJwt plain_swlib (auth_ctx plain_swlib demo_verify demo_trusted
     (demo_peer ''203.0.113.9:4000'' [(''Authorization'', [''Bearer good''])])) = (''good'', True)"
proof -
  let ?r = "demo_peer ''203.0.113.9:4000'' [(''Authorization'', [''Bearer good''])]"
  have "ctx_value (r_ctx ?r) ClaimsKey = None" "ctx_value (r_ctx ?r) JwtKey = None"
    "auth_token plain_swlib ?r = ''good''" "demo_verify ''good'' \<noteq> None"
    by code_simp+
  note f = this
  show ?thesis
    using claims_are_verified[OF plain_swlib_context f(1,2), THEN conjunct2, of demo_verify demo_trusted "''good''"]
      f(3,4) by simp
qed

text \<open>
  (C15) A protected handler runs only for a request that proves claims its guard accepts;
  every other request is answered 401 (no valid claims) or 403 (claims that do not do),
  with the state of the gateway untouched and whatever the handler is.
\<close>

theorem guards_protect:
  assumes "swlib_context lib" and "ctx_value (r_ctx r) ClaimsKey = None"
  shows "(Auth lib verify trusted (RequireVerifiedUser lib next) r w s =
           (case proved_claims lib verify r of
              None \<Rightarrow> (http_error w ''unauthorized'' 401, s)
            | Some c \<Rightarrow>
                if verified_email c then next (with_context r (auth_ctx lib verify trusted r)) w s
                else (http_error w ''forbidden: email not verified'' 403, s))) \<and>
         (Auth lib verify trusted (RequireAdmin lib next) r w s =
           (case proved_claims lib verify r of
              None \<Rightarrow> (http_error w ''unauthorized'' 401, s)
            | Some c \<Rightarrow>
                if admin_claims c then next (with_context r (auth_ctx lib verify trusted r)) w s
                else (http_error w ''forbidden'' 403, s))) \<and>
         (Auth lib verify trusted (RequireUser lib next) r w s =
           (if proved_claims lib verify r = None then (http_error w ''unauthorized'' 401, s)
            else next (with_context r (auth_ctx lib verify trusted r)) w s))"
  using assms
  by (simp add: auth_verified.chain.mw_decide auth_admin.chain.mw_decide auth_user.chain.mw_decide
      decide_then_def auth_decide_def guard_decide_def user_decide_def claims_after_auth
      split: option.split)

theorem guards_protect_witness:
  "fst (Auth plain_swlib demo_verify demo_trusted (RequireAdmin plain_swlib (\<lambda>r w s. (w, ())))
     (demo_peer ''203.0.113.9:4000'' [(''Authorization'', [''Bearer good''])]) fresh_response ()) =
   http_error fresh_response ''forbidden'' 403"
proof -
  let ?r = "demo_peer ''203.0.113.9:4000'' [(''Authorization'', [''Bearer good''])]"
  have "ctx_value (r_ctx ?r) ClaimsKey = None" by (simp add: demo_peer_def ctx_value_def)
  note g = guards_protect[OF plain_swlib_context this, THEN conjunct2, THEN conjunct1]
  have "case proved_claims plain_swlib demo_verify ?r of Some c \<Rightarrow> \<not> admin_claims c | None \<Rightarrow> False"
    by code_simp
  then show ?thesis by (simp add: g split: option.splits)
qed

end
