(* ===== verification/Body_Log_Middleware.thy ===== *)
theory Body_Log_Middleware
  imports Http_Model
begin

text \<open>
  \<open>internal/middleware/bodylimit.go\<close> and \<open>logging.go\<close>: the bound put on a request's body
  before any handler reads it, and the access log around a handler.
\<close>

section \<open>Body limits\<close>

definition BodyLimitWith :: "int \<Rightarrow> (request \<Rightarrow> int \<times> bool) option \<Rightarrow> 's handler \<Rightarrow> 's handler" where
  "BodyLimitWith maxBytes override next r w s =
     (let limit = (case override of
                     Some f \<Rightarrow> (case f r of (l, ok) \<Rightarrow> if ok then l else maxBytes)
                   | None \<Rightarrow> maxBytes);
          r' = (if 0 < limit then r\<lparr>r_body := max_bytes_reader (r_body r) limit\<rparr> else r)
      in next r' w s)"

definition BodyLimit :: "int \<Rightarrow> 's handler \<Rightarrow> 's handler" where
  "BodyLimit maxBytes = BodyLimitWith maxBytes None"

definition body_bound :: "int \<Rightarrow> (request \<Rightarrow> int \<times> bool) option \<Rightarrow> request \<Rightarrow> int" where
  "body_bound maxBytes override r =
     (case override of Some f \<Rightarrow> if snd (f r) then fst (f r) else maxBytes | None \<Rightarrow> maxBytes)"

definition body_limit_decide ::
  "int \<Rightarrow> (request \<Rightarrow> int \<times> bool) option \<Rightarrow> request \<Rightarrow> response \<Rightarrow> 's \<Rightarrow> 's verdict" where
  "body_limit_decide maxBytes override r w s =
     Inr (if 0 < body_bound maxBytes override r
          then r\<lparr>r_body := max_bytes_reader (r_body r) (body_bound maxBytes override r)\<rparr> else r, w, s)"

interpretation body_limit: gate "BodyLimitWith maxBytes override" "body_limit_decide maxBytes override"
  for maxBytes override
  by unfold_locales
    (auto simp: BodyLimitWith_def body_limit_decide_def body_bound_def Let_def
      split: option.splits prod.splits)

lemma read_all_bounded:
  "read_all (max_bytes_reader b n) = Some d \<Longrightarrow> int (length d) \<le> n \<and> d = content b"
  by (auto simp: read_all_def max_bytes_reader_def split: option.splits if_splits)

lemma read_all_in_bounds:
  "max_bytes b = None \<Longrightarrow> int (length (content b)) \<le> n \<Longrightarrow>
   read_all (max_bytes_reader b n) = Some (content b)"
  by (simp add: read_all_def max_bytes_reader_def)

section \<open>The access log\<close>

record log_line =
  ll_method :: string
  ll_path :: string
  ll_status :: int
  ll_ip :: string
  ll_user :: string

text \<open>
  \<open>statusRecorder\<close>: the last status its \<open>WriteHeader\<close> was called with, 200 before any call
  (a \<open>Write\<close> goes past it).  The duration, a measurement, is left out of the line.
\<close>

definition recorded_status :: "response \<Rightarrow> response \<Rightarrow> int" where
  "recorded_status before after =
     (let codes = drop (length (passed before)) (passed after)
      in if codes = [] then 200 else last codes)"

definition Logging :: "swlib \<Rightarrow> 's handler \<Rightarrow> ('s \<times> log_line list) handler" where
  "Logging lib next r w = (\<lambda>(s, logged).
     (let (w', s') = next r w s;
          userID = (case getClaims lib (r_ctx r) of
                      (Some claims, True) \<Rightarrow> subject claims
                    | _ \<Rightarrow> ''-'');
          ip = fst (getOrigIp lib (r_ctx r));
          line = \<lparr>ll_method = r_method r, ll_path = r_path r, ll_status = recorded_status w w',
                  ll_ip = ip, ll_user = userID\<rparr>
      in (w', s', logged @ [line])))"

lemma Logging_transparent:
  "fst (Logging lib next r w (s, logged)) = fst (next r w s)"
  "fst (snd (Logging lib next r w (s, logged))) = snd (next r w s)"
  by (simp_all add: Logging_def Let_def split: prod.split)

section \<open>Properties\<close>

text \<open>
  No handler ever gets more body than the bound of its request, the route's own where
  it has one and the gateway's otherwise: reading it all either fails or yields the client's
  bytes, of at most that number, and a body within the bound arrives complete.
\<close>

theorem body_is_bounded:
  assumes "body_limit_decide maxBytes override r w s = Inr (r', w', s')"
    and "0 < body_bound maxBytes override r" and "max_bytes (r_body r) = None"
  shows "read_all (r_body r') =
           (if int (length (content (r_body r))) \<le> body_bound maxBytes override r
            then Some (content (r_body r)) else None)"
  using assms by (auto simp: body_limit_decide_def read_all_def max_bytes_reader_def)

definition demo_upload :: request where
  "demo_upload = \<lparr>r_method = ''POST'', r_path = ''/api/v1/photos/'', r_raw_path = '''', r_header = [],
     r_remote_addr = ''192.0.2.7:4711'', r_tls = False,
     r_body = \<lparr>content = ''12345678'', max_bytes = None\<rparr>, r_ctx = []\<rparr>"

theorem body_is_bounded_witness:
  "BodyLimitWith 4 (Some (\<lambda>r. (8, r_path r = ''/api/v1/photos/''))) (\<lambda>r w s. (w, read_all (r_body r)))
     demo_upload fresh_response None = (fresh_response, Some ''12345678'') \<and>
   BodyLimit 4 (\<lambda>r w s. (w, read_all (r_body r))) demo_upload fresh_response None = (fresh_response, None)"
proof -
  let ?ov = "Some (\<lambda>r. (8, r_path r = ''/api/v1/photos/''))"
  have b: "body_bound 4 ?ov demo_upload = 8" "body_bound 4 None demo_upload = 4"
    "max_bytes (r_body demo_upload) = None" "content (r_body demo_upload) = ''12345678''"
    by (simp_all add: body_bound_def demo_upload_def)
  obtain r1 where d1: "body_limit_decide 4 ?ov demo_upload fresh_response (None :: string option) =
      Inr (r1, fresh_response, None)" by (simp add: body_limit_decide_def)
  obtain r2 where d2: "body_limit_decide 4 None demo_upload fresh_response (None :: string option) =
      Inr (r2, fresh_response, None)" by (simp add: body_limit_decide_def)
  show ?thesis
    using body_is_bounded[OF d1] body_is_bounded[OF d2] b
    by (simp add: BodyLimit_def body_limit.forwarded[OF d1] body_limit.forwarded[OF d2])
qed

end
