(* ===== verification/Circuit_Breaker.thy ===== *)
theory Circuit_Breaker
  imports Prelude_Go "HOL-Library.Word"
begin

text \<open>
  \<open>internal/circuitbreaker/registry.go\<close>: one breaker per service, the condition that opens
  it, and \<open>Execute\<close>.  \<open>gobreaker\<close> is a library: a breaker is any state \<open>'b\<close> with the
  decision to accept a request and the bookkeeping after one, composed as the documentation of
  its \<open>Execute\<close> says (a rejected request is answered at once, an accepted one is run and its
  own error returned).  What the registry adds is modelled as it is: the settings, the
  arithmetic of \<open>ReadyToTrip\<close> on 32 bits, and the pass-through of unknown services.

  The locale \<open>call_guard\<close> is what the handlers rely on when they wrap a call in the registry.
\<close>

section \<open>Settings\<close>

record Counts =
  Requests :: "32 word"
  TotalSuccesses :: "32 word"
  TotalFailures :: "32 word"
  ConsecutiveSuccesses :: "32 word"
  ConsecutiveFailures :: "32 word"

definition ReadyToTrip :: "Counts \<Rightarrow> bool" where
  "ReadyToTrip counts =
     (if 5 \<le> ConsecutiveFailures counts then True
      else if 10 \<le> Requests counts then 50 < (TotalFailures counts * 100) div Requests counts
      else False)"

record Settings =
  Name :: string
  MaxRequests :: "32 word"
  Interval :: int
  Timeout :: int
  readyToTrip :: "Counts \<Rightarrow> bool"

definition second :: int where "second = 1000000000"

definition breaker_settings :: "string \<Rightarrow> Settings" where
  "breaker_settings n =
     \<lparr>Name = n, MaxRequests = 1, Interval = 30 * second, Timeout = 10 * second, readyToTrip = ReadyToTrip\<rparr>"

section \<open>The registry\<close>

type_synonym ('e, 'w) call = "'w \<Rightarrow> 'e option \<times> 'w"

record ('b, 'e) gobreaker =
  newCircuitBreaker :: "Settings \<Rightarrow> 'b"
  accept :: "'b \<Rightarrow> 'e option \<times> 'b"
  account :: "'b \<Rightarrow> bool \<Rightarrow> 'b"

definition cb_execute :: "('b, 'e) gobreaker \<Rightarrow> 'b \<Rightarrow> ('e, 'w) call \<Rightarrow> 'w \<Rightarrow> 'e option \<times> 'b \<times> 'w" where
  "cb_execute gb b fn w =
     (case accept gb b of
        (Some e, b') \<Rightarrow> (Some e, b', w)
      | (None, b') \<Rightarrow> (let (err, w') = fn w in (err, account gb b' (err = None), w')))"

type_synonym 'b registry = "(string \<times> 'b) list"

definition New :: "('b, 'e) gobreaker \<Rightarrow> string list \<Rightarrow> 'b registry" where
  "New gb services =
     foldl (\<lambda>r n. AList.update n (newCircuitBreaker gb (breaker_settings n)) r) [] services"

definition Execute ::
  "('b, 'e) gobreaker \<Rightarrow> string \<Rightarrow> ('e, 'w) call \<Rightarrow> 'b registry \<times> 'w \<Rightarrow> 'e option \<times> 'b registry \<times> 'w" where
  "Execute gb service fn = (\<lambda>(r, w).
     (case map_of r service of
        None \<Rightarrow> (let (err, w') = fn w in (err, r, w'))
      | Some cb \<Rightarrow>
          (let (err, cb', w') = cb_execute gb cb fn w in (err, AList.update service cb' r, w'))))"

section \<open>The contract of a guarded call\<close>

locale call_guard =
  fixes run :: "string \<Rightarrow> ('e, 'w) call \<Rightarrow> 'g \<times> 'w \<Rightarrow> 'e option \<times> 'g \<times> 'w"
    and rejects :: "string \<Rightarrow> 'g \<Rightarrow> 'e option"
    and books :: "string \<Rightarrow> 'g \<Rightarrow> bool \<Rightarrow> 'g"
  assumes rejected: "rejects s g = Some e \<Longrightarrow> run s fn (g, w) = (Some e, books s g False, w)"
    and accepted: "rejects s g = None \<Longrightarrow>
      run s fn (g, w) = (fst (fn w), books s g (fst (fn w) = None), snd (fn w))"
begin

lemma world_untouched_or_run_once:
  "snd (snd (run s fn (g, w))) = (case rejects s g of Some e \<Rightarrow> w | None \<Rightarrow> snd (fn w))"
  by (simp add: rejected accepted split: option.split)

lemma success_means_run:
  assumes "fst (run s fn (g, w)) = None"
  shows "fst (fn w) = None" and "snd (snd (run s fn (g, w))) = snd (fn w)"
  using assms by (cases "rejects s g"; simp add: rejected accepted)+

lemma guarded_fn_irrelevant_when_rejected:
  "rejects s g = Some e \<Longrightarrow> run s fn (g, w) = run s fn' (g, w)"
  by (simp add: rejected)

end

definition registry_rejects :: "('b, 'e) gobreaker \<Rightarrow> string \<Rightarrow> 'b registry \<Rightarrow> 'e option" where
  "registry_rejects gb s r = (case map_of r s of None \<Rightarrow> None | Some b \<Rightarrow> fst (accept gb b))"

definition registry_books :: "('b, 'e) gobreaker \<Rightarrow> string \<Rightarrow> 'b registry \<Rightarrow> bool \<Rightarrow> 'b registry" where
  "registry_books gb s r ok =
     (case map_of r s of
        None \<Rightarrow> r
      | Some b \<Rightarrow>
          (case accept gb b of
             (Some e, b') \<Rightarrow> AList.update s b' r
           | (None, b') \<Rightarrow> AList.update s (account gb b' ok) r))"

interpretation registry: call_guard "Execute gb" "registry_rejects gb" "registry_books gb"
  for gb :: "('b, 'e) gobreaker"
  by unfold_locales
    (auto simp: Execute_def cb_execute_def registry_rejects_def registry_books_def Let_def
      split: option.splits prod.splits)

section \<open>Lemmas\<close>

lemma map_of_New:
  "map_of (New gb services) n =
     (if n \<in> set services then Some (newCircuitBreaker gb (breaker_settings n)) else None)"
proof -
  have "map_of (foldl (\<lambda>r n. AList.update n (newCircuitBreaker gb (breaker_settings n)) r) r0 services) n =
      (if n \<in> set services then Some (newCircuitBreaker gb (breaker_settings n)) else map_of r0 n)" for r0
    by (induction services arbitrary: r0) (auto simp: go_map)
  then show ?thesis by (simp add: New_def)
qed

lemma registry_books_other:
  "n \<noteq> s \<Longrightarrow> map_of (registry_books gb s r ok) n = map_of r n"
  by (auto simp: registry_books_def go_map split: option.splits prod.splits)

lemma ratio_no_wrap:
  fixes f q :: "32 word"
  assumes "unat f \<le> 42949672" and "0 < q"
  shows "50 < (f * 100) div q \<longleftrightarrow> 51 * unat q \<le> 100 * unat f"
proof -
  have q: "0 < unat q" using assms(2) by (simp add: word_less_nat_alt)
  have "unat (f * 100) = 100 * unat f"
    using assms(1) by (subst unat_mult_lem[THEN iffD1]) simp_all
  then have "unat ((f * 100) div q) = (100 * unat f) div unat q" by (simp add: unat_div)
  then have "50 < (f * 100) div q \<longleftrightarrow> 51 \<le> (100 * unat f) div unat q"
    by (simp add: word_less_nat_alt) linarith
  then show ?thesis by (simp add: less_eq_div_iff_mult_less_eq q)
qed

section \<open>Properties\<close>

text \<open>
  (C40) When a breaker opens: after five failures in a row, or, from ten requests of an
  interval on, when at least 51 per cent of them failed (the division truncates, so between
  50 and 51 per cent the breaker stays closed).  The bound on the failures is what keeps
  the 32-bit product exact.
\<close>

theorem breaker_trips_iff:
  assumes "unat (TotalFailures c) \<le> 42949672"
  shows "readyToTrip (breaker_settings n) c \<longleftrightarrow>
           5 \<le> unat (ConsecutiveFailures c) \<or>
           10 \<le> unat (Requests c) \<and> 51 * unat (Requests c) \<le> 100 * unat (TotalFailures c)"
proof (cases "10 \<le> Requests c")
  case True
  then have "0 < Requests c" by (simp add: word_less_nat_alt word_le_nat_alt)
  from ratio_no_wrap[OF assms this] True show ?thesis
    by (simp add: breaker_settings_def ReadyToTrip_def word_le_nat_alt)
next
  case False
  then show ?thesis by (simp add: breaker_settings_def ReadyToTrip_def word_le_nat_alt)
qed

theorem breaker_trips_iff_witness:
  "\<not> readyToTrip (breaker_settings ''routerservice'')
       \<lparr>Requests = 199, TotalSuccesses = 98, TotalFailures = 101, ConsecutiveSuccesses = 0, ConsecutiveFailures = 4\<rparr>"
  by (subst breaker_trips_iff) simp_all

text \<open>
  Executing a call on a registry built for a list of services: the call's own result is
  returned and its effects happen once, unless the breaker of that very service rejects it,
  and then nothing of the call happens; a service without a breaker is called directly, and
  no other service's breaker changes.
\<close>

theorem execute_runs_or_rejects:
  "(case registry_rejects gb s r of
      Some e \<Rightarrow> fst (Execute gb s fn (r, w)) = Some e \<and> snd (snd (Execute gb s fn (r, w))) = w
    | None \<Rightarrow> fst (Execute gb s fn (r, w)) = fst (fn w) \<and> snd (snd (Execute gb s fn (r, w))) = snd (fn w)) \<and>
   (n \<noteq> s \<longrightarrow> map_of (fst (snd (Execute gb s fn (r, w)))) n = map_of r n) \<and>
   (s \<notin> set services \<longrightarrow> Execute gb s fn (New gb services, w) = (fst (fn w), New gb services, snd (fn w)))"
proof -
  have "registry_rejects gb s (New gb services) = None \<and> registry_books gb s (New gb services) ok = New gb services"
    if "s \<notin> set services" for ok
    using that by (simp add: registry_rejects_def registry_books_def map_of_New)
  then show ?thesis
    by (cases "registry_rejects gb s r")
       (auto simp: registry.rejected registry.accepted registry_books_other)
qed

definition closed_breaker :: "(bool, string) gobreaker" where
  "closed_breaker = \<lparr>newCircuitBreaker = (\<lambda>s. False),
     accept = (\<lambda>open. (if open then Some ''circuit breaker is open'' else None, open)),
     account = (\<lambda>open ok. \<not> ok)\<rparr>"

theorem execute_runs_or_rejects_witness:
  "Execute closed_breaker ''tiles'' (\<lambda>w. (None, Suc w)) (New closed_breaker [''auth''], 0) =
     (None, New closed_breaker [''auth''], 1) \<and>
   fst (Execute closed_breaker ''auth'' (\<lambda>w. (None, Suc w)) ([(''auth'', True)], 0)) =
     Some ''circuit breaker is open''"
proof
  show "Execute closed_breaker ''tiles'' (\<lambda>w. (None, Suc w)) (New closed_breaker [''auth''], 0) =
     (None, New closed_breaker [''auth''], 1)"
    using execute_runs_or_rejects[where gb = closed_breaker and s = "''tiles''" and services = "[''auth'']"
        and r = "New closed_breaker [''auth'']" and fn = "\<lambda>w. (None, Suc w)" and w = 0] by simp
  have "registry_rejects closed_breaker ''auth'' [(''auth'', True)] = Some ''circuit breaker is open''"
    by (simp add: registry_rejects_def closed_breaker_def)
  then show "fst (Execute closed_breaker ''auth'' (\<lambda>w. (None, Suc w)) ([(''auth'', True)], 0)) =
     Some ''circuit breaker is open''"
    using execute_runs_or_rejects[where gb = closed_breaker and s = "''auth''" and r = "[(''auth'', True)]"
        and fn = "\<lambda>w. (None, Suc w)" and w = 0] by simp
qed

end
