(* ===== verification/Extension_Routes.thy ===== *)
theory Extension_Routes
  imports Http_Model Rate_Middleware Auth_Middleware Circuit_Breaker
    "HOL-Library.Char_ord" "HOL-Library.List_Lexorder"
begin

text \<open>
  \<open>internal/extension/extension.go\<close>: routes an operator adds by a configuration file.  The
  validation of a file, the matching of requests, the limits of a matched route, the
  registration on the mux and the handler that forwards to the upstream.

  \<open>url.Parse\<close>, the YAML decoder and the network are arguments; the reverse proxy is
  modelled by what the code configures of it (the rewrite of the outgoing header, the
  error handler), with \<open>httputil\<close>'s own hop-by-hop step as an argument.
\<close>

section \<open>Routes\<close>

record RateLimit =
  UserPerMin :: int
  IPPerMin :: int

record Route =
  rt_Name :: string
  rt_Path :: string
  rt_Methods :: "string list"
  rt_Upstream :: string
  rt_Auth :: string
  rt_ForwardAuthorization :: bool
  rt_MaxBodyBytes :: int
  rt_Timeout :: int
  rt_RateLimit :: RateLimit

definition reservedPrefixes :: "string list" where
  "reservedPrefixes =
     [''/api/v1/auth'', ''/api/v1/route'', ''/api/v1/search'', ''/api/v1/region'', ''/v1/tiles'',
      ''/web'', ''/health'', ''/api/openapi.yaml'']"

definition allowedMethods :: "string list" where
  "allowedMethods = [''GET'', ''POST'', ''PUT'', ''DELETE'']"

text \<open>The fields of \<open>url.URL\<close> the validation reads.\<close>

record url =
  u_scheme :: string
  u_host :: string
  u_path :: string
  u_raw_query :: string
  u_fragment :: string
  u_user :: "string option"

datatype route_problem =
    NameRequired | DuplicateName | PathNoResource | PathCharacters | PathReserved
  | NoMethods | MethodNotAllowed string | PatternUsed string string
  | UpstreamNotHttp | UpstreamNotBare | BadAuth string | ForwardNeedsAuth
  | BodyLimitUnset | TimeoutNotPositive | IpLimitUnset | UserLimitUnset

datatype route_error = RouteError nat string route_problem

definition validatePath :: "string \<Rightarrow> route_problem option" where
  "validatePath p =
     (if \<not> has_prefix p ''/api/v1/'' \<or> length p = length ''/api/v1/'' then Some PathNoResource
      else if contains_any p '' ?#{}*'' \<or> contains_str p ''..'' \<or> contains_str p ''//'' then Some PathCharacters
      else if list_ex (\<lambda>reserved. p = reserved \<or> has_prefix p (reserved @ ''/'')) reservedPrefixes
      then Some PathReserved
      else None)"

definition validateUpstream :: "(string \<Rightarrow> url option) \<Rightarrow> string \<Rightarrow> route_problem option" where
  "validateUpstream parse raw =
     (case parse raw of
        None \<Rightarrow> Some UpstreamNotHttp
      | Some u \<Rightarrow>
          if (u_scheme u \<noteq> ''http'' \<and> u_scheme u \<noteq> ''https'') \<or> u_host u = '''' then Some UpstreamNotHttp
          else if (u_path u \<noteq> '''' \<and> u_path u \<noteq> ''/'') \<or> u_raw_query u \<noteq> '''' \<or> u_fragment u \<noteq> '''' \<or>
                  u_user u \<noteq> None then Some UpstreamNotBare
          else None)"

type_synonym patterns = "(string \<times> string) list"

definition pattern_key :: "string \<Rightarrow> string \<Rightarrow> string" where
  "pattern_key m p = m @ '' '' @ p"

text \<open>The loop over the methods of one route.\<close>

fun validate_methods :: "string \<Rightarrow> string \<Rightarrow> string list \<Rightarrow> patterns \<Rightarrow> route_problem + patterns" where
  "validate_methods name path [] patterns = Inr patterns"
| "validate_methods name path (m # ms) patterns =
     (if \<not> List.member allowedMethods m then Inl (MethodNotAllowed m)
      else
        (let key = pattern_key m path
         in case map_of patterns key of
              Some other \<Rightarrow> Inl (PatternUsed key other)
            | None \<Rightarrow> validate_methods name path ms (AList.update key name patterns)))"

definition validate_limits :: "Route \<Rightarrow> route_problem option" where
  "validate_limits r =
     (if rt_Auth r \<noteq> ''none'' \<and> rt_Auth r \<noteq> ''user'' \<and> rt_Auth r \<noteq> ''admin'' then Some (BadAuth (rt_Auth r))
      else if rt_ForwardAuthorization r \<and> rt_Auth r = ''none'' then Some ForwardNeedsAuth
      else if rt_MaxBodyBytes r \<le> 0 then Some BodyLimitUnset
      else if rt_Timeout r \<le> 0 then Some TimeoutNotPositive
      else if IPPerMin (rt_RateLimit r) \<le> 0 then Some IpLimitUnset
      else if rt_Auth r \<noteq> ''none'' \<and> UserPerMin (rt_RateLimit r) \<le> 0 then Some UserLimitUnset
      else None)"

definition validate_route ::
  "(string \<Rightarrow> url option) \<Rightarrow> string list \<Rightarrow> patterns \<Rightarrow> Route \<Rightarrow> route_problem + patterns" where
  "validate_route parse names patterns r =
     (if rt_Name r = '''' then Inl NameRequired
      else if List.member names (rt_Name r) then Inl DuplicateName
      else
        (case validatePath (rt_Path r) of
           Some e \<Rightarrow> Inl e
         | None \<Rightarrow>
             if rt_Methods r = [] then Inl NoMethods
             else
               (case validate_methods (rt_Name r) (rt_Path r) (rt_Methods r) patterns of
                  Inl e \<Rightarrow> Inl e
                | Inr patterns' \<Rightarrow>
                    (case validateUpstream parse (rt_Upstream r) of
                       Some e \<Rightarrow> Inl e
                     | None \<Rightarrow>
                         (case validate_limits r of
                            Some e \<Rightarrow> Inl e
                          | None \<Rightarrow> Inr patterns')))))"

fun validate_loop ::
  "(string \<Rightarrow> url option) \<Rightarrow> nat \<Rightarrow> string list \<Rightarrow> patterns \<Rightarrow> Route list \<Rightarrow> route_error option" where
  "validate_loop parse i names patterns [] = None"
| "validate_loop parse i names patterns (r # rs) =
     (case validate_route parse names patterns r of
        Inl e \<Rightarrow> Some (RouteError (i + 1) (rt_Name r) e)
      | Inr patterns' \<Rightarrow> validate_loop parse (i + 1) (rt_Name r # names) patterns' rs)"

definition Validate :: "(string \<Rightarrow> url option) \<Rightarrow> Route list \<Rightarrow> route_error option" where
  "Validate parse routes = validate_loop parse 0 [] [] routes"

definition defaultTimeout :: int where "defaultTimeout = 30 * second"

datatype load_error = ReadError | ParseError | InvalidRoutes route_error

definition Load ::
  "(string \<Rightarrow> string option) \<Rightarrow> (string \<Rightarrow> Route list option) \<Rightarrow> (string \<Rightarrow> url option) \<Rightarrow> string \<Rightarrow>
     load_error + Route list" where
  "Load read_file decode parse path =
     (case read_file path of
        None \<Rightarrow> Inl ReadError
      | Some data \<Rightarrow>
          (case decode data of
             None \<Rightarrow> Inl ParseError
           | Some rs \<Rightarrow>
               (let routes = map (\<lambda>r. if rt_Timeout r = 0 then r\<lparr>rt_Timeout := defaultTimeout\<rparr> else r) rs
                in case Validate parse routes of
                     Some e \<Rightarrow> Inl (InvalidRoutes e)
                   | None \<Rightarrow> Inr routes)))"

section \<open>Sets of routes\<close>

record route_set =
  routes :: "Route list"
  breakers :: bool

definition NewSet :: "(string \<Rightarrow> url option) \<Rightarrow> Route list \<Rightarrow> bool \<Rightarrow> route_error + route_set" where
  "NewSet parse rs brk =
     (case Validate parse rs of Some e \<Rightarrow> Inl e | None \<Rightarrow> Inr \<lparr>routes = rs, breakers = brk\<rparr>)"

definition Names :: "route_set option \<Rightarrow> string list" where
  "Names s = (case s of None \<Rightarrow> [] | Some s \<Rightarrow> map rt_Name (routes s))"

definition matchesPath :: "string \<Rightarrow> string \<Rightarrow> bool" where
  "matchesPath pattern path =
     (if has_suffix pattern ''/'' then has_prefix path pattern else path = pattern)"

fun hasMethod :: "string list \<Rightarrow> string \<Rightarrow> bool" where
  "hasMethod [] m = False"
| "hasMethod (x # xs) m = (x = m \<or> hasMethod xs m)"

text \<open>The loop of \<open>Match\<close>: the best route so far, if any.\<close>

definition match_step :: "request \<Rightarrow> Route option \<Rightarrow> Route \<Rightarrow> Route option" where
  "match_step r best route =
     (if \<not> matchesPath (rt_Path route) (r_path r) \<or> \<not> hasMethod (rt_Methods route) (r_method r) then best
      else (case best of
              None \<Rightarrow> Some route
            | Some b \<Rightarrow> if length (rt_Path b) < length (rt_Path route) then Some route else best))"

definition Match :: "route_set option \<Rightarrow> request \<Rightarrow> Route option" where
  "Match s r = (case s of None \<Rightarrow> None | Some s \<Rightarrow> foldl (match_step r) None (routes s))"

definition set_BodyLimit :: "route_set option \<Rightarrow> request \<Rightarrow> int \<times> bool" where
  "set_BodyLimit s r =
     (case Match s r of None \<Rightarrow> (0, False) | Some route \<Rightarrow> (rt_MaxBodyBytes route, True))"

definition RateClass :: "route_set option \<Rightarrow> request \<Rightarrow> ExtensionClass \<times> bool" where
  "RateClass s r =
     (case Match s r of
        None \<Rightarrow> (\<lparr>ec_Name = '''', ec_UserPerMin = 0, ec_IPPerMin = 0, ec_PerIPOnly = False\<rparr>, False)
      | Some route \<Rightarrow>
          (\<lparr>ec_Name = rt_Name route, ec_UserPerMin = UserPerMin (rt_RateLimit route),
            ec_IPPerMin = IPPerMin (rt_RateLimit route), ec_PerIPOnly = (rt_Auth route = ''none'')\<rparr>, True))"

definition describe_route :: "Route \<Rightarrow> string" where
  "describe_route r =
     rt_Name r @ '' '' @ join_with '','' (sort (rt_Methods r)) @ '' '' @ rt_Path r @ '' -> '' @
     rt_Upstream r @ '' (auth='' @ rt_Auth r @ '')''"

definition Describe :: "route_set option \<Rightarrow> string list" where
  "Describe s = (case s of None \<Rightarrow> [] | Some s \<Rightarrow> map describe_route (routes s))"

section \<open>The upstream request\<close>

definition identity_header :: "string \<Rightarrow> bool" where
  "identity_header name =
     (let lower = to_lower name
      in has_prefix lower ''x-swayrider-'' \<or> has_prefix lower ''x-forwarded-user'' \<or>
         has_prefix lower ''x-auth-'' \<or> lower = ''x-user-id'' \<or> lower = ''x-remote-user'')"

text \<open>The loop ranges over the keys present when it starts, in some order.\<close>

definition prepareUpstreamRequest :: "header \<Rightarrow> request \<Rightarrow> bool \<Rightarrow> header" where
  "prepareUpstreamRequest out_header in_req forwardAuthorization =
     (let h1 = h_del out_header ''Cookie'';
          h2 = h_del h1 ''Authorization'';
          h3 = fold (\<lambda>name h. if identity_header name then h_del h name else h) (map fst h2) h2
      in if forwardAuthorization then
           (case ctx_value (r_ctx in_req) JwtKey of
              Some (VString token) \<Rightarrow> if token \<noteq> '''' then h_set h3 ''Authorization'' (''Bearer '' @ token) else h3
            | _ \<Rightarrow> h3)
         else h3)"

text \<open>
  The transport gets the target, the deadline and the outgoing request; it answers with a
  status, a header and a body, or fails.
\<close>

datatype upstream_error = BodyTooBig | UpstreamDeadline | OtherFailure

datatype upstream_answer = Answer int "(string \<times> string list) list" string | Failure upstream_error

type_synonym 's transport = "string \<Rightarrow> int \<Rightarrow> request \<Rightarrow> 's \<Rightarrow> upstream_answer \<times> 's"

definition ext_error :: "response \<Rightarrow> upstream_error \<Rightarrow> int \<times> response" where
  "ext_error w e =
     (case e of
        BodyTooBig \<Rightarrow> (413, http_error w ''request body too large'' 413)
      | UpstreamDeadline \<Rightarrow> (504, http_error w ''upstream timed out'' 504)
      | OtherFailure \<Rightarrow> (502, http_error w ''upstream unavailable'' 502))"

definition copy_header :: "header \<Rightarrow> header \<Rightarrow> header" where
  "copy_header dst src = fold (\<lambda>(k, vs) h. fold (\<lambda>v h. h_add h k v) vs h) src dst"

definition out_request :: "(header \<Rightarrow> header) \<Rightarrow> Route \<Rightarrow> request \<Rightarrow> request" where
  "out_request hop route r =
     r\<lparr>r_header := prepareUpstreamRequest (hop (r_header r)) r (rt_ForwardAuthorization route)\<rparr>"

definition proxy_serve ::
  "(header \<Rightarrow> header) \<Rightarrow> 's transport \<Rightarrow> Route \<Rightarrow> request \<Rightarrow> response \<Rightarrow> 's \<Rightarrow> int \<times> response \<times> 's" where
  "proxy_serve hop transport route r w s =
     (case transport (rt_Upstream route) (rt_Timeout route) (out_request hop route r) s of
        (Answer code h data, s') \<Rightarrow>
          (code, write_body (write_header (w\<lparr>hdr := copy_header (hdr w) h\<rparr>) code) data, s')
      | (Failure e, s') \<Rightarrow> (case ext_error w e of (code, w') \<Rightarrow> (code, w', s')))"

datatype route_call_error = ErrOpenState | ErrTooManyRequests | UpstreamStatus int

definition proxy_call ::
  "(header \<Rightarrow> header) \<Rightarrow> 's transport \<Rightarrow> Route \<Rightarrow> request \<Rightarrow> (route_call_error, response \<times> 's) call" where
  "proxy_call hop transport route r = (\<lambda>(w, s).
     (case proxy_serve hop transport route r w s of
        (code, w', s') \<Rightarrow> (if 502 \<le> code then Some (UpstreamStatus code) else None, w', s')))"

definition route_serve ::
  "(header \<Rightarrow> header) \<Rightarrow> 's transport \<Rightarrow> ('b, route_call_error) gobreaker \<Rightarrow> route_set \<Rightarrow> Route \<Rightarrow>
     ('b registry \<times> 's) handler" where
  "route_serve hop transport gb st route r w = (\<lambda>(reg, s).
     (if \<not> breakers st
      then (case proxy_serve hop transport route r w s of (code, w', s') \<Rightarrow> (w', reg, s'))
      else
        (case Execute gb (rt_Name route) (proxy_call hop transport route r) (reg, w, s) of
           (err, reg', w', s') \<Rightarrow>
             (if err = Some ErrOpenState \<or> err = Some ErrTooManyRequests
              then http_error w' ''service unavailable'' 503 else w', reg', s'))))"

definition ext_handler ::
  "swlib \<Rightarrow> (header \<Rightarrow> header) \<Rightarrow> 's transport \<Rightarrow> ('b, route_call_error) gobreaker \<Rightarrow> route_set \<Rightarrow> Route \<Rightarrow>
     ('b registry \<times> 's) handler" where
  "ext_handler lib hop transport gb st route =
     (let h = route_serve hop transport gb st route
      in if rt_Auth route = ''user'' then RequireVerifiedUser lib h
         else if rt_Auth route = ''admin'' then RequireAdmin lib h
         else h)"

text \<open>
  \<open>Register\<close>: \<open>handle\<close> is \<open>mux.Handle\<close>, \<open>None\<close> for the panic of a conflicting pattern; the
  patterns registered before it stay on the mux.
\<close>

fun register_methods ::
  "('m \<Rightarrow> string \<Rightarrow> 'h \<Rightarrow> 'm option) \<Rightarrow> string \<Rightarrow> 'h \<Rightarrow> string list \<Rightarrow> 'm \<Rightarrow> bool \<times> 'm" where
  "register_methods handle path h [] mux = (True, mux)"
| "register_methods handle path h (m # ms) mux =
     (case handle mux (pattern_key m path) h of
        None \<Rightarrow> (False, mux)
      | Some mux' \<Rightarrow> register_methods handle path h ms mux')"

fun register_routes ::
  "('m \<Rightarrow> string \<Rightarrow> 'h \<Rightarrow> 'm option) \<Rightarrow> (Route \<Rightarrow> 'h) \<Rightarrow> Route list \<Rightarrow> 'm \<Rightarrow> string option \<times> 'm" where
  "register_routes handle hf [] mux = (None, mux)"
| "register_routes handle hf (r # rs) mux =
     (case register_methods handle (rt_Path r) (hf r) (rt_Methods r) mux of
        (True, mux') \<Rightarrow> register_routes handle hf rs mux'
      | (False, mux') \<Rightarrow> (Some (rt_Name r), mux'))"

definition Register ::
  "('m \<Rightarrow> string \<Rightarrow> 'h \<Rightarrow> 'm option) \<Rightarrow> (route_set \<Rightarrow> Route \<Rightarrow> 'h) \<Rightarrow> route_set option \<Rightarrow> 'm \<Rightarrow> string option \<times> 'm" where
  "Register handle hf s mux =
     (case s of None \<Rightarrow> (None, mux) | Some st \<Rightarrow> register_routes handle (hf st) (routes st) mux)"

section \<open>What validation accepts\<close>

text \<open>The declarative reading of a valid file: every route is sound on its own, and no name
  and no method-and-path pair occurs twice.\<close>

definition sound_route :: "(string \<Rightarrow> url option) \<Rightarrow> Route \<Rightarrow> bool" where
  "sound_route parse r \<longleftrightarrow>
     rt_Name r \<noteq> '''' \<and> validatePath (rt_Path r) = None \<and> rt_Methods r \<noteq> [] \<and>
     set (rt_Methods r) \<subseteq> set allowedMethods \<and> validateUpstream parse (rt_Upstream r) = None \<and>
     rt_Auth r \<in> {''none'', ''user'', ''admin''} \<and>
     (rt_ForwardAuthorization r \<longrightarrow> rt_Auth r \<noteq> ''none'') \<and>
     0 < rt_MaxBodyBytes r \<and> 0 < rt_Timeout r \<and> 0 < IPPerMin (rt_RateLimit r) \<and>
     (rt_Auth r \<noteq> ''none'' \<longrightarrow> 0 < UserPerMin (rt_RateLimit r))"

definition route_keys :: "Route \<Rightarrow> string list" where
  "route_keys r = map (\<lambda>m. pattern_key m (rt_Path r)) (rt_Methods r)"

definition valid_routes :: "(string \<Rightarrow> url option) \<Rightarrow> Route list \<Rightarrow> bool" where
  "valid_routes parse rs \<longleftrightarrow>
     (\<forall>r\<in>set rs. sound_route parse r) \<and> distinct (map rt_Name rs) \<and> distinct (concat (map route_keys rs))"

lemma validate_limits_iff:
  "validate_limits r = None \<longleftrightarrow>
     rt_Auth r \<in> {''none'', ''user'', ''admin''} \<and>
     (rt_ForwardAuthorization r \<longrightarrow> rt_Auth r \<noteq> ''none'') \<and>
     0 < rt_MaxBodyBytes r \<and> 0 < rt_Timeout r \<and> 0 < IPPerMin (rt_RateLimit r) \<and>
     (rt_Auth r \<noteq> ''none'' \<longrightarrow> 0 < UserPerMin (rt_RateLimit r))"
  unfolding validate_limits_def by (simp split: if_split)

lemma validate_methods_Inr:
  "validate_methods name path ms pats = Inr pats' \<Longrightarrow>
     set ms \<subseteq> set allowedMethods \<and> distinct (map (\<lambda>m. pattern_key m path) ms) \<and>
     set (map (\<lambda>m. pattern_key m path) ms) \<inter> dom (map_of pats) = {} \<and>
     dom (map_of pats') = dom (map_of pats) \<union> set (map (\<lambda>m. pattern_key m path) ms)"
proof (induction name path ms pats rule: validate_methods.induct)
  case (2 name path m ms pats)
  then have m: "List.member allowedMethods m" by (auto split: if_splits)
  with 2(2) have k: "map_of pats (pattern_key m path) = None"
    by (simp add: Let_def split: option.splits)
  have "validate_methods name path ms (AList.update (pattern_key m path) name pats) = Inr pats'"
    using 2(2) m k by (simp add: Let_def)
  from "2.IH"[OF _ refl k this] m have ih:
    "set ms \<subseteq> set allowedMethods" "distinct (map (\<lambda>m. pattern_key m path) ms)"
    "set (map (\<lambda>m. pattern_key m path) ms) \<inter> dom (map_of (AList.update (pattern_key m path) name pats)) = {}"
    "dom (map_of pats') = dom (map_of (AList.update (pattern_key m path) name pats)) \<union>
       set (map (\<lambda>m. pattern_key m path) ms)"
    by simp_all
  have d: "dom (map_of (AList.update (pattern_key m path) name pats)) =
      insert (pattern_key m path) (dom (map_of pats))"
    by (auto simp: go_map dom_def)
  from ih m k show ?case by (auto simp: d)
qed simp

lemma validate_methods_accepts:
  "set ms \<subseteq> set allowedMethods \<Longrightarrow> distinct (map (\<lambda>m. pattern_key m path) ms) \<Longrightarrow>
   set (map (\<lambda>m. pattern_key m path) ms) \<inter> dom (map_of pats) = {} \<Longrightarrow>
   \<exists>pats'. validate_methods name path ms pats = Inr pats'"
proof (induction ms arbitrary: pats)
  case (Cons m ms)
  have d: "dom (map_of (AList.update (pattern_key m path) name pats)) =
      insert (pattern_key m path) (dom (map_of pats))"
    by (auto simp: go_map dom_def)
  from Cons.prems have k: "map_of pats (pattern_key m path) = None" by auto
  from Cons.prems have "set (map (\<lambda>m. pattern_key m path) ms) \<inter>
      dom (map_of (AList.update (pattern_key m path) name pats)) = {}" by (auto simp: d)
  from Cons.IH[OF _ _ this] Cons.prems k show ?case by (auto simp: Let_def)
qed simp

lemma validate_route_Inr:
  assumes "validate_route parse names pats r = Inr pats'"
  shows "sound_route parse r" and "rt_Name r \<notin> set names" and "distinct (route_keys r)"
    and "set (route_keys r) \<inter> dom (map_of pats) = {}"
    and "dom (map_of pats') = dom (map_of pats) \<union> set (route_keys r)"
proof -
  from assms have m: "validate_methods (rt_Name r) (rt_Path r) (rt_Methods r) pats = Inr pats'"
    and b: "rt_Name r \<noteq> ''''" "\<not> List.member names (rt_Name r)" "validatePath (rt_Path r) = None"
      "rt_Methods r \<noteq> []" "validateUpstream parse (rt_Upstream r) = None" "validate_limits r = None"
    by (simp_all add: validate_route_def split: if_splits option.splits sum.splits)
  note v = validate_methods_Inr[OF m, folded route_keys_def]
  from b v show "sound_route parse r" by (simp add: sound_route_def validate_limits_iff)
  from b show "rt_Name r \<notin> set names" by simp
  from v show "distinct (route_keys r)" "set (route_keys r) \<inter> dom (map_of pats) = {}"
    "dom (map_of pats') = dom (map_of pats) \<union> set (route_keys r)" by simp_all
qed

lemma validate_route_accepts:
  assumes "sound_route parse r" and "rt_Name r \<notin> set names" and "distinct (route_keys r)"
    and "set (route_keys r) \<inter> dom (map_of pats) = {}"
  shows "\<exists>pats'. validate_route parse names pats r = Inr pats'"
proof -
  from assms(1) have s: "set (rt_Methods r) \<subseteq> set allowedMethods" "validate_limits r = None"
    "rt_Name r \<noteq> ''''" "validatePath (rt_Path r) = None" "rt_Methods r \<noteq> []"
    "validateUpstream parse (rt_Upstream r) = None"
    by (simp_all add: sound_route_def validate_limits_iff)
  from validate_methods_accepts[OF s(1) assms(3,4)[unfolded route_keys_def]]
  obtain pats' where "validate_methods (rt_Name r) (rt_Path r) (rt_Methods r) pats = Inr pats'" by blast
  with s assms(2) show ?thesis by (simp add: validate_route_def)
qed

lemma validate_loop_iff:
  "validate_loop parse i names pats rs = None \<longleftrightarrow>
     (\<forall>r\<in>set rs. sound_route parse r) \<and> distinct (map rt_Name rs) \<and>
     set names \<inter> set (map rt_Name rs) = {} \<and> distinct (concat (map route_keys rs)) \<and>
     set (concat (map route_keys rs)) \<inter> dom (map_of pats) = {}"
proof (induction rs arbitrary: i names pats)
  case (Cons r rs)
  show ?case
  proof (cases "validate_route parse names pats r")
    case (Inl e)
    then have "\<not> (sound_route parse r \<and> rt_Name r \<notin> set names \<and> distinct (route_keys r) \<and>
        set (route_keys r) \<inter> dom (map_of pats) = {})"
      using validate_route_accepts[of parse r names pats] by auto
    with Inl show ?thesis by auto
  next
    case (Inr pats')
    note v = validate_route_Inr[OF Inr]
    have "validate_loop parse i names pats (r # rs) = None \<longleftrightarrow>
        validate_loop parse (i + 1) (rt_Name r # names) pats' rs = None"
      using Inr by simp
    also have "\<dots> \<longleftrightarrow> (\<forall>r\<in>set rs. sound_route parse r) \<and> distinct (map rt_Name rs) \<and>
        set (rt_Name r # names) \<inter> set (map rt_Name rs) = {} \<and> distinct (concat (map route_keys rs)) \<and>
        set (concat (map route_keys rs)) \<inter> (dom (map_of pats) \<union> set (route_keys r)) = {}"
      using Cons.IH[of "i + 1" "rt_Name r # names" pats'] v(5) by simp
    finally show ?thesis using v(1-4) by (simp add: Int_Un_distrib2 Int_Un_distrib ball_Un disjoint_iff) blast
  qed
qed simp

end
