(* ===== verification/Extension_Contracts.thy ===== *)
theory Extension_Contracts
  imports Extension_Routes
begin

text \<open>
  What the extension routes promise: a valid file is exactly one that meets the declarative
  rules, its routes never take a path of the gateway's own, at most one route is the most
  specific for a request, the upstream learns nothing about the caller but the verified
  token, and a request that is refused or rejected never reaches the upstream.
\<close>

section \<open>Paths\<close>

definition reserved_path :: "string \<Rightarrow> bool" where
  "reserved_path path \<longleftrightarrow> (\<exists>p\<in>set reservedPrefixes. path = p \<or> has_prefix path (p @ ''/''))"

lemma prefix_of_reserved:
  assumes "p \<in> set reservedPrefixes" and "has_prefix pat ''/api/v1/''" and "has_suffix pat ''/''"
    and "p @ ''/'' = pat @ t"
  shows "pat = ''/api/v1/'' \<or> pat = p @ ''/''"
proof -
  from assms(2) obtain a where a: "pat = ''/api/v1/'' @ a" by (auto simp: has_prefix_iff)
  from assms(3) obtain b where b: "pat = b @ ''/''" by (auto simp: has_suffix_iff)
  show ?thesis
  proof (cases t rule: rev_cases)
    case (snoc t' c)
    with assms(4) have p: "p = pat @ t'" by simp
    have slash: "CHR ''/'' \<notin> set (drop 8 p)" if "has_prefix p ''/api/v1/''"
      using assms(1) that by (auto simp: reservedPrefixes_def)
    from p a have "has_prefix p ''/api/v1/''" "drop 8 p = a @ t'" by simp_all
    with slash have "CHR ''/'' \<notin> set a" by simp
    moreover have "a = [] \<or> last a = CHR ''/''" using a b by (metis append_is_Nil_conv last_appendR last_snoc)
    ultimately have "a = []" by (metis last_in_set)
    with a show ?thesis by simp
  qed (use assms(4) in simp)
qed

lemma valid_path_avoids_reserved:
  assumes "validatePath pat = None" and "matchesPath pat path"
  shows "\<not> reserved_path path"
proof
  assume "reserved_path path"
  then obtain p where p: "p \<in> set reservedPrefixes" "path = p \<or> has_prefix path (p @ ''/'')"
    by (auto simp: reserved_path_def)
  from assms(1) have v: "has_prefix pat ''/api/v1/''" "pat \<noteq> ''/api/v1/''"
    "\<forall>q\<in>set reservedPrefixes. pat \<noteq> q \<and> \<not> has_prefix pat (q @ ''/'')"
    by (auto simp: validatePath_def list_ex_iff split: if_splits)
  then have nopre: "pat \<noteq> p" "pat \<noteq> p @ ''/'' @ u" for u using p(1) by (auto simp: has_prefix_iff)
  show False
  proof (cases "has_suffix pat ''/''")
    case False
    with assms(2) p nopre show False by (auto simp: matchesPath_def has_prefix_iff)
  next
    case True
    with assms(2) obtain t where t: "path = pat @ t" by (auto simp: matchesPath_def has_prefix_iff)
    from p(2) consider "p = pat @ t" | u where "(p @ ''/'') @ u = pat @ t"
      using t by (auto simp: has_prefix_iff)
    then show False
    proof cases
      case 1
      then have "p @ ''/'' = pat @ (t @ ''/'')" by simp
      from prefix_of_reserved[OF p(1) v(1) True this] v(2) nopre(2)[of "''''"] show False by simp
    next
      case 2
      then consider w where "p @ ''/'' = pat @ w" | w where "pat = (p @ ''/'') @ w"
        by (metis append_eq_append_conv2)
      then show False
      proof cases
        case 1
        from prefix_of_reserved[OF p(1) v(1) True this] v(2) nopre(2)[of "''''"] show False by simp
      next
        case 2
        with nopre(2)[of w] show False by simp
      qed
    qed
  qed
qed

section \<open>Matching\<close>

definition serves :: "Route \<Rightarrow> request \<Rightarrow> bool" where
  "serves route r \<longleftrightarrow> matchesPath (rt_Path route) (r_path r) \<and> hasMethod (rt_Methods route) (r_method r)"

lemma hasMethod_iff [simp]: "hasMethod ms m \<longleftrightarrow> m \<in> set ms"
  by (induction ms) auto

lemma match_step_serves:
  "match_step r best route =
     (if serves route r then
        (case best of None \<Rightarrow> Some route
         | Some b \<Rightarrow> if length (rt_Path b) < length (rt_Path route) then Some route else best)
      else best)"
  by (simp add: match_step_def serves_def)

lemma foldl_match:
  "foldl (match_step r) best rs = Some m \<Longrightarrow>
     (m \<in> set rs \<and> serves m r \<or> best = Some m) \<and>
     (\<forall>x\<in>set rs. serves x r \<longrightarrow> length (rt_Path x) \<le> length (rt_Path m)) \<and>
     (\<forall>b. best = Some b \<longrightarrow> length (rt_Path b) \<le> length (rt_Path m))"
  by (induction rs arbitrary: best)
     (auto simp: match_step_serves split: if_splits option.splits; fastforce)+

lemma foldl_match_None:
  "foldl (match_step r) best rs = None \<longleftrightarrow> best = None \<and> (\<forall>x\<in>set rs. \<not> serves x r)"
  by (induction rs arbitrary: best) (auto simp: match_step_serves split: option.splits)

lemma matchesPath_take: "matchesPath p path \<Longrightarrow> p = take (length p) path"
  by (auto simp: matchesPath_def has_prefix_iff split: if_splits)

lemma same_key_same_route:
  assumes "distinct (concat (map route_keys rs))" and "x \<in> set rs" and "y \<in> set rs"
    and "k \<in> set (route_keys x)" and "k \<in> set (route_keys y)"
  shows "x = y"
  using assms by (induction rs) auto

lemma equal_length_serving_routes:
  assumes "valid_routes parse rs" and "x \<in> set rs" "y \<in> set rs" and "serves x r" "serves y r"
    and "length (rt_Path x) = length (rt_Path y)"
  shows "x = y"
proof -
  have "rt_Path x = rt_Path y"
    using assms(4-6) by (metis serves_def matchesPath_take)
  then have "pattern_key (r_method r) (rt_Path x) \<in> set (route_keys x)"
    and "pattern_key (r_method r) (rt_Path x) \<in> set (route_keys y)"
    using assms(4,5) by (auto simp: serves_def route_keys_def)
  then show ?thesis using assms(1-3) by (auto simp: valid_routes_def intro: same_key_same_route)
qed

section \<open>Headers for the upstream\<close>

lemma canonical_names [simp]:
  "canonical_key ''Cookie'' = ''Cookie''" "canonical_key ''Authorization'' = ''Authorization''"
  by code_simp+

lemma not_identity_names [simp]:
  "\<not> identity_header ''Cookie''" "\<not> identity_header ''Authorization''"
  by code_simp+

lemma map_of_h_del: "map_of (h_del h n) k = (if k = canonical_key n then None else map_of h k)"
  by (simp add: h_del_def delete_conv')

lemma map_of_h_set: "map_of (h_set h n v) k = (if k = canonical_key n then Some [v] else map_of h k)"
  by (simp add: h_set_def update_conv')

lemma keys_h_del: "set (map fst (h_del h n)) \<subseteq> set (map fst h)"
  by (auto simp: h_del_def delete_keys)

lemma map_of_drop_identity:
  assumes "\<forall>n\<in>set names. canonical_key n = n"
  shows "map_of (fold (\<lambda>n h. if identity_header n then h_del h n else h) names h) k =
    (if k \<in> set names \<and> identity_header k then None else map_of h k)"
  using assms by (induction names arbitrary: h) (auto simp: map_of_h_del)

definition jwt_in :: "request \<Rightarrow> string option" where
  "jwt_in r =
     (case ctx_value (r_ctx r) JwtKey of
        Some (VString token) \<Rightarrow> if token = '''' then None else Some token | _ \<Rightarrow> None)"

lemma prepared_header:
  assumes "canonical_header h"
  shows "map_of (prepareUpstreamRequest h r fwd) k =
     (if k = ''Cookie'' \<or> identity_header k then None
      else if k = ''Authorization'' then
        (if fwd then map_option (\<lambda>t. [''Bearer '' @ t]) (jwt_in r) else None)
      else map_of h k)"
proof -
  define h2 where "h2 = h_del (h_del h ''Cookie'') ''Authorization''"
  define h3 where "h3 = fold (\<lambda>n h. if identity_header n then h_del h n else h) (map fst h2) h2"
  have "set (map fst h2) \<subseteq> set (map fst h)"
    unfolding h2_def using keys_h_del by blast
  then have c: "\<forall>n\<in>set (map fst h2). canonical_key n = n"
    using assms by (simp add: canonical_header_def list_all_iff del: set_map) blast
  have h3: "map_of h3 k = (if identity_header k then None else map_of h2 k)" for k
    unfolding h3_def map_of_drop_identity[OF c] by (auto simp: map_of_eq_None_iff)
  have h2: "map_of h2 k = (if k = ''Cookie'' \<or> k = ''Authorization'' then None else map_of h k)" for k
    by (simp add: h2_def map_of_h_del)
  have "prepareUpstreamRequest h r fwd =
      (if fwd then (case jwt_in r of Some t \<Rightarrow> h_set h3 ''Authorization'' (''Bearer '' @ t) | None \<Rightarrow> h3) else h3)"
    by (simp add: prepareUpstreamRequest_def h2_def h3_def jwt_in_def Let_def split: option.split ctx_val.split)
  then show ?thesis
    by (auto simp: h3 h2 map_of_h_set split: option.splits)
qed

section \<open>Concrete inputs\<close>

definition photos_route :: Route where
  "photos_route = \<lparr>rt_Name = ''photos'', rt_Path = ''/api/v1/photos/'', rt_Methods = [''GET'', ''POST''],
     rt_Upstream = ''http://photos:8080'', rt_Auth = ''user'', rt_ForwardAuthorization = True,
     rt_MaxBodyBytes = 1048576, rt_Timeout = 0, rt_RateLimit = \<lparr>UserPerMin = 60, IPPerMin = 10\<rparr>\<rparr>"

definition thumbs_route :: Route where
  "thumbs_route = photos_route\<lparr>rt_Name := ''thumbs'', rt_Path := ''/api/v1/photos/thumbs'',
     rt_Timeout := 5 * second\<rparr>"

definition photos_url :: "string \<Rightarrow> url option" where
  "photos_url raw = (if raw = ''http://photos:8080'' then Some \<lparr>u_scheme = ''http'', u_host = ''photos:8080'',
     u_path = '''', u_raw_query = '''', u_fragment = '''', u_user = None\<rparr> else None)"

definition loaded_routes :: "Route list" where
  "loaded_routes = [photos_route\<lparr>rt_Timeout := defaultTimeout\<rparr>, thumbs_route]"

definition loaded_set :: route_set where
  "loaded_set = \<lparr>routes = loaded_routes, breakers = True\<rparr>"

definition photo_request :: "string \<Rightarrow> header \<Rightarrow> request" where
  "photo_request path h = \<lparr>r_method = ''GET'', r_path = path, r_raw_path = '''', r_header = h,
     r_remote_addr = ''192.0.2.7:4711'', r_tls = False,
     r_body = \<lparr>content = '''', max_bytes = None\<rparr>, r_ctx = [(JwtKey, VString ''good'')]\<rparr>"

lemma loaded_valid: "Validate photos_url loaded_routes = None"
  by code_simp

lemma loaded_NewSet: "NewSet photos_url loaded_routes True = Inr loaded_set"
  by (simp add: NewSet_def loaded_valid loaded_set_def)

section \<open>Properties\<close>

text \<open>
  (C30) The gateway starts on a routes file exactly when the file is readable, decodes, and,
  once the default timeout is filled in, every route is sound by itself and neither a name
  nor a method-and-path pair is used twice.
\<close>

theorem load_accepts_valid_files:
  "Load read_file decode parse path = Inr rs \<longleftrightarrow>
     (\<exists>data decoded. read_file path = Some data \<and> decode data = Some decoded \<and>
        rs = map (\<lambda>r. if rt_Timeout r = 0 then r\<lparr>rt_Timeout := defaultTimeout\<rparr> else r) decoded \<and>
        valid_routes parse rs)"
proof -
  have v: "Validate parse rs = None \<longleftrightarrow> valid_routes parse rs" for rs
    by (simp add: Validate_def validate_loop_iff valid_routes_def)
  then have "(\<exists>e. Validate parse rs = Some e) \<longleftrightarrow> \<not> valid_routes parse rs" for rs
    by (metis not_Some_eq)
  with v show ?thesis by (auto simp: Load_def Let_def split: option.splits)
qed

theorem load_accepts_valid_files_witness:
  "\<exists>rs. Load (\<lambda>p. Some ''yaml'') (\<lambda>d. Some [photos_route, thumbs_route]) photos_url ''routes.yaml'' = Inr rs \<and>
     valid_routes photos_url rs"
proof -
  have l: "Load (\<lambda>p. Some ''yaml'') (\<lambda>d. Some [photos_route, thumbs_route]) photos_url ''routes.yaml'' =
      Inr loaded_routes"
    using loaded_valid
    by (simp add: Load_def Let_def loaded_routes_def photos_route_def thumbs_route_def second_def)
  then have "valid_routes photos_url loaded_routes"
    using load_accepts_valid_files by blast
  with l show ?thesis by blast
qed

text \<open>
  No extension route can take over, or shadow, a path of the gateway's own endpoints:
  no path the gateway reserves, nor anything below it, matches a route of a validated set,
  whichever method is used.
\<close>

theorem reserved_paths_are_never_matched:
  assumes "NewSet parse rs brk = Inr st" and "reserved_path (r_path r)"
  shows "Match (Some st) r = None \<and> set_BodyLimit (Some st) r = (0, False) \<and> \<not> snd (RateClass (Some st) r)"
proof -
  from assms(1) have "valid_routes parse rs" and st: "routes st = rs"
    by (auto simp: NewSet_def Validate_def validate_loop_iff valid_routes_def split: option.splits)
  then have "\<not> serves x r" if "x \<in> set rs" for x
    using that assms(2) valid_path_avoids_reserved
    by (fastforce simp: valid_routes_def sound_route_def serves_def)
  then have "Match (Some st) r = None"
    by (simp add: Match_def st foldl_match_None)
  then show ?thesis by (simp add: set_BodyLimit_def RateClass_def)
qed

theorem reserved_paths_are_never_matched_witness:
  "Match (Some loaded_set) (photo_request ''/api/v1/auth/login'' []) = None"
proof -
  have "reserved_path (r_path (photo_request ''/api/v1/auth/login'' []))"
    by (simp add: reserved_path_def reservedPrefixes_def photo_request_def)
  from reserved_paths_are_never_matched[OF loaded_NewSet this] show ?thesis by simp
qed

text \<open>
  (C31) On a validated set the route of a request does not depend on the order of the file:
  it is the one route that serves the request's method and path with a path longer than
  that of every other route serving it, and there is none exactly when no route serves it.
\<close>

theorem match_is_the_most_specific:
  assumes "NewSet parse rs brk = Inr st"
  shows "(Match (Some st) r = Some m \<longleftrightarrow>
            m \<in> set rs \<and> serves m r \<and>
            (\<forall>x\<in>set rs. serves x r \<longrightarrow> x = m \<or> length (rt_Path x) < length (rt_Path m))) \<and>
         (Match (Some st) r = None \<longleftrightarrow> (\<forall>x\<in>set rs. \<not> serves x r))"
proof -
  from assms have v: "valid_routes parse rs" and st: "routes st = rs"
    by (auto simp: NewSet_def Validate_def validate_loop_iff valid_routes_def split: option.splits)
  have none: "Match (Some st) r = None \<longleftrightarrow> (\<forall>x\<in>set rs. \<not> serves x r)"
    by (simp add: Match_def st foldl_match_None)
  have best: "n \<in> set rs \<and> serves n r \<and>
      (\<forall>x\<in>set rs. serves x r \<longrightarrow> x = n \<or> length (rt_Path x) < length (rt_Path n))"
    if "Match (Some st) r = Some n" for n
    using foldl_match[of r None rs n] that equal_length_serving_routes[OF v]
    by (fastforce simp: Match_def st le_less)
  have "Match (Some st) r = Some m"
    if "m \<in> set rs" "serves m r"
      "\<forall>x\<in>set rs. serves x r \<longrightarrow> x = m \<or> length (rt_Path x) < length (rt_Path m)"
  proof (cases "Match (Some st) r")
    case None
    with none that show ?thesis by blast
  next
    case (Some n)
    with best[OF Some] that show ?thesis by (metis less_asym)
  qed
  with best none show ?thesis by blast
qed

theorem match_is_the_most_specific_witness:
  "Match (Some loaded_set) (photo_request ''/api/v1/photos/thumbs'' []) = Some thumbs_route"
proof -
  let ?r = "photo_request ''/api/v1/photos/thumbs'' []"
  have "serves thumbs_route ?r" "length (rt_Path photos_route) < length (rt_Path thumbs_route)"
    by code_simp+
  then have "thumbs_route \<in> set loaded_routes \<and> serves thumbs_route ?r \<and>
      (\<forall>x\<in>set loaded_routes. serves x ?r \<longrightarrow> x = thumbs_route \<or> length (rt_Path x) < length (rt_Path thumbs_route))"
    by (simp add: loaded_routes_def)
  then show ?thesis
    using match_is_the_most_specific[OF loaded_NewSet, THEN conjunct1, of ?r thumbs_route] by (rule iffD2[rotated])
qed

text \<open>
  (C32) The upstream learns who is calling from the verified token alone: of the outgoing
  header, cookies and every header that claims an identity are gone, the authorization is
  absent unless the route forwards it and is then exactly the token the gateway verified,
  and every other header passes unchanged.
\<close>

theorem upstream_sees_no_typed_identity:
  assumes "canonical_header (hop (r_header r))"
  shows "map_of (r_header (out_request hop route r)) k =
     (if k = ''Cookie'' \<or> identity_header k then None
      else if k = ''Authorization'' then
        (if rt_ForwardAuthorization route then map_option (\<lambda>t. [''Bearer '' @ t]) (jwt_in r) else None)
      else map_of (hop (r_header r)) k)"
  using prepared_header[OF assms] by (simp add: out_request_def)

theorem upstream_sees_no_typed_identity_witness:
  "map_of (r_header (out_request id photos_route
     (photo_request ''/api/v1/photos/1'' [(''X-User-Id'', [''admin'']), (''Authorization'', [''Bearer forged''])])))
     ''Authorization'' = Some [''Bearer good'']"
proof -
  let ?r = "photo_request ''/api/v1/photos/1'' [(''X-User-Id'', [''admin'']), (''Authorization'', [''Bearer forged''])]"
  have "canonical_header (id (r_header ?r))" "jwt_in ?r = Some ''good''" "rt_ForwardAuthorization photos_route"
    by code_simp+
  then show ?thesis using upstream_sees_no_typed_identity[of id ?r photos_route "''Authorization''"] by simp
qed

text \<open>The decision of an extension route before its upstream is asked: the guard of its
  authentication level, then its breaker.\<close>

definition extension_verdict ::
  "swlib \<Rightarrow> ('b, route_call_error) gobreaker \<Rightarrow> route_set \<Rightarrow> Route \<Rightarrow> request \<Rightarrow> 'b registry \<Rightarrow> int option" where
  "extension_verdict lib gb st route r reg =
     (let ok = (if rt_Auth route = ''user'' then verified_email else admin_claims);
          guarded = (rt_Auth route = ''user'' \<or> rt_Auth route = ''admin'');
          refusal = (case getClaims lib (r_ctx r) of
                       (Some c, True) \<Rightarrow> if ok c then None else Some 403
                     | _ \<Rightarrow> Some 401)
      in if guarded \<and> refusal \<noteq> None then refusal
         else if breakers st \<and> registry_rejects gb (rt_Name route) reg \<noteq> None then Some 503
         else None)"

lemma route_serve_rejected:
  assumes "breakers st" and "registry_rejects gb (rt_Name route) reg = Some e"
    and "e = ErrOpenState \<or> e = ErrTooManyRequests"
  shows "\<exists>reg'. route_serve hop transport gb st route r w (reg, s) =
    (http_error w ''service unavailable'' 503, reg', s)"
  using assms by (auto simp: route_serve_def registry.rejected)

lemma route_serve_accepted:
  assumes "\<not> breakers st \<or> registry_rejects gb (rt_Name route) reg = None"
  shows "\<exists>reg'. route_serve hop transport gb st route r w (reg, s) =
    (fst (snd (proxy_serve hop transport route r w s)), reg',
     snd (snd (proxy_serve hop transport route r w s)))"
proof (cases "breakers st")
  case True
  with assms have "registry_rejects gb (rt_Name route) reg = None" by simp
  from True registry.accepted[OF this, of "proxy_call hop transport route r" "(w, s)"] show ?thesis
    by (cases "proxy_serve hop transport route r w s") (simp add: route_serve_def proxy_call_def)
next
  case False
  then show ?thesis
    by (cases "proxy_serve hop transport route r w s") (simp add: route_serve_def)
qed

lemma proxy_serve_state:
  "snd (snd (proxy_serve hop transport route r w s)) =
   snd (transport (rt_Upstream route) (rt_Timeout route) (out_request hop route r) s)"
  by (auto simp: proxy_serve_def split: prod.splits upstream_answer.splits)

text \<open>
  A request an extension route refuses (401, 403) or whose breaker is open (503) never
  reaches the upstream: the world behind the transport is untouched.  Any other request is
  sent there exactly once, and the response is what the proxy made of the answer.  A breaker
  rejects with one of \<open>gobreaker\<close>'s two errors.
\<close>

theorem refused_requests_never_reach_upstream:
  assumes "\<And>b e. fst (accept gb b) = Some e \<Longrightarrow> e = ErrOpenState \<or> e = ErrTooManyRequests"
    and "committed w = None"
  shows "(case extension_verdict lib gb st route r reg of
      Some code \<Rightarrow>
        snd (snd (ext_handler lib hop transport gb st route r w (reg, s))) = s \<and>
        status_of (fst (ext_handler lib hop transport gb st route r w (reg, s))) = Some code
    | None \<Rightarrow>
        snd (snd (ext_handler lib hop transport gb st route r w (reg, s))) =
          snd (transport (rt_Upstream route) (rt_Timeout route) (out_request hop route r) s) \<and>
        fst (ext_handler lib hop transport gb st route r w (reg, s)) =
          fst (snd (proxy_serve hop transport route r w s)))"
proof -
  let ?rej = "registry_rejects gb (rt_Name route) reg"
  have serve: "(if breakers st \<and> ?rej \<noteq> None
      then \<exists>reg'. route_serve hop transport gb st route r w (reg, s) =
        (http_error w ''service unavailable'' 503, reg', s)
      else \<exists>reg'. route_serve hop transport gb st route r w (reg, s) =
        (fst (snd (proxy_serve hop transport route r w s)), reg',
         snd (snd (proxy_serve hop transport route r w s))))"
  proof (cases "breakers st \<and> ?rej \<noteq> None")
    case True
    then obtain e where e: "breakers st" "?rej = Some e" by auto
    then have "e = ErrOpenState \<or> e = ErrTooManyRequests"
      using assms(1) by (auto simp: registry_rejects_def split: option.splits)
    with e show ?thesis by (simp add: route_serve_rejected)
  next
    case False
    then have "\<not> breakers st \<or> ?rej = None" by auto
    then show ?thesis unfolding if_not_P[OF False] by (rule route_serve_accepted)
  qed
  obtain co ok where c: "getClaims lib (r_ctx r) = (co, ok)" by fastforce
  show ?thesis
    using serve assms(2) c
    by (cases co; cases ok)
       (auto simp: ext_handler_def extension_verdict_def verified.mw_decide admin.mw_decide
         guard_decide_def proxy_serve_state split: if_splits)
qed

theorem refused_requests_never_reach_upstream_witness:
  "let gb = \<lparr>newCircuitBreaker = (\<lambda>_. False), accept = (\<lambda>open. (if open then Some ErrOpenState else None, open)),
       account = (\<lambda>open ok. \<not> ok)\<rparr>;
     out = ext_handler plain_swlib id (\<lambda>u t r n. (Answer 200 [] ''ok'', Suc n)) gb loaded_set photos_route
       (photo_request ''/api/v1/photos/1'' []) fresh_response ([(''photos'', False)], 0)
   in snd (snd out) = 0 \<and> status_of (fst out) = Some 401"
proof -
  define gb :: "(bool, route_call_error) gobreaker" where
    "gb = \<lparr>newCircuitBreaker = (\<lambda>_. False), accept = (\<lambda>open. (if open then Some ErrOpenState else None, open)),
       account = (\<lambda>open ok. \<not> ok)\<rparr>"
  have gb: "e = ErrOpenState \<or> e = ErrTooManyRequests" if "fst (accept gb b) = Some e" for b e
    using that by (simp add: gb_def split: if_splits)
  have "committed fresh_response = None" by (simp add: fresh_response_def)
  note t = refused_requests_never_reach_upstream[where gb = gb, OF gb this]
  have v: "extension_verdict plain_swlib gb loaded_set photos_route (photo_request ''/api/v1/photos/1'' []) reg = Some 401"
    for reg
    by (simp add: extension_verdict_def photos_route_def photo_request_def plain_swlib_def stored_claims_def
        ctx_value_def)
  show ?thesis
    using t[where lib = plain_swlib and st = loaded_set and route = photos_route
        and r = "photo_request ''/api/v1/photos/1'' []" and reg = "[(''photos'', False)]"
        and hop = id and transport = "\<lambda>u t r n. (Answer 200 [] ''ok'', Suc n)" and s = 0]
    by (simp add: v Let_def flip: gb_def)
qed

end
