(* ===== verification/Service_Token.thy ===== *)
theory Service_Token
  imports Go_Time
begin

text \<open>
  \<open>internal/servicetoken/manager.go\<close>: the background refresh of the gateway's own service
  token.  A fetch ends in one of four ways; a panic of the fetcher is turned into an error by
  the child goroutine, and a fetch that exceeds the timeout is abandoned.  The lock sections
  of the manager are its atomic operations.
\<close>

record manager =
  token :: string
  expiry :: int
  staleLogged :: bool
  lastStaleLog :: int
  retryDelay :: int

definition New_manager :: "manager" where
  "New_manager = \<lparr>token = '''', expiry = zero_time, staleLogged = False, lastStaleLog = zero_time,
     retryDelay = 30 * time_second\<rparr>"

datatype fetch = Fetched string int | FetchError | FetchPanic | FetchTimeout

text \<open>\<open>noteStale\<close> reads the clock twice; the second component tells whether it logged.\<close>

definition noteStale :: "int \<Rightarrow> int \<Rightarrow> manager \<Rightarrow> manager \<times> bool" where
  "noteStale now1 now2 m =
     (if \<not> expiry m < now1 then (m, False)
      else if \<not> staleLogged m \<or> time_hour \<le> time_sub now2 (lastStaleLog m)
      then (m\<lparr>staleLogged := True, lastStaleLog := now2\<rparr>, True)
      else (m, False))"

definition refresh :: "fetch \<Rightarrow> int \<Rightarrow> int \<Rightarrow> manager \<Rightarrow> manager \<times> bool" where
  "refresh res now1 now2 m =
     (case res of
        Fetched t validUntil \<Rightarrow> (m\<lparr>token := t, expiry := validUntil, staleLogged := False\<rparr>, False)
      | _ \<Rightarrow> noteStale now1 now2 m)"

text \<open>The wait of \<open>run\<close> before the next refresh, in 64-bit arithmetic.\<close>

definition refresh_ttl :: "int \<Rightarrow> manager \<Rightarrow> int" where
  "refresh_ttl now m =
     (if expiry m \<noteq> zero_time then
        (let until = wrap64 (time_sub (expiry m) now - 3 * time_minute)
         in if 0 < until then until else retryDelay m)
      else retryDelay m)"

definition Token :: "manager \<Rightarrow> string" where
  "Token m = token m"

text \<open>The loop of \<open>run\<close>: at each turn the clock says when the wait begins, the wait is
  \<open>refresh_ttl\<close>, and then a fetch ends in some way, some time later.  A run is the list of
  its logged stale instants and its last state.\<close>

record turn =
  tn_result :: fetch
  tn_now1 :: int
  tn_now2 :: int

fun run_loop :: "turn list \<Rightarrow> manager \<Rightarrow> manager \<times> int list" where
  "run_loop [] m = (m, [])"
| "run_loop (t # ts) m =
     (let (m', logged) = refresh (tn_result t) (tn_now1 t) (tn_now2 t) m;
          (m'', rest) = run_loop ts m'
      in (m'', (if logged then [tn_now2 t] else []) @ rest))"

section \<open>Lemmas\<close>

definition failed :: "fetch \<Rightarrow> bool" where
  "failed f \<longleftrightarrow> (case f of Fetched _ _ \<Rightarrow> False | _ \<Rightarrow> True)"

lemma noteStale_keeps: "token (fst (noteStale a b m)) = token m \<and> expiry (fst (noteStale a b m)) = expiry m"
  by (simp add: noteStale_def)

lemma refresh_failed: "failed f \<Longrightarrow> refresh f a b m = noteStale a b m"
  by (cases f) (simp_all add: failed_def refresh_def)

text \<open>Instants that are one hour apart, each at least an hour after \<open>from\<close>.\<close>

fun hourly :: "int \<Rightarrow> int list \<Rightarrow> bool" where
  "hourly from [] = True"
| "hourly from (t # ts) = (from + time_hour \<le> t \<and> hourly t ts)"

text \<open>The saturation of \<open>Sub\<close> never decides whether an hour has passed.\<close>

lemma hour_passed: "time_hour \<le> time_sub a b \<longleftrightarrow> b + time_hour \<le> a"
  by (auto simp: time_sub_def time_hour_def time_minute_def time_second_def)

lemma noteStale_cases:
  "noteStale a b m =
     (if expiry m < a \<and> (staleLogged m \<longrightarrow> lastStaleLog m + time_hour \<le> b)
      then (m\<lparr>staleLogged := True, lastStaleLog := b\<rparr>, True) else (m, False))"
  by (simp add: noteStale_def hour_passed)

lemma failing_run_Cons:
  assumes "failed (tn_result t)"
  shows "run_loop (t # ts) m =
    (if expiry m < tn_now1 t \<and> (staleLogged m \<longrightarrow> lastStaleLog m + time_hour \<le> tn_now2 t)
     then (let (m', logs) = run_loop ts (m\<lparr>staleLogged := True, lastStaleLog := tn_now2 t\<rparr>) in (m', tn_now2 t # logs))
     else run_loop ts m)"
proof -
  let ?stale = "expiry m < tn_now1 t \<and> (staleLogged m \<longrightarrow> lastStaleLog m + time_hour \<le> tn_now2 t)"
  have "refresh (tn_result t) (tn_now1 t) (tn_now2 t) m =
      (if ?stale then (m\<lparr>staleLogged := True, lastStaleLog := tn_now2 t\<rparr>, True) else (m, False))"
    unfolding refresh_failed[OF assms] by (rule noteStale_cases)
  then show ?thesis by (cases ?stale) (simp_all only: run_loop.simps if_True if_False Let_def prod.case, auto split: prod.split)
qed

declare run_loop.simps(2) [simp del]

text \<open>The logged instants of failing turns are an hour apart, those of a manager that has
  already logged also from its last one.\<close>

lemma failing_run_hourly:
  assumes "\<forall>t\<in>set ts. failed (tn_result t)"
  shows "staleLogged m \<Longrightarrow> hourly (lastStaleLog m) (snd (run_loop ts m))"
    and "case snd (run_loop ts m) of [] \<Rightarrow> True | l # ls \<Rightarrow> hourly l ls"
proof -
  have logged: "staleLogged m \<Longrightarrow> hourly (lastStaleLog m) (snd (run_loop ts m))"
    if "\<forall>t\<in>set ts. failed (tn_result t)" for ts m
    using that
  proof (induction ts arbitrary: m)
    case (Cons t ts)
    let ?m = "m\<lparr>staleLogged := True, lastStaleLog := tn_now2 t\<rparr>"
    from Cons.IH[of ?m] Cons.IH[of m] Cons.prems show ?case
      by (auto simp: failing_run_Cons split: prod.split)
  qed simp
  show "staleLogged m \<Longrightarrow> hourly (lastStaleLog m) (snd (run_loop ts m))" using logged assms .
  show "case snd (run_loop ts m) of [] \<Rightarrow> True | l # ls \<Rightarrow> hourly l ls" using assms
  proof (induction ts arbitrary: m)
    case (Cons t ts)
    let ?m = "m\<lparr>staleLogged := True, lastStaleLog := tn_now2 t\<rparr>"
    from Cons.IH[of m] Cons.prems logged[of ts ?m] show ?case
      by (auto simp: failing_run_Cons split: prod.split)
  qed simp
qed

text \<open>After a failure with an expired token the last report is less than an hour old.\<close>

lemma failing_run_reports:
  assumes "\<forall>t\<in>set (ts @ [t]). failed (tn_result t)" and "expiry m < tn_now1 t"
  shows "\<exists>l. (l \<in> set (snd (run_loop (ts @ [t]) m)) \<or> staleLogged m \<and> l = lastStaleLog m) \<and> tn_now2 t < l + time_hour"
  using assms
proof (induction ts arbitrary: m)
  case Nil
  then show ?case
    by (auto simp: failing_run_Cons not_le time_hour_def time_minute_def time_second_def)
next
  case (Cons a ts)
  let ?m = "m\<lparr>staleLogged := True, lastStaleLog := tn_now2 a\<rparr>"
  from Cons.IH[of m] Cons.IH[of ?m] Cons.prems show ?case
    by (auto simp: failing_run_Cons split: prod.splits)
qed

lemma failing_run_keeps:
  "\<forall>t\<in>set ts. failed (tn_result t) \<Longrightarrow> token (fst (run_loop ts m)) = token m \<and> expiry (fst (run_loop ts m)) = expiry m"
proof (induction ts arbitrary: m)
  case (Cons t ts)
  from Cons.IH[of m] Cons.IH[of "m\<lparr>staleLogged := True, lastStaleLog := tn_now2 t\<rparr>"] Cons.prems show ?case
    by (auto simp: failing_run_Cons split: prod.split)
qed simp

section \<open>Properties\<close>

text \<open>
  The wait before a refresh is never zero or negative and never lost to overflow: with
  no token yet, or one that ends within three minutes or has ended, the loop retries after
  the retry delay; otherwise it refreshes exactly three minutes before the expiry.
\<close>

theorem refresh_ahead_of_expiry:
  assumes "0 < retryDelay m" and "expiry m = zero_time \<or> \<bar>expiry m - now\<bar> < 2 ^ 63 - 3 * time_minute"
  shows "0 < refresh_ttl now m \<and>
    refresh_ttl now m =
      (if expiry m \<noteq> zero_time \<and> now + 3 * time_minute < expiry m
       then expiry m - 3 * time_minute - now else retryDelay m)"
proof (cases "expiry m = zero_time")
  case True
  with assms(1) show ?thesis by (simp add: refresh_ttl_def)
next
  case False
  with assms(2) have b: "\<bar>expiry m - now\<bar> < 2 ^ 63 - 3 * time_minute" by simp
  then have "time_sub (expiry m) now = expiry m - now"
    by (intro time_sub_exact) (simp add: time_minute_def time_second_def)
  moreover have "wrap64 (expiry m - now - 3 * time_minute) = expiry m - now - 3 * time_minute"
    using b by (intro wrap64_exact) (simp_all add: time_minute_def time_second_def abs_less_iff)
  ultimately show ?thesis using False assms(1) by (simp add: refresh_ttl_def)
qed

definition demo_manager :: manager where
  "demo_manager = New_manager\<lparr>token := ''t1'', expiry := 1000 * time_minute\<rparr>"

theorem refresh_ahead_of_expiry_witness:
  "refresh_ttl (900 * time_minute) demo_manager = 97 * time_minute \<and>
   refresh_ttl (998 * time_minute) demo_manager = 30 * time_second"
proof -
  have "expiry demo_manager \<noteq> zero_time"
    by (simp add: demo_manager_def zero_time_def time_minute_def time_second_def)
  moreover have "0 < retryDelay demo_manager"
    by (simp add: demo_manager_def New_manager_def time_second_def)
  moreover have "\<bar>expiry demo_manager - k * time_minute\<bar> < 2 ^ 63 - 3 * time_minute" if "k \<in> {900, 998}" for k
    using that by (auto simp: demo_manager_def time_minute_def time_second_def)
  ultimately show ?thesis
    using refresh_ahead_of_expiry[of demo_manager "900 * time_minute"]
      refresh_ahead_of_expiry[of demo_manager "998 * time_minute"]
    by (simp add: demo_manager_def New_manager_def time_minute_def time_second_def)
qed

text \<open>
  The guard for the zero time is needed: without it the wait computed from the zero
  expiry would wrap around to more than 200 years, for every clock between 1970 and 2200.
\<close>

theorem zero_expiry_would_stall:
  assumes "0 \<le> now" and "now < 230 * 365 * 24 * time_hour"
  shows "200 * 365 * 24 * time_hour < wrap64 (time_sub zero_time now - 3 * time_minute) \<and>
    expiry New_manager = zero_time \<and> refresh_ttl now New_manager = 30 * time_second"
proof -
  have "time_sub zero_time now = - (2 ^ 63)"
    using assms by (simp add: time_sub_def zero_time_def)
  then show ?thesis
    by (simp add: wrap64_def New_manager_def refresh_ttl_def time_hour_def time_minute_def time_second_def)
qed

theorem zero_expiry_would_stall_witness:
  "refresh_ttl (56 * 365 * 24 * time_hour) New_manager = 30 * time_second"
  using zero_expiry_would_stall[of "56 * 365 * 24 * time_hour"]
  by (simp add: time_hour_def time_minute_def time_second_def)

text \<open>
  (C38) Failing refreshes, by error, panic or timeout, never take a token away, however long
  they go on and whatever the clock does.  And they are reported: after any failure that finds
  the token expired, the last report is less than an hour old, while no two reports of a run of
  failures are less than an hour apart, the one before the run included.
\<close>

theorem failed_refreshes_keep_the_token:
  assumes "\<forall>t\<in>set ts. failed (tn_result t)"
  shows "Token (fst (run_loop ts m)) = Token m \<and> expiry (fst (run_loop ts m)) = expiry m \<and>
    (\<forall>pre t post. ts = pre @ t # post \<and> expiry m < tn_now1 t \<longrightarrow>
       (\<exists>l. (l \<in> set (snd (run_loop (pre @ [t]) m)) \<or> staleLogged m \<and> l = lastStaleLog m) \<and>
            tn_now2 t < l + time_hour)) \<and>
    (case snd (run_loop ts m) of [] \<Rightarrow> True | l # ls \<Rightarrow> hourly l ls) \<and>
    (staleLogged m \<longrightarrow> hourly (lastStaleLog m) (snd (run_loop ts m)))"
proof -
  have "\<exists>l. (l \<in> set (snd (run_loop (pre @ [t]) m)) \<or> staleLogged m \<and> l = lastStaleLog m) \<and> tn_now2 t < l + time_hour"
    if "ts = pre @ t # post" "expiry m < tn_now1 t" for pre t post
    using that assms by (intro failing_run_reports) auto
  with failing_run_keeps[OF assms, of m] failing_run_hourly[OF assms, of m] show ?thesis
    by (auto simp: Token_def)
qed

text \<open>A manager that has never reported, whose token expires while the fetches time out.\<close>

theorem failed_refreshes_keep_the_token_witness:
  "let m = New_manager\<lparr>token := ''t1'', expiry := 1000 * time_minute\<rparr>;
       ts = map (\<lambda>k. \<lparr>tn_result = FetchTimeout, tn_now1 = k * time_minute, tn_now2 = k * time_minute\<rparr>) [990, 1010, 1030, 1080]
   in Token (fst (run_loop ts m)) = ''t1'' \<and> snd (run_loop ts m) = [1010 * time_minute, 1080 * time_minute] \<and>
      hourly (1010 * time_minute) [1080 * time_minute]"
proof -
  let ?m = "New_manager\<lparr>token := ''t1'', expiry := 1000 * time_minute\<rparr>"
  let ?ts = "map (\<lambda>k. \<lparr>tn_result = FetchTimeout, tn_now1 = k * time_minute, tn_now2 = k * time_minute\<rparr>) [990, 1010, 1030, 1080]"
  have f: "\<forall>t\<in>set ?ts. failed (tn_result t)" by (simp add: failed_def)
  have logs: "snd (run_loop ?ts ?m) = [1010 * time_minute, 1080 * time_minute]"
    by (simp add: failing_run_Cons failed_def New_manager_def time_hour_def time_minute_def time_second_def)
  from failed_refreshes_keep_the_token[OF f, of ?m] show ?thesis
    unfolding Let_def logs by (simp add: Token_def)
qed

end
