(* ===== verification/Json_Model.thy ===== *)
theory Json_Model
  imports Prelude_Go
begin

text \<open>
  \<open>encoding/json\<close> as the gateway uses it: values, the compact text \<open>Marshal\<close> writes (with
  the HTML-safe escapes of strings), and the parser behind \<open>Unmarshal\<close>.  Texts are taken to be
  valid UTF-8, as \<open>valid_utf8\<close> says: other bytes, which Go replaces, are kept here.  A number is kept as its literal, as a \<open>RawMessage\<close> keeps it.  The round trip and
  the absence of raw line breaks are what the job results and the event stream rest on.
\<close>

datatype json =
    JNull
  | JBool bool
  | JNum string
  | JStr string
  | JArr "json list"
  | JObj "(string \<times> json) list"

section \<open>Writing\<close>

definition hex_char :: "nat \<Rightarrow> char" where
  "hex_char n = char_of (if n < 10 then 48 + n else 87 + n)"

definition escape_char :: "char \<Rightarrow> string" where
  "escape_char c =
     (let n = of_char c :: nat
      in if c = CHR 0x22 \<or> c = CHR 0x5C then [CHR 0x5C, c]
         else if n = 8 then [CHR 0x5C, CHR ''b'']
         else if n = 12 then [CHR 0x5C, CHR ''f'']
         else if n = 10 then [CHR 0x5C, CHR ''n'']
         else if n = 13 then [CHR 0x5C, CHR ''r'']
         else if n = 9 then [CHR 0x5C, CHR ''t'']
         else if n < 32 \<or> n = 60 \<or> n = 62 \<or> n = 38
         then [CHR 0x5C, CHR ''u'', CHR ''0'', CHR ''0'', hex_char (n div 16), hex_char (n mod 16)]
         else [c])"

text \<open>U+2028 and U+2029, three bytes each, are escaped too.\<close>

fun escape_json :: "string \<Rightarrow> string" where
  "escape_json [] = []"
| "escape_json (c # d # e # s) =
     (if c = CHR 0xE2 \<and> d = CHR 0x80 \<and> (e = CHR 0xA8 \<or> e = CHR 0xA9)
      then [CHR 0x5C, CHR ''u'', CHR ''2'', CHR ''0'', CHR ''2'', if e = CHR 0xA8 then CHR ''8'' else CHR ''9'']
           @ escape_json s
      else escape_char c @ escape_json (d # e # s))"
| "escape_json (c # s) = escape_char c @ escape_json s"

definition print_string :: "string \<Rightarrow> string" where
  "print_string s = [CHR 0x22] @ escape_json s @ [CHR 0x22]"

fun print_json :: "json \<Rightarrow> string"
  and print_elems :: "json list \<Rightarrow> string"
  and print_members :: "(string \<times> json) list \<Rightarrow> string" where
  "print_json JNull = ''null''"
| "print_json (JBool b) = show_bool b"
| "print_json (JNum s) = s"
| "print_json (JStr s) = print_string s"
| "print_json (JArr xs) = ''['' @ print_elems xs @ '']''"
| "print_json (JObj ms) = ''{'' @ print_members ms @ ''}''"
| "print_elems [] = ''''"
| "print_elems [x] = print_json x"
| "print_elems (x # y # ys) = print_json x @ '','' @ print_elems (y # ys)"
| "print_members [] = ''''"
| "print_members [(k, v)] = print_string k @ '':'' @ print_json v"
| "print_members ((k, v) # m # ms) = print_string k @ '':'' @ print_json v @ '','' @ print_members (m # ms)"

section \<open>Reading\<close>

definition json_space :: "char \<Rightarrow> bool" where
  "json_space c \<longleftrightarrow> c = CHR 0x20 \<or> c = CHR 0x09 \<or> c = CHR 0x0A \<or> c = CHR 0x0D"

definition skip_ws :: "string \<Rightarrow> string" where
  "skip_ws s = dropWhile json_space s"

definition is_digit :: "char \<Rightarrow> bool" where
  "is_digit c = (let n = of_char c :: nat in 48 \<le> n \<and> n \<le> 57)"

definition num_char :: "char \<Rightarrow> bool" where
  "num_char c \<longleftrightarrow> is_digit c \<or> c \<in> {CHR ''+'', CHR ''-'', CHR ''.'', CHR ''e'', CHR ''E''}"

definition digits1 :: "string \<Rightarrow> bool" where
  "digits1 s \<longleftrightarrow> s \<noteq> [] \<and> list_all is_digit s"

definition exponent_ok :: "string \<Rightarrow> bool" where
  "exponent_ok s =
     (case s of [] \<Rightarrow> True
      | c # r \<Rightarrow> (c = CHR ''e'' \<or> c = CHR ''E'') \<and>
          (case r of [] \<Rightarrow> False
           | d # r' \<Rightarrow> if d = CHR ''+'' \<or> d = CHR ''-'' then digits1 r' else digits1 r))"

definition fraction_ok :: "string \<Rightarrow> bool" where
  "fraction_ok s =
     (case s of [] \<Rightarrow> True
      | c # r \<Rightarrow>
          if c = CHR ''.'' then takeWhile is_digit r \<noteq> [] \<and> exponent_ok (dropWhile is_digit r)
          else exponent_ok s)"

definition is_number :: "string \<Rightarrow> bool" where
  "is_number s =
     (let b = (case s of c # r \<Rightarrow> if c = CHR ''-'' then r else s | [] \<Rightarrow> []);
          i = takeWhile is_digit b
      in i \<noteq> [] \<and> (hd i = CHR ''0'' \<longrightarrow> length i = 1) \<and> fraction_ok (dropWhile is_digit b))"

definition hex_of :: "char \<Rightarrow> nat option" where
  "hex_of c =
     (let n = of_char c :: nat
      in if 48 \<le> n \<and> n \<le> 57 then Some (n - 48)
         else if 97 \<le> n \<and> n \<le> 102 then Some (n - 87)
         else if 65 \<le> n \<and> n \<le> 70 then Some (n - 55) else None)"

definition hex4 :: "char \<Rightarrow> char \<Rightarrow> char \<Rightarrow> char \<Rightarrow> nat option" where
  "hex4 a b c d =
     (case (hex_of a, hex_of b, hex_of c, hex_of d) of
        (Some w, Some x, Some y, Some z) \<Rightarrow> Some (4096 * w + 256 * x + 16 * y + z)
      | _ \<Rightarrow> None)"

definition utf8 :: "nat \<Rightarrow> string" where
  "utf8 n =
     (if n < 128 then [char_of n]
      else if n < 2048 then [char_of (192 + n div 64), char_of (128 + n mod 64)]
      else if n < 65536 then [char_of (224 + n div 4096), char_of (128 + n div 64 mod 64), char_of (128 + n mod 64)]
      else [char_of (240 + n div 262144), char_of (128 + n div 4096 mod 64), char_of (128 + n div 64 mod 64),
            char_of (128 + n mod 64)])"

definition unescape_char :: "char \<Rightarrow> char option" where
  "unescape_char c =
     (if c = CHR 0x22 \<or> c = CHR 0x5C \<or> c = CHR ''/'' then Some c
      else if c = CHR ''b'' then Some (CHR 0x08) else if c = CHR ''f'' then Some (CHR 0x0C)
      else if c = CHR ''n'' then Some (CHR 0x0A) else if c = CHR ''r'' then Some (CHR 0x0D)
      else if c = CHR ''t'' then Some (CHR 0x09) else None)"

definition prepend :: "string \<Rightarrow> (string \<times> string) option \<Rightarrow> (string \<times> string) option" where
  "prepend p r = map_option (\<lambda>(a, b). (p @ a, b)) r"

text \<open>The value of a four-digit escape and, for a leading surrogate, of the escape after it;
  the count is of the characters of that second escape.\<close>

definition surrogate :: "nat \<Rightarrow> string \<Rightarrow> string \<times> nat" where
  "surrogate n s =
     (if 55296 \<le> n \<and> n < 57344 then
        (case s of
           b # u # p # q # r # t # _ \<Rightarrow>
             (case hex4 p q r t of
                Some m \<Rightarrow>
                  if b = CHR 0x5C \<and> u = CHR ''u'' \<and> n < 56320 \<and> 56320 \<le> m \<and> m < 57344
                  then (utf8 ((n - 55296) * 1024 + (m - 56320) + 65536), 6)
                  else (utf8 65533, 0)
              | None \<Rightarrow> (utf8 65533, 0))
         | _ \<Rightarrow> (utf8 65533, 0))
      else (utf8 n, 0))"

function unquote :: "string \<Rightarrow> (string \<times> string) option" where
  "unquote s =
     (case s of
        [] \<Rightarrow> None
      | c # cs \<Rightarrow>
          if c = CHR 0x22 then Some ([], cs)
          else if c = CHR 0x5C then
            (case cs of
               [] \<Rightarrow> None
             | e # es \<Rightarrow>
                 if e = CHR ''u'' then
                   (if length es < 4 then None
                    else case hex4 (es ! 0) (es ! 1) (es ! 2) (es ! 3) of
                           None \<Rightarrow> None
                         | Some n \<Rightarrow>
                             (let rest = drop 4 es; (t, k) = surrogate n rest
                              in prepend t (unquote (drop k rest))))
                 else (case unescape_char e of None \<Rightarrow> None | Some x \<Rightarrow> prepend [x] (unquote es)))
          else if (of_char c :: nat) < 32 then None
          else prepend [c] (unquote cs))"
  by pat_completeness auto
termination
  by (relation "measure length") auto

declare unquote.simps [simp del]

fun parse_value :: "nat \<Rightarrow> string \<Rightarrow> (json \<times> string) option"
  and parse_elems :: "nat \<Rightarrow> string \<Rightarrow> (json list \<times> string) option"
  and parse_members :: "nat \<Rightarrow> string \<Rightarrow> ((string \<times> json) list \<times> string) option" where
  "parse_value 0 s = None"
| "parse_value (Suc n) s =
     (case skip_ws s of
        [] \<Rightarrow> None
      | c # cs \<Rightarrow>
          if c = CHR 0x22 then map_option (\<lambda>(x, r). (JStr x, r)) (unquote cs)
          else if c = CHR ''['' then
            (case skip_ws cs of
               d # r \<Rightarrow> if d = CHR '']'' then Some (JArr [], r)
                         else map_option (\<lambda>(xs, r'). (JArr xs, r')) (parse_elems n cs)
             | [] \<Rightarrow> None)
          else if c = CHR ''{'' then
            (case skip_ws cs of
               d # r \<Rightarrow> if d = CHR ''}'' then Some (JObj [], r)
                         else map_option (\<lambda>(ms, r'). (JObj ms, r')) (parse_members n cs)
             | [] \<Rightarrow> None)
          else if has_prefix (c # cs) ''null'' then Some (JNull, drop 3 cs)
          else if has_prefix (c # cs) ''true'' then Some (JBool True, drop 3 cs)
          else if has_prefix (c # cs) ''false'' then Some (JBool False, drop 4 cs)
          else
            (let t = takeWhile num_char (c # cs)
             in if is_number t then Some (JNum t, dropWhile num_char (c # cs)) else None))"
| "parse_elems 0 s = None"
| "parse_elems (Suc n) s =
     (case parse_value n s of
        None \<Rightarrow> None
      | Some (v, r) \<Rightarrow>
          (case skip_ws r of
             [] \<Rightarrow> None
           | c # r' \<Rightarrow>
               if c = CHR '','' then map_option (\<lambda>(vs, r''). (v # vs, r'')) (parse_elems n r')
               else if c = CHR '']'' then Some ([v], r') else None))"
| "parse_members 0 s = None"
| "parse_members (Suc n) s =
     (case skip_ws s of
        [] \<Rightarrow> None
      | q # s' \<Rightarrow>
          if q \<noteq> CHR 0x22 then None
          else
            (case unquote s' of
               None \<Rightarrow> None
             | Some (k, r) \<Rightarrow>
                 (case skip_ws r of
                    [] \<Rightarrow> None
                  | col # r1 \<Rightarrow>
                      if col \<noteq> CHR '':'' then None
                      else
                        (case parse_value n r1 of
                           None \<Rightarrow> None
                         | Some (v, r2) \<Rightarrow>
                             (case skip_ws r2 of
                                [] \<Rightarrow> None
                              | c # r3 \<Rightarrow>
                                  if c = CHR '','' then map_option (\<lambda>(ms, r4). ((k, v) # ms, r4)) (parse_members n r3)
                                  else if c = CHR ''}'' then Some ([(k, v)], r3) else None)))))"

text \<open>The whole text is one value; its length bounds the nesting.\<close>

definition parse_json :: "string \<Rightarrow> json option" where
  "parse_json s =
     (case parse_value (Suc (length s)) s of
        Some (v, r) \<Rightarrow> if skip_ws r = [] then Some v else None
      | None \<Rightarrow> None)"

section \<open>Strings survive\<close>

lemma hex_of_hex_char: "k < 16 \<Longrightarrow> hex_of (hex_char k) = Some k"
  by (auto simp: hex_of_def hex_char_def Let_def)

lemma hex4_low: "n < 256 \<Longrightarrow> hex4 (CHR ''0'') (CHR ''0'') (hex_char (n div 16)) (hex_char (n mod 16)) = Some n"
proof -
  assume n: "n < 256"
  have "hex_of (CHR ''0'') = Some 0" by code_simp
  moreover have "hex_of (hex_char (n div 16)) = Some (n div 16)" using n by (intro hex_of_hex_char) simp
  moreover have "hex_of (hex_char (n mod 16)) = Some (n mod 16)" by (intro hex_of_hex_char) simp
  ultimately show ?thesis by (simp add: hex4_def)
qed

lemma utf8_low: "n < 128 \<Longrightarrow> utf8 n = [char_of n]"
  by (simp add: utf8_def)

lemma unquote_hex:
  "unquote (CHR 0x5C # CHR ''u'' # a # b # c # d # rest) =
     (case hex4 a b c d of
        None \<Rightarrow> None
      | Some n \<Rightarrow> (case surrogate n rest of (t, k) \<Rightarrow> prepend t (unquote (drop k rest))))"
  by (subst unquote.simps) (simp add: Let_def split: option.split)

lemma unquote_short:
  "e \<noteq> CHR ''u'' \<Longrightarrow> unquote (CHR 0x5C # e # es) =
     (case unescape_char e of None \<Rightarrow> None | Some x \<Rightarrow> prepend [x] (unquote es))"
  by (subst unquote.simps) simp

lemma unquote_plain:
  "c \<noteq> CHR 0x22 \<Longrightarrow> c \<noteq> CHR 0x5C \<Longrightarrow> \<not> (of_char c :: nat) < 32 \<Longrightarrow>
   unquote (c # cs) = prepend [c] (unquote cs)"
  by (subst unquote.simps) simp

lemma escape_plain:
  assumes "c \<noteq> CHR 0x22" "c \<noteq> CHR 0x5C" "(of_char c :: nat) \<notin> {8, 12, 10, 13, 9}"
  shows "escape_char c =
    (if (of_char c :: nat) < 32 \<or> (of_char c :: nat) \<in> {60, 62, 38}
     then [CHR 0x5C, CHR ''u'', CHR ''0'', CHR ''0'', hex_char (of_char c div 16), hex_char (of_char c mod 16)]
     else [c])"
  using assms by (simp add: escape_char_def Let_def del: of_char_eq_iff)

lemma escape_short:
  "escape_char (CHR 0x22) = [CHR 0x5C, CHR 0x22]" "escape_char (CHR 0x5C) = [CHR 0x5C, CHR 0x5C]"
  "escape_char (CHR 0x08) = [CHR 0x5C, CHR ''b'']" "escape_char (CHR 0x0C) = [CHR 0x5C, CHR ''f'']"
  "escape_char (CHR 0x0A) = [CHR 0x5C, CHR ''n'']" "escape_char (CHR 0x0D) = [CHR 0x5C, CHR ''r'']"
  "escape_char (CHR 0x09) = [CHR 0x5C, CHR ''t'']"
  by code_simp+

lemma unescape_short:
  "unescape_char (CHR 0x22) = Some (CHR 0x22)" "unescape_char (CHR 0x5C) = Some (CHR 0x5C)"
  "unescape_char (CHR ''b'') = Some (CHR 0x08)" "unescape_char (CHR ''f'') = Some (CHR 0x0C)"
  "unescape_char (CHR ''n'') = Some (CHR 0x0A)" "unescape_char (CHR ''r'') = Some (CHR 0x0D)"
  "unescape_char (CHR ''t'') = Some (CHR 0x09)"
  by code_simp+

lemma char_of_short:
  "char_of (8 :: nat) = CHR 0x08" "char_of (12 :: nat) = CHR 0x0C" "char_of (10 :: nat) = CHR 0x0A"
  "char_of (13 :: nat) = CHR 0x0D" "char_of (9 :: nat) = CHR 0x09"
  by code_simp+

lemma escape_char_cases:
  obtains "c \<in> {CHR 0x22, CHR 0x5C, CHR 0x08, CHR 0x0C, CHR 0x0A, CHR 0x0D, CHR 0x09}"
  | "c \<noteq> CHR 0x22" "c \<noteq> CHR 0x5C" "(of_char c :: nat) \<notin> {8, 12, 10, 13, 9}"
proof -
  have "c = char_of (of_char c :: nat)" by simp
  then have "(of_char c :: nat) \<in> {8, 12, 10, 13, 9} \<Longrightarrow> c \<in> {CHR 0x08, CHR 0x0C, CHR 0x0A, CHR 0x0D, CHR 0x09}"
    using char_of_short by (elim insertE emptyE) (metis insertCI)+
  then show thesis using that by blast
qed

lemma unquote_escape_char: "unquote (escape_char c @ t) = prepend [c] (unquote t)"
proof (cases c rule: escape_char_cases)
  case 1
  then show ?thesis
    by (elim insertE emptyE) (simp_all add: escape_short unescape_short unquote_short)
next
  case 2
  let ?n = "of_char c :: nat"
  have n: "?n < 256" by simp
  have c: "char_of ?n = c" by simp
  show ?thesis
  proof (cases "?n < 32 \<or> ?n \<in> {60, 62, 38}")
    case True
    then have low: "?n < 128" by auto
    have "surrogate ?n t = ([c], 0)"
      using low utf8_low[OF low] by (simp add: surrogate_def c)
    then show ?thesis
      using hex4_low[OF n] by (simp only: escape_plain[OF 2] True if_True append.simps unquote_hex) simp
  next
    case False
    then have "\<not> ?n < 32" by simp
    then show ?thesis
      unfolding escape_plain[OF 2] if_not_P[OF False] by (simp add: unquote_plain[OF 2(1,2)])
  qed
qed

lemma char_of_high:
  "char_of (226 :: nat) = CHR 0xE2" "char_of (128 :: nat) = CHR 0x80" "char_of (168 :: nat) = CHR 0xA8"
  "char_of (169 :: nat) = CHR 0xA9"
  by code_simp+

lemma hex4_separators:
  "hex4 (CHR ''2'') (CHR ''0'') (CHR ''2'') (CHR ''8'') = Some 8232"
  "hex4 (CHR ''2'') (CHR ''0'') (CHR ''2'') (CHR ''9'') = Some 8233"
  "utf8 8232 = [CHR 0xE2, CHR 0x80, CHR 0xA8]" "utf8 8233 = [CHR 0xE2, CHR 0x80, CHR 0xA9]"
  by (simp_all add: hex4_def hex_of_def utf8_def char_of_high)

lemma surrogate_separators:
  "surrogate 8232 s = ([CHR 0xE2, CHR 0x80, CHR 0xA8], 0)"
  "surrogate 8233 s = ([CHR 0xE2, CHR 0x80, CHR 0xA9], 0)"
  by (simp_all add: surrogate_def hex4_separators)

lemma unquote_line_separator:
  "unquote (CHR 0x5C # CHR ''u'' # CHR ''2'' # CHR ''0'' # CHR ''2'' # CHR ''8'' # t) =
   prepend [CHR 0xE2, CHR 0x80, CHR 0xA8] (unquote t)"
  "unquote (CHR 0x5C # CHR ''u'' # CHR ''2'' # CHR ''0'' # CHR ''2'' # CHR ''9'' # t) =
   prepend [CHR 0xE2, CHR 0x80, CHR 0xA9] (unquote t)"
  by (simp_all only: unquote_hex hex4_separators option.case surrogate_separators prod.case drop_0)

lemma prepend_prepend [simp]: "prepend a (prepend b r) = prepend (a @ b) r"
  by (cases r) (auto simp: prepend_def)

lemma unquote_escape: "unquote (escape_json s @ CHR 0x22 # rest) = Some (s, rest)"
proof -
  have fin: "unquote (CHR 0x22 # rest) = Some ([], rest)" by (simp add: unquote.simps)
  have "unquote (escape_json s @ t) = prepend s (unquote t)" for t
  proof (induction s rule: escape_json.induct)
    case 1
    then show ?case by (cases "unquote t") (auto simp: prepend_def)
  next
    case (2 c d e s)
    show ?case
    proof (cases "c = CHR 0xE2 \<and> d = CHR 0x80 \<and> (e = CHR 0xA8 \<or> e = CHR 0xA9)")
      case True
      with 2(1) have "unquote (escape_json s @ t) = prepend s (unquote t)" by blast
      with True show ?thesis
        by (auto simp: unquote_line_separator)
    next
      case False
      show ?thesis
        by (simp only: escape_json.simps(2) if_not_P[OF False] append_assoc unquote_escape_char 2(2)[OF False]
            prepend_prepend append.simps)
    qed
  qed (simp_all add: unquote_escape_char)
  with fin show ?thesis by (simp add: prepend_def)
qed

lemma unquote_print_string:
  "\<exists>cs. print_string s @ rest = CHR 0x22 # cs \<and> unquote cs = Some (s, rest)"
  using unquote_escape[of s rest] by (simp add: print_string_def)

section \<open>Values survive\<close>

fun wf_json :: "json \<Rightarrow> bool" and wf_elems :: "json list \<Rightarrow> bool" and wf_members :: "(string \<times> json) list \<Rightarrow> bool" where
  "wf_json (JNum s) = is_number s"
| "wf_json (JArr xs) = wf_elems xs"
| "wf_json (JObj ms) = wf_members ms"
| "wf_json v = True"
| "wf_elems [] = True"
| "wf_elems (x # xs) = (wf_json x \<and> wf_elems xs)"
| "wf_members [] = True"
| "wf_members ((k, v) # ms) = (wf_json v \<and> wf_members ms)"

fun jfuel :: "json \<Rightarrow> nat" and efuel :: "json list \<Rightarrow> nat" and mfuel :: "(string \<times> json) list \<Rightarrow> nat" where
  "jfuel (JArr xs) = Suc (efuel xs)"
| "jfuel (JObj ms) = Suc (mfuel ms)"
| "jfuel v = 1"
| "efuel [] = 0"
| "efuel (x # xs) = Suc (jfuel x + efuel xs)"
| "mfuel [] = 0"
| "mfuel ((k, v) # ms) = Suc (jfuel v + mfuel ms)"

definition ends_number :: "string \<Rightarrow> bool" where
  "ends_number rest \<longleftrightarrow> (rest = [] \<or> \<not> num_char (hd rest))"

lemma takeWhile_digits: "list_all is_digit (takeWhile is_digit s)"
  by (auto simp: list_all_iff dest: set_takeWhileD)

lemma digit_num: "list_all is_digit s \<Longrightarrow> list_all num_char s"
  by (auto simp: list_all_iff num_char_def)

lemma exponent_num: "exponent_ok s \<Longrightarrow> list_all num_char s"
  by (auto simp: exponent_ok_def digits1_def digit_num num_char_def split: list.splits if_splits
      dest: digit_num)

lemma fraction_num: "fraction_ok s \<Longrightarrow> list_all num_char s"
proof (cases s)
  case (Cons c r)
  assume f: "fraction_ok s"
  show ?thesis
  proof (cases "c = CHR ''.''")
    case True
    with f Cons have "list_all num_char (dropWhile is_digit r)"
      by (simp add: fraction_ok_def exponent_num)
    then have "list_all num_char (takeWhile is_digit r @ dropWhile is_digit r)"
      by (simp only: list_all_append digit_num takeWhile_digits simp_thms)
    then have "list_all num_char r" by simp
    with Cons True show ?thesis by (simp add: num_char_def)
  next
    case False
    with f Cons have "exponent_ok (c # r)" by (simp add: fraction_ok_def)
    with Cons show ?thesis by (simp only: exponent_num)
  qed
qed simp

lemma number_chars:
  assumes "is_number s"
  shows "list_all num_char s" and "\<exists>c cs. s = c # cs \<and> (is_digit c \<or> c = CHR ''-'')"
proof -
  define b where "b = (case s of c # r \<Rightarrow> if c = CHR ''-'' then r else s | [] \<Rightarrow> [])"
  have b1: "takeWhile is_digit b \<noteq> []" "fraction_ok (dropWhile is_digit b)"
    using assms by (auto simp: is_number_def Let_def b_def)
  then have "list_all num_char (takeWhile is_digit b @ dropWhile is_digit b)"
    by (simp only: list_all_append digit_num takeWhile_digits fraction_num simp_thms)
  then have nb: "list_all num_char b" by simp
  have s: "s = b \<or> s = CHR ''-'' # b" using b1(1) by (auto simp: b_def split: list.splits if_splits)
  with nb show "list_all num_char s" by (auto simp: num_char_def)
  from b1(1) obtain c cs where "b = c # cs" "is_digit c" by (cases b) (auto split: if_splits)
  with s show "\<exists>c cs. s = c # cs \<and> (is_digit c \<or> c = CHR ''-'')" by blast
qed

lemma takeWhile_number:
  assumes "is_number s" and "ends_number rest"
  shows "takeWhile num_char (s @ rest) = s" and "dropWhile num_char (s @ rest) = rest"
  using number_chars(1)[OF assms(1)] assms(2)
  by (cases rest; simp add: ends_number_def list_all_iff takeWhile_append2 dropWhile_append2)+

lemma digit_head:
  assumes "is_digit c \<or> c = CHR ''-''"
  shows "\<not> json_space c" and "c \<notin> {CHR 0x22, CHR ''['', CHR ''{'', CHR ''n'', CHR ''t'', CHR ''f'', CHR '']'', CHR ''}''}"
  using assms by (auto simp: is_digit_def json_space_def)

lemma print_head:
  "wf_json v \<Longrightarrow> \<exists>c cs. print_json v = c # cs \<and> \<not> json_space c \<and> c \<noteq> CHR '']'' \<and> c \<noteq> CHR ''}''"
proof (cases v)
  case (JNum s)
  assume "wf_json v"
  with JNum obtain c cs where s: "s = c # cs" "is_digit c \<or> c = CHR ''-''"
    using number_chars(2)[of s] by auto
  with digit_head[OF s(2)] JNum show ?thesis by simp
qed (auto simp: show_bool_def print_string_def json_space_def)

lemma skip_ws_head: "\<not> json_space c \<Longrightarrow> skip_ws (c # cs) = c # cs"
  by (simp add: skip_ws_def)

lemma json_spaces [simp]:
  "\<not> json_space (CHR 0x22)" "\<not> json_space (CHR ''['')" "\<not> json_space (CHR ''{'')" "\<not> json_space (CHR '']'')"
  "\<not> json_space (CHR ''}'')" "\<not> json_space (CHR '','')" "\<not> json_space (CHR '':'')"
  "\<not> json_space (CHR ''n'')" "\<not> json_space (CHR ''t'')" "\<not> json_space (CHR ''f'')"
  by code_simp+

lemma ends_number_punct [simp]:
  "ends_number []" "ends_number (CHR '','' # r)" "ends_number (CHR '']'' # r)" "ends_number (CHR ''}'' # r)"
  by (simp_all add: ends_number_def num_char_def is_digit_def)

lemma fuel_bound:
  "wf_json v \<Longrightarrow> jfuel v \<le> length (print_json v)"
  "wf_elems xs \<Longrightarrow> efuel xs \<le> Suc (length (print_elems xs))"
  "wf_members ms \<Longrightarrow> mfuel ms \<le> Suc (length (print_members ms))"
proof (induction v and xs and ms rule: print_json_print_elems_print_members.induct)
  case (3 s)
  then show ?case using number_chars(2)[of s] by auto
qed (auto simp: print_string_def show_bool_def)

lemma parse_number:
  assumes "is_number s" and "ends_number rest"
  shows "parse_value (Suc n) (s @ rest) = Some (JNum s, rest)"
proof -
  from number_chars(2)[OF assms(1)] obtain c cs where s: "s = c # cs" "is_digit c \<or> c = CHR ''-''" by blast
  note h = digit_head[OF s(2)]
  have "parse_value (Suc n) (s @ rest) =
      (let t = takeWhile num_char (s @ rest) in if is_number t then Some (JNum t, dropWhile num_char (s @ rest)) else None)"
    unfolding s(1) using h by (simp add: skip_ws_head Let_def)
  then show ?thesis by (simp add: takeWhile_number[OF assms] assms(1))
qed

lemma parse_string: "parse_value (Suc n) (print_string s @ rest) = Some (JStr s, rest)"
  using unquote_escape[of s rest] by (simp add: print_string_def skip_ws_head)

lemma parse_print:
  "wf_json v \<Longrightarrow> jfuel v \<le> n \<Longrightarrow> ends_number rest \<Longrightarrow>
     parse_value n (print_json v @ rest) = Some (v, rest)"
  "wf_elems xs \<Longrightarrow> xs \<noteq> [] \<Longrightarrow> efuel xs \<le> n \<Longrightarrow>
     parse_elems n (print_elems xs @ CHR '']'' # rest) = Some (xs, rest)"
  "wf_members ms \<Longrightarrow> ms \<noteq> [] \<Longrightarrow> mfuel ms \<le> n \<Longrightarrow>
     parse_members n (print_members ms @ CHR ''}'' # rest) = Some (ms, rest)"
proof (induction v and xs and ms arbitrary: n rest and n rest and n rest
    rule: print_json_print_elems_print_members.induct)
  case 1
  then show ?case by (cases n) (simp_all add: skip_ws_head)
next
  case (2 b)
  then show ?case by (cases n) (simp_all add: skip_ws_head show_bool_def)
next
  case (3 s)
  then show ?case by (cases n) (simp_all add: parse_number del: parse_value.simps)
next
  case (4 s)
  then show ?case by (cases n) (simp_all add: parse_string del: parse_value.simps)
next
  case (5 xs)
  then obtain m where m: "n = Suc m" "efuel xs \<le> m" by (cases n) auto
  show ?case
  proof (cases xs)
    case Nil
    then show ?thesis using m by (simp add: skip_ws_head)
  next
    case (Cons x ys)
    with 5(2) print_head[of x] obtain c cs where h: "print_elems xs = c # cs" "\<not> json_space c" "c \<noteq> CHR '']''"
      by (cases ys) auto
    have "parse_elems m (print_elems xs @ CHR '']'' # rest) = Some (xs, rest)"
      using 5(1)[of m rest] 5(2) Cons m by simp
    then show ?thesis using h m by (simp add: skip_ws_head)
  qed
next
  case (6 ms)
  then obtain m where m: "n = Suc m" "mfuel ms \<le> m" by (cases n) auto
  show ?case
  proof (cases ms)
    case Nil
    then show ?thesis using m by (simp add: skip_ws_head)
  next
    case (Cons kv ys)
    then obtain cs where h: "print_members ms = CHR 0x22 # cs"
      by (cases kv; cases ys) (auto simp: print_string_def)
    have "parse_members m (print_members ms @ CHR ''}'' # rest) = Some (ms, rest)"
      using 6(1)[of m rest] 6(2) Cons m by simp
    then show ?thesis using h m by (simp add: skip_ws_head)
  qed
next
  case (8 x)
  then obtain m where m: "n = Suc m" "jfuel x \<le> m" by (cases n) auto
  with 8 have "parse_value m (print_json x @ CHR '']'' # rest) = Some (x, CHR '']'' # rest)" by simp
  with m show ?case by (simp add: skip_ws_head)
next
  case (9 x y ys)
  then obtain m where m: "n = Suc m" "jfuel x \<le> m" "efuel (y # ys) \<le> m" by (cases n) auto
  let ?r = "print_elems (y # ys) @ CHR '']'' # rest"
  have "parse_value m (print_json x @ CHR '','' # ?r) = Some (x, CHR '','' # ?r)"
    using 9(1)[of m "CHR '','' # ?r"] 9(3) m by simp
  moreover have "parse_elems m ?r = Some (y # ys, rest)" using 9(2)[of m rest] 9(3) m by simp
  ultimately show ?case using m by (simp add: skip_ws_head)
next
  case (11 k v)
  then obtain m where m: "n = Suc m" "jfuel v \<le> m" by (cases n) auto
  have "parse_value m (print_json v @ CHR ''}'' # rest) = Some (v, CHR ''}'' # rest)"
    using 11(1)[of m "CHR ''}'' # rest"] 11(2) m by simp
  with m show ?case by (simp add: skip_ws_head print_string_def unquote_escape)
next
  case (12 k v x ms)
  then obtain m where m: "n = Suc m" "jfuel v \<le> m" "mfuel (x # ms) \<le> m" by (cases n) auto
  let ?r = "print_members (x # ms) @ CHR ''}'' # rest"
  have "parse_value m (print_json v @ CHR '','' # ?r) = Some (v, CHR '','' # ?r)"
    using 12(1)[of m "CHR '','' # ?r"] 12(3) m by simp
  moreover have "parse_members m ?r = Some (x # ms, rest)" using 12(2)[of m rest] 12(3) m by simp
  ultimately show ?case using m by (simp add: skip_ws_head print_string_def unquote_escape)
qed simp_all

lemma parse_print_json:
  assumes "wf_json v"
  shows "parse_json (print_json v) = Some v"
  using parse_print(1)[OF assms, of "Suc (length (print_json v))" "[]"] fuel_bound(1)[OF assms]
  by (simp add: parse_json_def skip_ws_def)

section \<open>No control characters\<close>

definition printable :: "char \<Rightarrow> bool" where
  "printable c \<longleftrightarrow> 32 \<le> (of_char c :: nat)"

lemma printable_hex: "k < 16 \<Longrightarrow> printable (hex_char k)"
  by (auto simp: printable_def hex_char_def)

lemma printable_Char [simp]: "printable (Char b0 b1 b2 b3 b4 b5 b6 b7) \<longleftrightarrow> b5 \<or> b6 \<or> b7"
  by (cases b0; cases b1; cases b2; cases b3; cases b4; cases b5; cases b6; cases b7)
     (simp_all add: printable_def)

lemma printable_escape_char: "list_all printable (escape_char c)"
proof (cases c rule: escape_char_cases)
  case 1
  then show ?thesis by (elim insertE emptyE) (simp_all add: escape_short printable_def)
next
  case 2
  have n: "(of_char c :: nat) div 16 < 16"
    by (rule less_mult_imp_div_less) simp
  show ?thesis
  proof (cases "(of_char c :: nat) < 32 \<or> (of_char c :: nat) \<in> {60, 62, 38}")
    case True
    show ?thesis
      unfolding escape_plain[OF 2] if_P[OF True] using printable_hex[OF n]
        printable_hex[of "of_char c mod 16"] by (simp add: printable_def)
  next
    case False
    then show ?thesis
      unfolding escape_plain[OF 2] if_not_P[OF False] by (simp add: printable_def)
  qed
qed

lemma printable_print_string: "list_all printable (print_string s)"
proof -
  have "list_all printable (escape_json s)"
    by (induction s rule: escape_json.induct) (simp_all add: printable_escape_char)
  then show ?thesis by (simp add: print_string_def)
qed

lemma printable_number: "is_number s \<Longrightarrow> list_all printable s"
proof -
  assume "is_number s"
  from number_chars(1)[OF this] show ?thesis
    by (rule list.pred_mono_strong) (auto simp: num_char_def is_digit_def printable_def Let_def)
qed

lemma printable_json:
  "wf_json v \<Longrightarrow> list_all printable (print_json v)"
  "wf_elems xs \<Longrightarrow> list_all printable (print_elems xs)"
  "wf_members ms \<Longrightarrow> list_all printable (print_members ms)"
  by (induction v and xs and ms rule: print_json_print_elems_print_members.induct)
     (simp_all add: printable_number printable_print_string show_bool_def)

section \<open>Valid UTF-8\<close>

text \<open>
  \<open>encoding/json\<close> replaces every byte that is not part of a valid UTF-8 sequence, when it writes
  a string and when it reads one; on valid UTF-8 it changes nothing, and this is where the
  writing and reading above are exact.  \<open>rune_size\<close> is the length of the sequence a text begins
  with, zero when it begins with none.
\<close>

definition cont :: "char \<Rightarrow> bool" where
  "cont c \<longleftrightarrow> (let n = of_char c :: nat in 128 \<le> n \<and> n < 192)"

definition rune_size :: "string \<Rightarrow> nat" where
  "rune_size s =
     (case s of [] \<Rightarrow> 0
      | c # r \<Rightarrow>
          (let n = of_char c :: nat
           in if n < 128 then 1
              else if 194 \<le> n \<and> n < 224 then (case r of d # _ \<Rightarrow> if cont d then 2 else 0 | _ \<Rightarrow> 0)
              else if 224 \<le> n \<and> n < 240 then
                (case r of
                   d # e # _ \<Rightarrow>
                     if cont d \<and> cont e \<and> (n = 224 \<longrightarrow> 160 \<le> (of_char d :: nat)) \<and> (n = 237 \<longrightarrow> (of_char d :: nat) < 160)
                     then 3 else 0
                 | _ \<Rightarrow> 0)
              else if 240 \<le> n \<and> n < 245 then
                (case r of
                   d # e # f # _ \<Rightarrow>
                     if cont d \<and> cont e \<and> cont f \<and> (n = 240 \<longrightarrow> 144 \<le> (of_char d :: nat)) \<and>
                        (n = 244 \<longrightarrow> (of_char d :: nat) < 144)
                     then 4 else 0
                 | _ \<Rightarrow> 0)
              else 0))"

function valid_utf8 :: "string \<Rightarrow> bool" where
  "valid_utf8 s =
     (if s = [] then True else if rune_size s = 0 then False else valid_utf8 (drop (rune_size s) s))"
  by pat_completeness auto
termination by (relation "measure length") auto

declare valid_utf8.simps [simp del]

lemma valid_utf8_Nil [simp]: "valid_utf8 []"
  by (simp add: valid_utf8.simps)

lemma rune_size_cases:
  assumes "rune_size s \<noteq> 0"
  obtains c r where "s = c # r" "rune_size s = 1" "(of_char c :: nat) < 128"
  | c d r where "s = [c, d] @ r" "rune_size s = 2" "194 \<le> (of_char c :: nat)" "(of_char c :: nat) < 224" "cont d"
  | c d e r where "s = [c, d, e] @ r" "rune_size s = 3" "224 \<le> (of_char c :: nat)" "(of_char c :: nat) < 240" "cont d" "cont e"
  | c d e f r where "s = [c, d, e, f] @ r" "rune_size s = 4" "240 \<le> (of_char c :: nat)" "cont d" "cont e" "cont f"
proof -
  obtain c s1 where s: "s = c # s1" using assms by (cases s) (simp_all add: rune_size_def)
  let ?n = "of_char c :: nat"
  consider "?n < 128" | "194 \<le> ?n" "?n < 224" | "224 \<le> ?n" "?n < 240" | "240 \<le> ?n" "?n < 245"
    using assms by (auto simp: rune_size_def s Let_def split: if_splits)
  then show thesis
  proof cases
    case 1
    with s that(1) show thesis by (simp add: rune_size_def)
  next
    case 2
    then obtain d r where "s1 = d # r" "cont d" "rune_size s = 2"
      using assms by (auto simp: rune_size_def s Let_def split: list.splits if_splits)
    with 2 s that(2) show thesis by simp
  next
    case 3
    then obtain d e r where "s1 = d # e # r" "cont d" "cont e" "rune_size s = 3"
      using assms by (auto simp: rune_size_def s Let_def split: list.splits if_splits)
    with 3 s that(3) show thesis by simp
  next
    case 4
    then obtain d e f r where "s1 = d # e # f # r" "cont d" "cont e" "cont f" "rune_size s = 4"
      using assms by (auto simp: rune_size_def s Let_def split: list.splits if_splits)
    with 4 s that(4) show thesis by simp
  qed
qed

lemma rune_size_append:
  assumes "rune_size s \<noteq> 0"
  shows "rune_size (s @ t) = rune_size s"
  using assms
proof (cases rule: rune_size_cases)
  case (1 c r)
  then show ?thesis by (simp add: rune_size_def)
next
  case (2 c d r)
  then show ?thesis by (simp add: rune_size_def Let_def)
next
  case (3 c d e r)
  then show ?thesis by (simp add: rune_size_def Let_def split: if_splits)
next
  case (4 c d e f r)
  then show ?thesis by (simp add: rune_size_def Let_def split: if_splits)
qed

lemma rune_size_take:
  assumes "rune_size s \<noteq> 0"
  shows "rune_size (take (rune_size s) s) = rune_size s"
  using assms
proof (cases rule: rune_size_cases)
  case (1 c r)
  then show ?thesis by (simp add: rune_size_def)
next
  case (2 c d r)
  then show ?thesis by (simp add: rune_size_def Let_def)
next
  case (3 c d e r)
  then show ?thesis by (simp add: rune_size_def Let_def split: if_splits)
next
  case (4 c d e f r)
  then show ?thesis by (simp add: rune_size_def Let_def split: if_splits)
qed

lemma rune_size_length: "rune_size s \<le> length s"
proof (cases "rune_size s = 0")
  case False
  then show ?thesis by (cases rule: rune_size_cases) simp_all
qed simp

lemma valid_utf8_rune: "rune_size s \<noteq> 0 \<Longrightarrow> valid_utf8 s \<longleftrightarrow> valid_utf8 (drop (rune_size s) s)"
  by (subst valid_utf8.simps) simp

lemma valid_utf8_take: "rune_size s \<noteq> 0 \<Longrightarrow> valid_utf8 (take (rune_size s) s)"
  by (simp add: valid_utf8_rune rune_size_take)

lemma valid_utf8_append: "valid_utf8 s \<Longrightarrow> valid_utf8 t \<Longrightarrow> valid_utf8 (s @ t)"
proof (induction s rule: valid_utf8.induct)
  case (1 s)
  show ?case
  proof (cases "s = []")
    case False
    with 1 have n: "rune_size s \<noteq> 0" by (metis valid_utf8.simps)
    with 1 False have "valid_utf8 (drop (rune_size s) s @ t)" by (simp add: valid_utf8_rune)
    then show ?thesis using n rune_size_length[of s] by (simp add: valid_utf8_rune rune_size_append)
  qed (use 1 in simp)
qed

definition ascii :: "char \<Rightarrow> bool" where "ascii c \<longleftrightarrow> (of_char c :: nat) < 128"

lemma valid_utf8_ascii: "list_all ascii s \<Longrightarrow> valid_utf8 s"
proof (induction s)
  case (Cons c s)
  then have "rune_size (c # s) = 1" by (simp add: rune_size_def ascii_def)
  with Cons show ?case by (simp add: valid_utf8_rune)
qed simp

lemma ascii_Char [simp]: "ascii (Char b0 b1 b2 b3 b4 b5 b6 b7) \<longleftrightarrow> \<not> b7"
  by (cases b0; cases b1; cases b2; cases b3; cases b4; cases b5; cases b6; cases b7) (simp_all add: ascii_def)

lemma ascii_hex: "k < 16 \<Longrightarrow> ascii (hex_char k)"
  by (auto simp: ascii_def hex_char_def)

lemma ascii_escape_char:
  assumes "ascii c"
  shows "list_all ascii (escape_char c)"
proof (cases c rule: escape_char_cases)
  case 1
  then show ?thesis by (elim insertE emptyE) (simp_all add: escape_short)
next
  case 2
  have "(of_char c :: nat) div 16 < 16" by (rule less_mult_imp_div_less) simp
  then show ?thesis unfolding escape_plain[OF 2] using assms by (simp add: ascii_hex)
qed

lemma escape_char_high: "128 \<le> (of_char c :: nat) \<Longrightarrow> escape_char c = [c]"
  by (auto simp: escape_char_def Let_def)

lemma escape_json_step: "c \<noteq> CHR 0xE2 \<Longrightarrow> escape_json (c # s) = escape_char c @ escape_json s"
proof -
  assume c: "c \<noteq> CHR 0xE2"
  show ?thesis
  proof (cases s)
    case (Cons d s1)
    with c show ?thesis by (cases s1) simp_all
  qed simp
qed

lemma cont_plain: "cont c \<Longrightarrow> escape_json (c # s) = c # escape_json s"
proof -
  assume "cont c"
  then have "128 \<le> (of_char c :: nat)" "c \<noteq> CHR 0xE2" by (auto simp: cont_def Let_def)
  then show ?thesis by (simp add: escape_json_step escape_char_high)
qed

lemma escape_json_rune:
  assumes "rune_size s \<noteq> 0"
  shows "\<exists>x. escape_json s = x @ escape_json (drop (rune_size s) s) \<and> valid_utf8 x"
  using assms
proof (cases rule: rune_size_cases)
  case (1 c r)
  then have "c \<noteq> CHR 0xE2" by auto
  with 1 have "escape_json s = escape_char c @ escape_json (drop (rune_size s) s)" by (simp add: escape_json_step)
  moreover have "valid_utf8 (escape_char c)" using 1(3) by (intro valid_utf8_ascii ascii_escape_char) (simp add: ascii_def)
  ultimately show ?thesis by blast
next
  case (2 c d r)
  then have "c \<noteq> CHR 0xE2" "128 \<le> (of_char c :: nat)" by auto
  with 2 have "escape_json s = take (rune_size s) s @ escape_json (drop (rune_size s) s)"
    by (simp add: escape_json_step escape_char_high cont_plain)
  with valid_utf8_take[OF assms] show ?thesis by blast
next
  case (3 c d e r)
  have c: "escape_char c = [c]" using 3(3) by (intro escape_char_high) simp
  show ?thesis
  proof (cases "c = CHR 0xE2 \<and> d = CHR 0x80 \<and> (e = CHR 0xA8 \<or> e = CHR 0xA9)")
    case True
    then have "escape_json s = [CHR 0x5C, CHR ''u'', CHR ''2'', CHR ''0'', CHR ''2'', if e = CHR 0xA8 then CHR ''8'' else CHR ''9'']
        @ escape_json (drop (rune_size s) s)" using 3 by simp
    moreover have "valid_utf8 [CHR 0x5C, CHR ''u'', CHR ''2'', CHR ''0'', CHR ''2'', if e = CHR 0xA8 then CHR ''8'' else CHR ''9'']"
      by (rule valid_utf8_ascii) simp
    ultimately show ?thesis by blast
  next
    case False
    then have "escape_json ([c, d, e] @ r) = escape_char c @ escape_json ([d, e] @ r)"
      by (simp only: append.simps escape_json.simps(2) if_False)
    with 3 c have "escape_json s = take (rune_size s) s @ escape_json (drop (rune_size s) s)"
      by (simp add: cont_plain)
    with valid_utf8_take[OF assms] show ?thesis by blast
  qed
next
  case (4 c d e f r)
  then have "c \<noteq> CHR 0xE2" "128 \<le> (of_char c :: nat)" by auto
  with 4 have "escape_json s = take (rune_size s) s @ escape_json (drop (rune_size s) s)"
    by (simp add: escape_json_step escape_char_high cont_plain del: escape_json.simps(2))
  with valid_utf8_take[OF assms] show ?thesis by blast
qed

lemma valid_utf8_escape: "valid_utf8 s \<Longrightarrow> valid_utf8 (escape_json s)"
proof (induction s rule: valid_utf8.induct)
  case (1 s)
  show ?case
  proof (cases "s = []")
    case False
    with 1 have n: "rune_size s \<noteq> 0" by (metis valid_utf8.simps)
    with 1 False have "valid_utf8 (escape_json (drop (rune_size s) s))" by (simp add: valid_utf8_rune)
    with escape_json_rune[OF n] show ?thesis by (auto intro: valid_utf8_append)
  qed simp
qed

lemma valid_utf8_print_string: "valid_utf8 s \<Longrightarrow> valid_utf8 (print_string s)"
  using valid_utf8_append[OF valid_utf8_ascii[of "[CHR 0x22]"]
      valid_utf8_append[OF valid_utf8_escape[of s] valid_utf8_ascii[of "[CHR 0x22]"]]]
  by (simp add: print_string_def)

text \<open>Values all of whose texts are valid UTF-8, and the text that is written for one.\<close>

fun utf8_json :: "json \<Rightarrow> bool" and utf8_elems :: "json list \<Rightarrow> bool" and utf8_members :: "(string \<times> json) list \<Rightarrow> bool" where
  "utf8_json (JStr s) = valid_utf8 s"
| "utf8_json (JArr xs) = utf8_elems xs"
| "utf8_json (JObj ms) = utf8_members ms"
| "utf8_json v = True"
| "utf8_elems [] = True"
| "utf8_elems (x # xs) = (utf8_json x \<and> utf8_elems xs)"
| "utf8_members [] = True"
| "utf8_members ((k, v) # ms) = (valid_utf8 k \<and> utf8_json v \<and> utf8_members ms)"

lemma ascii_number: "is_number s \<Longrightarrow> list_all ascii s"
proof -
  assume "is_number s"
  from number_chars(1)[OF this] show ?thesis
    by (rule list.pred_mono_strong) (auto simp: num_char_def is_digit_def ascii_def Let_def)
qed

lemma valid_utf8_between:
  "valid_utf8 s \<Longrightarrow> ascii c \<Longrightarrow> valid_utf8 (c # s)"
  using valid_utf8_append[of "[c]" s] valid_utf8_ascii[of "[c]"] by simp

lemma valid_utf8_print_json:
  "wf_json v \<Longrightarrow> utf8_json v \<Longrightarrow> valid_utf8 (print_json v)"
  "wf_elems xs \<Longrightarrow> utf8_elems xs \<Longrightarrow> valid_utf8 (print_elems xs)"
  "wf_members ms \<Longrightarrow> utf8_members ms \<Longrightarrow> valid_utf8 (print_members ms)"
proof (induction v and xs and ms rule: print_json_print_elems_print_members.induct)
  case (3 s)
  then show ?case by (simp add: valid_utf8_ascii ascii_number)
qed (auto simp: show_bool_def valid_utf8_print_string
      intro!: valid_utf8_append valid_utf8_between intro: valid_utf8_ascii)

end
