(* ===== verification/Grpc_Errors.thy ===== *)
theory Grpc_Errors
  imports Http_Model Json_Model
begin

text \<open>
  Errors of downstream calls and what a client gets to see of them: \<open>grpcStatus\<close>,
  \<open>genericMessage\<close>, \<open>errBody\<close> and \<open>writeError\<close> of \<open>internal/handlers/auth.go\<close>, and
  \<open>GrpcErrToJobError\<close> with \<open>jobErrorMessage\<close> of \<open>internal/queue/result.go\<close>.

  An error is a gRPC status, with its code and text, or any other error, with its text;
  \<open>status.Code\<close> of the latter is \<open>Unknown\<close>.
\<close>

section \<open>Codes\<close>

datatype code = Code nat

instantiation code :: linorder
begin

definition less_eq_code :: "code \<Rightarrow> code \<Rightarrow> bool" where
  "less_eq_code a b \<longleftrightarrow> (case (a, b) of (Code m, Code n) \<Rightarrow> m \<le> n)"

definition less_code :: "code \<Rightarrow> code \<Rightarrow> bool" where
  "less_code a b \<longleftrightarrow> (case (a, b) of (Code m, Code n) \<Rightarrow> m < n)"

instance
  by intro_classes (auto simp: less_eq_code_def less_code_def split: code.splits)

end

definition code_num :: "code \<Rightarrow> nat" where
  "code_num c = (case c of Code n \<Rightarrow> n)"

definition OK :: code where "OK = Code 0"
definition Unknown :: code where "Unknown = Code 2"
definition InvalidArgument :: code where "InvalidArgument = Code 3"
definition DeadlineExceeded :: code where "DeadlineExceeded = Code 4"
definition NotFound :: code where "NotFound = Code 5"
definition AlreadyExists :: code where "AlreadyExists = Code 6"
definition PermissionDenied :: code where "PermissionDenied = Code 7"
definition ResourceExhausted :: code where "ResourceExhausted = Code 8"
definition FailedPrecondition :: code where "FailedPrecondition = Code 9"
definition Internal :: code where "Internal = Code 13"
definition Unavailable :: code where "Unavailable = Code 14"
definition Unauthenticated :: code where "Unauthenticated = Code 16"

lemmas code_defs = OK_def Unknown_def InvalidArgument_def DeadlineExceeded_def NotFound_def
  AlreadyExists_def PermissionDenied_def ResourceExhausted_def FailedPrecondition_def Internal_def
  Unavailable_def Unauthenticated_def

text \<open>\<open>codes.Code.String\<close>.\<close>

definition code_names :: "string list" where
  "code_names = [''OK'', ''Canceled'', ''Unknown'', ''InvalidArgument'', ''DeadlineExceeded'', ''NotFound'',
     ''AlreadyExists'', ''PermissionDenied'', ''ResourceExhausted'', ''FailedPrecondition'', ''Aborted'',
     ''OutOfRange'', ''Unimplemented'', ''Internal'', ''Unavailable'', ''DataLoss'', ''Unauthenticated'']"

definition code_string :: "code \<Rightarrow> string" where
  "code_string c =
     (if code_num c < 17 then code_names ! code_num c else ''Code('' @ show_nat (code_num c) @ '')'')"

datatype go_error = StatusError code string | PlainError string

text \<open>\<open>status.Code\<close>; a nil error is \<open>None\<close>.  \<open>status.FromError\<close> of an error without a
  status is not ok.\<close>

definition status_code :: "go_error \<Rightarrow> code" where
  "status_code e = (case e of StatusError c m \<Rightarrow> c | PlainError m \<Rightarrow> Unknown)"

definition status_message :: "go_error \<Rightarrow> string option" where
  "status_message e = (case e of StatusError c m \<Rightarrow> Some m | PlainError m \<Rightarrow> None)"

section \<open>What an HTTP client sees\<close>

definition grpcStatus :: "go_error option \<Rightarrow> int" where
  "grpcStatus err =
     (case err of
        None \<Rightarrow> 200
      | Some e \<Rightarrow>
          (let c = status_code e
           in if c = NotFound then 404
              else if c = AlreadyExists then 409
              else if c = PermissionDenied then 403
              else if c = Unauthenticated then 401
              else if c = InvalidArgument then 400
              else if c = ResourceExhausted then 429
              else if c = FailedPrecondition then 409
              else 500))"

definition genericMessage :: "go_error \<Rightarrow> string" where
  "genericMessage err =
     (let c = status_code err
      in if c = NotFound then ''not found''
         else if c = AlreadyExists then ''already exists''
         else if c = PermissionDenied then ''permission denied''
         else if c = Unauthenticated then ''unauthenticated''
         else if c = InvalidArgument then ''invalid argument''
         else if c = ResourceExhausted then ''resource exhausted''
         else if c = FailedPrecondition then ''failed precondition''
         else ''internal error'')"

definition breachedPasswordPrefix :: string where
  "breachedPasswordPrefix = ''password has appeared in a known data breach''"

definition passwordReusedPrefix :: string where
  "passwordReusedPrefix = ''password has been used before''"

definition password_reason :: "go_error \<Rightarrow> string option" where
  "password_reason err =
     (case status_message err of
        None \<Rightarrow> None
      | Some m \<Rightarrow>
          if has_prefix m ''password is too weak'' then Some ''weak_password''
          else if has_prefix m breachedPasswordPrefix then Some ''breached_password''
          else if has_prefix m passwordReusedPrefix then Some ''password_reused''
          else None)"

text \<open>The body is a Go map; the encoder writes its keys in order: code, error, reason.\<close>

definition errBody :: "go_error \<Rightarrow> json" where
  "errBody err =
     JObj ([(''code'', JStr (code_string (status_code err))), (''error'', JStr (genericMessage err))] @
           (case password_reason err of Some r \<Rightarrow> [(''reason'', JStr r)] | None \<Rightarrow> []))"

definition writeJSON :: "response \<Rightarrow> int \<Rightarrow> json \<Rightarrow> response" where
  "writeJSON w status v =
     write_body (write_header (set_header w ''Content-Type'' ''application/json'') status) (print_json v @ [CHR 0x0A])"

definition writeError :: "response \<Rightarrow> go_error \<Rightarrow> response" where
  "writeError w err = writeJSON w (grpcStatus (Some err)) (errBody err)"

section \<open>What a job's submitter sees\<close>

record job_error =
  je_code :: nat
  je_message :: string

definition jobErrorMessage :: "code \<Rightarrow> string" where
  "jobErrorMessage c =
     (if c = NotFound then ''not found''
      else if c = InvalidArgument then ''invalid argument''
      else if c = Unavailable then ''service unavailable''
      else if c = DeadlineExceeded then ''deadline exceeded''
      else if c = PermissionDenied then ''permission denied''
      else if c = Unauthenticated then ''unauthenticated''
      else ''internal error'')"

definition GrpcErrToJobError :: "go_error option \<Rightarrow> job_error option" where
  "GrpcErrToJobError err =
     map_option (\<lambda>e. \<lparr>je_code = code_num (status_code e), je_message = jobErrorMessage (status_code e)\<rparr>) err"

lemma status_writeJSON: "committed w = None \<Longrightarrow> status_of (writeJSON w c v) = Some c"
  by (simp add: writeJSON_def write_body_def set_header_def write_header_def status_of_def Let_def)

lemma out_writeJSON: "out (writeJSON w c v) = out w @ print_json v @ [CHR 0x0A]"
  by (simp add: writeJSON_def write_body_def set_header_def write_header_def Let_def split: option.split)

section \<open>Properties\<close>

text \<open>
  (C39) A downstream error never shows its text to a client: the status, the response body
  and the job error depend on the code of the error alone, and on which of the three known
  password rejections its text starts with; the code decides the HTTP status by the table.
\<close>

theorem error_text_is_not_leaked:
  assumes "status_code e1 = status_code e2" and "password_reason e1 = password_reason e2"
  shows "writeError w e1 = writeError w e2 \<and>
         GrpcErrToJobError (Some e1) = GrpcErrToJobError (Some e2) \<and>
         password_reason e1 \<in> {None, Some ''weak_password'', Some ''breached_password'', Some ''password_reused''}"
proof -
  have "password_reason e1 \<in> {None, Some ''weak_password'', Some ''breached_password'', Some ''password_reused''}"
    by (auto simp: password_reason_def split: option.split)
  moreover have "writeError w e1 = writeError w e2"
    using assms by (simp add: writeError_def grpcStatus_def errBody_def genericMessage_def)
  moreover have "GrpcErrToJobError (Some e1) = GrpcErrToJobError (Some e2)"
    using assms(1) by (simp add: GrpcErrToJobError_def)
  ultimately show ?thesis by blast
qed

theorem error_text_is_not_leaked_witness:
  "writeError fresh_response (StatusError Internal ''sql: no rows in users'') =
   writeError fresh_response (StatusError Internal ''dial tcp 10.0.0.7:5432'')"
proof -
  have "password_reason (StatusError Internal ''sql: no rows in users'') =
        password_reason (StatusError Internal ''dial tcp 10.0.0.7:5432'')" by code_simp
  then show ?thesis
    using error_text_is_not_leaked[of "StatusError Internal ''sql: no rows in users''"
        "StatusError Internal ''dial tcp 10.0.0.7:5432''"] by (simp add: status_code_def)
qed

end
