(* ===== verification/Job_Queue.thy ===== *)
theory Job_Queue
  imports Grpc_Errors Go_Net
begin

text \<open>
  \<open>internal/queue\<close>: producing jobs onto Redis streams (\<open>stream.go\<close>), the workers that drain
  them (\<open>worker.go\<close>) and the results they store and publish (\<open>result.go\<close>).

  Redis is a service: its commands are the fields of \<open>redis_api\<close>, an argument of every
  definition.  \<open>stream_laws\<close> states what its documentation says of the stream commands:
  an entry added counts in \<open>XLEN\<close> until it is trimmed or deleted, and reading it by a group
  or acknowledging it removes nothing.
\<close>

section \<open>Jobs\<close>

record Job =
  JobID :: string
  Payload :: string
  UserID :: string
  AccountLevel :: string
  IsAdmin :: string
  UserVerified :: string

type_synonym fields = "(string \<times> string) list"

definition StreamRouting :: string where "StreamRouting = ''sw:jobs:routing''"
definition StreamSearch :: string where "StreamSearch = ''sw:jobs:search''"
definition StreamRerouting :: string where "StreamRerouting = ''sw:jobs:rerouting''"
definition GroupName :: string where "GroupName = ''workers''"

definition job_fields :: "string \<Rightarrow> Job \<Rightarrow> int \<Rightarrow> fields" where
  "job_fields jobID job now_ms =
     [(''job_id'', jobID), (''payload'', Payload job), (''user_id'', UserID job),
      (''account_level'', AccountLevel job), (''is_admin'', IsAdmin job),
      (''user_verified'', UserVerified job), (''enqueued_at'', show_int now_ms)]"

text \<open>\<open>parseJob\<close>: values read from a stream are strings; a missing one prints as nil.\<close>

definition parseJob :: "fields \<Rightarrow> Job" where
  "parseJob values =
     (let str = (\<lambda>k. case map_of values k of Some s \<Rightarrow> s | None \<Rightarrow> ''<nil>'')
      in \<lparr>JobID = str ''job_id'', Payload = str ''payload'', UserID = str ''user_id'',
          AccountLevel = str ''account_level'', IsAdmin = str ''is_admin'',
          UserVerified = str ''user_verified''\<rparr>)"

text \<open>The outgoing metadata a worker's downstream call carries.\<close>

definition UserMetadataCtx :: "Job \<Rightarrow> (string \<times> string) list" where
  "UserMetadataCtx job =
     [(''x-user-id'', UserID job), (''x-account-level'', AccountLevel job),
      (''x-is-admin'', IsAdmin job), (''x-user-verified'', UserVerified job)]"

section \<open>Redis\<close>

record 'r redis_api =
  xlen :: "string \<Rightarrow> 'r \<Rightarrow> int option \<times> 'r"
  xadd :: "string \<Rightarrow> fields \<Rightarrow> 'r \<Rightarrow> string option \<times> 'r"
  xgroup_create :: "string \<Rightarrow> string \<Rightarrow> 'r \<Rightarrow> 'r"
  xreadgroup :: "string \<Rightarrow> string \<Rightarrow> string \<Rightarrow> nat \<Rightarrow> 'r \<Rightarrow> (string \<times> fields) list option \<times> 'r"
  xack :: "string \<Rightarrow> string \<Rightarrow> string \<Rightarrow> 'r \<Rightarrow> 'r"
  set_ttl :: "string \<Rightarrow> string \<Rightarrow> int \<Rightarrow> 'r \<Rightarrow> 'r"
  get_key :: "string \<Rightarrow> 'r \<Rightarrow> string option \<times> 'r"
  publish :: "string \<Rightarrow> string \<Rightarrow> 'r \<Rightarrow> 'r"

section \<open>The producer\<close>

datatype enqueue_error = ErrQueueFull | RedisError

definition Bootstrap :: "'r redis_api \<Rightarrow> 'r \<Rightarrow> 'r" where
  "Bootstrap api r =
     fold (\<lambda>stream r. xgroup_create api stream GroupName r) [StreamRouting, StreamSearch, StreamRerouting] r"

text \<open>The new UUID and the time are arguments.\<close>

definition Enqueue ::
  "'r redis_api \<Rightarrow> int \<Rightarrow> string \<Rightarrow> int \<Rightarrow> string \<Rightarrow> Job \<Rightarrow> 'r \<Rightarrow> (enqueue_error + string) \<times> 'r" where
  "Enqueue api maxDepth uuid now_ms stream job r =
     (case xlen api stream r of
        (None, r1) \<Rightarrow> (Inl RedisError, r1)
      | (Some depth, r1) \<Rightarrow>
          if maxDepth \<le> depth then (Inl ErrQueueFull, r1)
          else
            (case xadd api stream (job_fields uuid job now_ms) r1 of
               (None, r2) \<Rightarrow> (Inl RedisError, r2)
             | (Some _, r2) \<Rightarrow> (Inr uuid, r2)))"

definition QueueDepth :: "'r redis_api \<Rightarrow> string \<Rightarrow> 'r \<Rightarrow> int option \<times> 'r" where
  "QueueDepth api stream r = xlen api stream r"

section \<open>Results\<close>

text \<open>The result data of a process function is JSON it marshalled itself, so it is kept as a
  value; an omitted error or data is left out of the object.\<close>

record JobResult =
  Success :: bool
  Data :: "json option"
  Error :: "job_error option"

definition job_error_json :: "job_error \<Rightarrow> json" where
  "job_error_json e = JObj [(''code'', JNum (show_nat (je_code e))), (''message'', JStr (je_message e))]"

definition job_result_json :: "JobResult \<Rightarrow> json" where
  "job_result_json r =
     JObj ([(''success'', JBool (Success r))] @
           (case Data r of Some d \<Rightarrow> [(''data'', d)] | None \<Rightarrow> []) @
           (case Error r of Some e \<Rightarrow> [(''error'', job_error_json e)] | None \<Rightarrow> []))"

record StoredResult =
  sr_UserID :: string
  sr_Result :: "json option"

definition stored_json :: "string \<Rightarrow> json \<Rightarrow> json" where
  "stored_json user result = JObj [(''user_id'', JStr user), (''result'', result)]"

text \<open>\<open>json.Unmarshal\<close> into a \<open>StoredResult\<close>: keys match up to case, unknown keys are
  skipped, a null string keeps its value, another type for it is an error, and a raw
  message takes whatever value is there.\<close>

definition decode_member :: "StoredResult option \<Rightarrow> string \<times> json \<Rightarrow> StoredResult option" where
  "decode_member acc m =
     (case (acc, m) of
        (None, _) \<Rightarrow> None
      | (Some sr, (k, v)) \<Rightarrow>
          if equal_fold k ''user_id'' then
            (case v of JStr s \<Rightarrow> Some (sr\<lparr>sr_UserID := s\<rparr>) | JNull \<Rightarrow> Some sr | _ \<Rightarrow> None)
          else if equal_fold k ''result'' then Some (sr\<lparr>sr_Result := Some v\<rparr>)
          else Some sr)"

definition empty_stored :: StoredResult where
  "empty_stored = \<lparr>sr_UserID = '''', sr_Result = None\<rparr>"

definition decode_stored :: "string \<Rightarrow> StoredResult option" where
  "decode_stored payload =
     (case parse_json payload of
        Some (JObj ms) \<Rightarrow> foldl decode_member (Some empty_stored) ms
      | Some JNull \<Rightarrow> Some empty_stored
      | _ \<Rightarrow> None)"

section \<open>The workers\<close>

record ('r, 'w) worker_config =
  wc_api :: "'r redis_api"
  wc_Stream :: string
  wc_Count :: nat
  wc_Process :: "Job \<Rightarrow> 'w \<Rightarrow> (go_error + json) \<times> 'w"
  wc_ResultTTL :: int

definition process_result :: "go_error + json \<Rightarrow> JobResult" where
  "process_result res =
     (case res of
        Inl err \<Rightarrow> \<lparr>Success = False, Data = None, Error = GrpcErrToJobError (Some err)\<rparr>
      | Inr data \<Rightarrow> \<lparr>Success = True, Data = Some data, Error = None\<rparr>)"

definition result_payload :: "Job \<Rightarrow> go_error + json \<Rightarrow> string" where
  "result_payload job res = print_json (stored_json (UserID job) (job_result_json (process_result res)))"

definition result_key :: "string \<Rightarrow> string" where "result_key jobID = ''sw:result:'' @ jobID"
definition done_channel :: "string \<Rightarrow> string" where "done_channel jobID = ''sw:done:'' @ jobID"

text \<open>The deferred acknowledgement runs last, whatever the outcome.\<close>

definition processMessage :: "('r, 'w) worker_config \<Rightarrow> string \<times> fields \<Rightarrow> 'r \<times> 'w \<Rightarrow> 'r \<times> 'w" where
  "processMessage cfg msg = (\<lambda>(r, w).
     (let job = parseJob (snd msg);
          (res, w1) = wc_Process cfg job w;
          payload = result_payload job res;
          r1 = set_ttl (wc_api cfg) (result_key (JobID job)) payload (wc_ResultTTL cfg) r;
          r2 = publish (wc_api cfg) (done_channel (JobID job)) payload r1;
          r3 = xack (wc_api cfg) (wc_Stream cfg) GroupName (fst msg) r2
      in (r3, w1)))"

text \<open>One turn of \<open>runWorker\<close>, and a run of a number of turns; the loop itself ends with
  its context.\<close>

definition worker_turn :: "('r, 'w) worker_config \<Rightarrow> string \<Rightarrow> 'r \<times> 'w \<Rightarrow> 'r \<times> 'w" where
  "worker_turn cfg workerID = (\<lambda>(r, w).
     (case xreadgroup (wc_api cfg) GroupName workerID (wc_Stream cfg) 1 r of
        (None, r1) \<Rightarrow> (r1, w)
      | (Some msgs, r1) \<Rightarrow> fold (processMessage cfg) msgs (r1, w)))"

fun runWorker :: "('r, 'w) worker_config \<Rightarrow> string \<Rightarrow> nat \<Rightarrow> 'r \<times> 'w \<Rightarrow> 'r \<times> 'w" where
  "runWorker cfg workerID 0 s = s"
| "runWorker cfg workerID (Suc n) s = runWorker cfg workerID n (worker_turn cfg workerID s)"

section \<open>Lemmas\<close>

lemma show_nat_digits:
  "show_nat n \<noteq> [] \<and> list_all is_digit (show_nat n) \<and> (n < 10 \<longrightarrow> length (show_nat n) = 1) \<and>
   (n \<noteq> 0 \<longrightarrow> hd (show_nat n) \<noteq> CHR ''0'')"
proof (induction n rule: show_nat.induct)
  case (1 n)
  show ?case
  proof (cases "n < 10")
    case True
    then have "is_digit (char_of (48 + n))" by (simp add: is_digit_def)
    moreover have "n \<noteq> 0 \<longrightarrow> char_of (48 + n) \<noteq> CHR ''0''"
    proof
      assume "n \<noteq> 0"
      have "of_char (char_of (48 + n) :: char) = (48 + n)" using True by simp
      moreover have "of_char (CHR ''0'') = (48 :: nat)" by simp
      ultimately show "char_of (48 + n) \<noteq> CHR ''0''" using \<open>n \<noteq> 0\<close> by (metis add_cancel_left_right)
    qed
    ultimately show ?thesis using True by (simp add: show_nat.simps[of n])
  next
    case False
    then have "is_digit (char_of (48 + n mod 10))" by (simp add: is_digit_def)
    with 1[OF False] False show ?thesis by (auto simp: show_nat.simps[of n])
  qed
qed

lemma show_nat_number [simp]: "is_number (show_nat n)"
proof -
  note d = show_nat_digits[of n]
  obtain c r where s: "show_nat n = c # r" using d by (cases "show_nat n") auto
  have c: "c \<noteq> CHR ''-''" using d s by (auto simp: is_digit_def)
  have t: "is_digit c" "takeWhile is_digit r = r" "dropWhile is_digit r = []"
    using d s by (simp_all add: list_all_iff)
  have "c = CHR ''0'' \<longrightarrow> r = []" using d s by (cases "n = 0") auto
  moreover have "is_digit (CHR ''0'')" by code_simp
  ultimately show ?thesis using c t(1) by (auto simp: is_number_def fraction_ok_def Let_def s t)
qed

lemma wf_result:
  "(\<And>d. res = Inr d \<Longrightarrow> wf_json d) \<Longrightarrow> wf_json (job_result_json (process_result res))"
  by (cases res) (auto simp: process_result_def job_result_json_def GrpcErrToJobError_def job_error_json_def)

lemma utf8_result:
  "(\<And>d. res = Inr d \<Longrightarrow> utf8_json d) \<Longrightarrow> utf8_json (job_result_json (process_result res))"
  by (cases res)
     (auto simp: process_result_def job_result_json_def GrpcErrToJobError_def job_error_json_def jobErrorMessage_def
       valid_utf8_ascii)

lemma member_keys [simp]:
  "equal_fold ''user_id'' ''user_id''" "\<not> equal_fold ''result'' ''user_id''" "equal_fold ''result'' ''result''"
  by code_simp+

lemma decode_stored_payload:
  assumes "wf_json result"
  shows "decode_stored (print_json (stored_json user result)) =
    Some \<lparr>sr_UserID = user, sr_Result = Some result\<rparr>"
proof -
  have "wf_json (stored_json user result)" using assms by (simp add: stored_json_def)
  from parse_print_json[OF this] show ?thesis
    by (simp add: decode_stored_def stored_json_def decode_member_def empty_stored_def)
qed

text \<open>The documented behaviour of a healthy Redis for streams: \<open>len\<close> is the number of
  entries of a stream.\<close>

definition stream_laws :: "'r redis_api \<Rightarrow> ('r \<Rightarrow> string \<Rightarrow> nat) \<Rightarrow> bool" where
  "stream_laws api len \<longleftrightarrow>
     (\<forall>s r. xlen api s r = (Some (int (len r s)), r)) \<and>
     (\<forall>s f r t. fst (xadd api s f r) \<noteq> None \<and>
        len (snd (xadd api s f r)) t = (if t = s then Suc (len r s) else len r t)) \<and>
     (\<forall>s g r t. len r t \<le> len (xgroup_create api s g r) t) \<and>
     (\<forall>g c s n r t. len (snd (xreadgroup api g c s n r)) t = len r t) \<and>
     (\<forall>s g i r t. len (xack api s g i r) t = len r t) \<and>
     (\<forall>k v e r t. len (set_ttl api k v e r) t = len r t) \<and>
     (\<forall>k v r t. len (publish api k v r) t = len r t)"

lemma processMessage_len:
  "stream_laws api len \<Longrightarrow> wc_api cfg = api \<Longrightarrow> len (fst (processMessage cfg m s)) t = len (fst s) t"
  by (cases s; cases "wc_Process cfg (parseJob (snd m)) (snd s)")
     (simp add: processMessage_def stream_laws_def Let_def)

lemma worker_turn_len:
  assumes "stream_laws api len" and "wc_api cfg = api"
  shows "len (fst (worker_turn cfg wid s)) t = len (fst s) t"
proof -
  obtain r w where s: "s = (r, w)" by fastforce
  have f: "len (fst (fold (processMessage cfg) msgs p)) t = len (fst p) t" for msgs p
    by (induction msgs arbitrary: p) (simp_all add: processMessage_len[OF assms])
  obtain o1 r1 where x: "xreadgroup (wc_api cfg) GroupName wid (wc_Stream cfg) 1 r = (o1, r1)" by fastforce
  then have "len r1 t = len r t" using assms by (metis stream_laws_def snd_conv)
  with x f show ?thesis by (cases o1) (simp_all add: worker_turn_def s)
qed

lemma runWorker_len:
  "stream_laws api len \<Longrightarrow> wc_api cfg = api \<Longrightarrow> len (fst (runWorker cfg wid n s)) t = len (fst s) t"
  by (induction n arbitrary: s) (simp_all add: worker_turn_len)

lemma Enqueue_len:
  assumes "stream_laws api len"
  shows "Enqueue api maxDepth uuid now stream job r =
    (if maxDepth \<le> int (len r stream) then (Inl ErrQueueFull, r)
     else (Inr uuid, snd (xadd api stream (job_fields uuid job now) r)))"
proof -
  have x: "xlen api stream r = (Some (int (len r stream)), r)" using assms by (simp add: stream_laws_def)
  have "fst (xadd api stream (job_fields uuid job now) r) \<noteq> None" using assms by (simp add: stream_laws_def)
  then show ?thesis
    by (cases "xadd api stream (job_fields uuid job now) r") (auto simp: Enqueue_def x)
qed

section \<open>A Redis for concrete inputs\<close>

record memory_redis =
  mr_streams :: "(string \<times> (string \<times> fields) list) list"
  mr_read :: "(string \<times> nat) list"
  mr_keys :: "(string \<times> string) list"
  mr_published :: "(string \<times> string) list"

definition entries :: "memory_redis \<Rightarrow> string \<Rightarrow> (string \<times> fields) list" where
  "entries r s = (case map_of (mr_streams r) s of Some es \<Rightarrow> es | None \<Rightarrow> [])"

definition read_from :: "memory_redis \<Rightarrow> string \<Rightarrow> nat" where
  "read_from r s = (case map_of (mr_read r) s of Some n \<Rightarrow> n | None \<Rightarrow> 0)"

definition memory_redis :: "memory_redis redis_api" where
  "memory_redis = \<lparr>
     xlen = (\<lambda>s r. (Some (int (length (entries r s))), r)),
     xadd = (\<lambda>s f r. (let i = show_nat (length (entries r s))
                      in (Some i, r\<lparr>mr_streams := AList.update s (entries r s @ [(i, f)]) (mr_streams r)\<rparr>))),
     xgroup_create = (\<lambda>s g r. r),
     xreadgroup = (\<lambda>g c s n r.
       (let new = take n (drop (read_from r s) (entries r s))
        in if new = [] then (None, r)
           else (Some new, r\<lparr>mr_read := AList.update s (read_from r s + length new) (mr_read r)\<rparr>))),
     xack = (\<lambda>s g i r. r),
     set_ttl = (\<lambda>k v e r. r\<lparr>mr_keys := AList.update k v (mr_keys r)\<rparr>),
     get_key = (\<lambda>k r. (map_of (mr_keys r) k, r)),
     publish = (\<lambda>c m r. r\<lparr>mr_published := mr_published r @ [(c, m)]\<rparr>)\<rparr>"

definition empty_redis :: memory_redis where
  "empty_redis = \<lparr>mr_streams = [], mr_read = [], mr_keys = [], mr_published = []\<rparr>"

lemma memory_redis_laws: "stream_laws memory_redis (\<lambda>r s. length (entries r s))"
  by (simp add: stream_laws_def memory_redis_def entries_def Let_def go_map)

definition demo_job :: Job where
  "demo_job = \<lparr>JobID = '''', Payload = ''{}'', UserID = ''u1'', AccountLevel = ''free'', IsAdmin = ''false'',
     UserVerified = ''true''\<rparr>"

definition demo_config :: "(memory_redis, nat) worker_config" where
  "demo_config = \<lparr>wc_api = memory_redis, wc_Stream = StreamRouting, wc_Count = 1,
     wc_Process = (\<lambda>job n. (Inr (JObj []), Suc n)), wc_ResultTTL = 300\<rparr>"

section \<open>Properties\<close>

text \<open>
  A job crosses the stream unchanged: the worker that reads the entry of an enqueued job
  sees the payload and the user's identity as the handler passed them, under the job ID
  the handler was given, and calls downstream on behalf of that user.
\<close>

theorem job_survives_the_stream:
  "parseJob (job_fields uuid job now_ms) = job\<lparr>JobID := uuid\<rparr> \<and>
   UserMetadataCtx (parseJob (job_fields uuid job now_ms)) = UserMetadataCtx job"
  by (cases job) (simp add: parseJob_def job_fields_def UserMetadataCtx_def Let_def)

text \<open>
  (C33) What a worker stores for a job reads back exactly: the text is valid UTF-8, so that
  reading it replaces no byte, and it decodes to the submitter and to the job's result, for
  every outcome of the processing, errors included; the data of a success is a JSON value with
  well-formed numbers, as \<open>Marshal\<close> writes them.  The user name and the texts of the result
  may hold anything that is valid UTF-8, quotes, line breaks and markup included; in other
  bytes \<open>encoding/json\<close> would write the replacement character.
\<close>

theorem stored_result_round_trip:
  assumes "valid_utf8 (UserID job)" and "\<And>d. res = Inr d \<Longrightarrow> wf_json d \<and> utf8_json d"
  shows "valid_utf8 (result_payload job res) \<and>
    decode_stored (result_payload job res) =
      Some \<lparr>sr_UserID = UserID job, sr_Result = Some (job_result_json (process_result res))\<rparr>"
proof
  have wf: "wf_json (job_result_json (process_result res))" using assms(2) by (intro wf_result) blast
  moreover have "utf8_json (job_result_json (process_result res))" using assms(2) by (intro utf8_result) blast
  ultimately show "valid_utf8 (result_payload job res)"
    unfolding result_payload_def using assms(1)
    by (intro valid_utf8_print_json) (simp_all add: stored_json_def valid_utf8_ascii)
  show "decode_stored (result_payload job res) =
      Some \<lparr>sr_UserID = UserID job, sr_Result = Some (job_result_json (process_result res))\<rparr>"
    unfolding result_payload_def by (rule decode_stored_payload[OF wf])
qed

lemma show_five: "show_nat 5 = ''5''"
  by code_simp

theorem stored_result_round_trip_witness:
  "let job = demo_job\<lparr>UserID := ''u\"1<&>'' @ [CHR 0xC3, CHR 0xA9, CHR 0x0A]\<rparr>
   in decode_stored (result_payload job (Inl (StatusError NotFound ''no route''))) =
      Some \<lparr>sr_UserID = UserID job, sr_Result = Some (JObj [(''success'', JBool False),
        (''error'', JObj [(''code'', JNum ''5''), (''message'', JStr ''not found'')])])\<rparr>"
proof -
  let ?job = "demo_job\<lparr>UserID := ''u\"1<&>'' @ [CHR 0xC3, CHR 0xA9, CHR 0x0A]\<rparr>"
  have "valid_utf8 (''u\"1<&>'' @ [CHR 0xC3, CHR 0xA9, CHR 0x0A])" by code_simp
  then have "valid_utf8 (UserID ?job)" by simp
  from stored_result_round_trip[OF this, of "Inl (StatusError NotFound ''no route'')"] show ?thesis
    by (simp add: Let_def job_result_json_def process_result_def GrpcErrToJobError_def
        job_error_json_def status_code_def code_num_def jobErrorMessage_def NotFound_def show_five)
qed

text \<open>
  (C34) The depth bound counts the entries a stream ever got, not the jobs that wait: once
  \<open>maxDepth\<close> jobs have been enqueued, every later job is refused as "queue full", however
  many of them the workers have processed and acknowledged in between, since reading and
  acknowledging removes nothing and nothing trims the stream.
\<close>

theorem queue_never_drains:
  assumes "stream_laws api len" and "wc_api cfg = api" and "maxDepth \<le> int (len r stream)"
  shows "fst (Enqueue api maxDepth uuid now stream job (fst (runWorker cfg wid n (r, w)))) = Inl ErrQueueFull"
  using assms by (simp add: Enqueue_len[OF assms(1)] runWorker_len[OF assms(1,2)])

theorem queue_never_drains_witness:
  "(case Enqueue memory_redis 1 ''id1'' 0 StreamRouting demo_job empty_redis of
      (Inr _, r) \<Rightarrow>
        fst (Enqueue memory_redis 1 ''id2'' 9 StreamRouting demo_job (fst (runWorker demo_config ''worker-0'' 5 (r, 0)))) =
        Inl ErrQueueFull
    | _ \<Rightarrow> False)"
proof -
  let ?r = "snd (xadd memory_redis StreamRouting (job_fields ''id1'' demo_job 0) empty_redis)"
  have e: "Enqueue memory_redis 1 ''id1'' 0 StreamRouting demo_job empty_redis = (Inr ''id1'', ?r)"
    by (simp add: Enqueue_len[OF memory_redis_laws] entries_def empty_redis_def)
  have "(1 :: int) \<le> int (length (entries ?r StreamRouting))"
    by (simp add: memory_redis_def entries_def empty_redis_def Let_def)
  moreover have "wc_api demo_config = memory_redis" by (simp add: demo_config_def)
  ultimately show ?thesis
    using queue_never_drains[OF memory_redis_laws, of demo_config 1 ?r StreamRouting] by (simp add: e)
qed

text \<open>
  The producer keeps the bound: a job is accepted exactly while the stream holds fewer
  than \<open>maxDepth\<close> entries, a refused job leaves Redis as it was, and no sequence of
  enqueues, one after the other, takes a stream beyond the bound.
\<close>

theorem enqueue_bounds_the_stream:
  assumes "stream_laws api len" and "int (len r stream) \<le> maxDepth"
  shows "int (len (foldl (\<lambda>r (u, t, job). snd (Enqueue api maxDepth u t stream job r)) r jobs) stream) \<le> maxDepth \<and>
    (fst (Enqueue api maxDepth uuid now stream job r) = Inr uuid \<longleftrightarrow> int (len r stream) < maxDepth) \<and>
    (fst (Enqueue api maxDepth uuid now stream job r) = Inl ErrQueueFull \<longrightarrow>
       snd (Enqueue api maxDepth uuid now stream job r) = r)"
proof -
  have one: "int (len (snd (Enqueue api maxDepth u t stream j r)) stream) \<le> maxDepth"
    if "int (len r stream) \<le> maxDepth" for u t j r
    using that assms(1) by (auto simp: Enqueue_len[OF assms(1)] stream_laws_def)
  have "int (len (foldl (\<lambda>r (u, t, job). snd (Enqueue api maxDepth u t stream job r)) r jobs) stream) \<le> maxDepth"
    using assms(2) by (induction jobs arbitrary: r) (auto simp: one)
  then show ?thesis by (auto simp: Enqueue_len[OF assms(1)])
qed

theorem enqueue_bounds_the_stream_witness:
  "fst (Enqueue memory_redis 2 ''id1'' 0 StreamRouting demo_job empty_redis) = Inr ''id1''"
  using enqueue_bounds_the_stream[OF memory_redis_laws, of empty_redis StreamRouting 2 "[]" "''id1''" 0 demo_job]
  by (simp add: entries_def empty_redis_def)

end
