(* ===== verification/Sse_Hub.thy ===== *)
theory Sse_Hub
  imports Job_Queue
begin

text \<open>
  \<open>internal/sse/hub.go\<close>: the handler that waits for a job's result and writes it to the
  client as a server-sent event, and the race between this wait and the worker that stores
  and publishes the result.  The wait is modelled twice: as a function of what the
  environment lets happen (what it writes), and as a step relation interleaved with the
  worker of \<open>Job_Queue\<close> (whether the result can be missed).
\<close>

section \<open>Events\<close>

definition writeSSEEvent :: "response \<Rightarrow> string \<Rightarrow> string \<Rightarrow> response" where
  "writeSSEEvent w event data =
     write_body w (''event: '' @ event @ [CHR 0x0A] @ ''data: '' @ data @ [CHR 0x0A, CHR 0x0A])"

definition quote_text :: "string \<Rightarrow> string" where
  "quote_text s = [CHR 0x22] @ s @ [CHR 0x22]"

definition notFoundEvent :: string where
  "notFoundEvent = print_json (JObj [(''code'', JNum ''5''), (''message'', JStr ''not found'')])"

definition timeoutEvent :: string where
  "timeoutEvent = print_json (JObj [(''code'', JNum ''4''), (''message'', JStr ''timeout'')])"

definition noStreamEvent :: string where
  "noStreamEvent = print_json (JObj [(''code'', JNum ''13''), (''message'', JStr ''streaming not supported'')])"

definition resultForUser :: "string \<Rightarrow> string \<Rightarrow> string option" where
  "resultForUser payload userID =
     (case decode_stored payload of
        None \<Rightarrow> None
      | Some st \<Rightarrow>
          if sr_UserID st \<noteq> userID then None
          else Some (case sr_Result st of Some v \<Rightarrow> print_json v | None \<Rightarrow> ''''))"

text \<open>What ends the wait: a published message, the timer of 30 seconds, or the end of the
  request.\<close>

datatype wait_event = Message string | TimedOut | RequestDone

definition deliver :: "response \<Rightarrow> string \<Rightarrow> string \<Rightarrow> response" where
  "deliver w payload userID =
     (case resultForUser payload userID of
        Some data \<Rightarrow> writeSSEEvent w ''result'' data
      | None \<Rightarrow> writeSSEEvent w ''error'' notFoundEvent)"

text \<open>\<open>stored\<close> is the answer of \<open>GET\<close> (\<open>None\<close> for an error or no key), made after
  subscribing; \<open>event\<close> is what happens first after it.\<close>

definition WaitForResult ::
  "bool \<Rightarrow> string option \<Rightarrow> wait_event \<Rightarrow> string \<Rightarrow> response \<Rightarrow> response" where
  "WaitForResult flusher stored event userID w =
     (if \<not> flusher then writeSSEEvent w ''error'' noStreamEvent
      else
        (case stored of
           Some existing \<Rightarrow> deliver w existing userID
         | None \<Rightarrow>
             (case event of
                Message payload \<Rightarrow> deliver w payload userID
              | TimedOut \<Rightarrow> writeSSEEvent w ''error'' timeoutEvent
              | RequestDone \<Rightarrow> w)))"

section \<open>The wait and the worker, interleaved\<close>

datatype client_phase = Starting | Subscribed | Waiting | Finished string

datatype worker_phase = Processing | Stored | Published

record wait_state =
  ws_client :: client_phase
  ws_active :: bool
  ws_worker :: worker_phase
  ws_stored :: "string option"
  ws_mailbox :: "string list"

definition wait_start :: wait_state where
  "wait_start = \<lparr>ws_client = Starting, ws_active = False, ws_worker = Processing, ws_stored = None,
     ws_mailbox = []\<rparr>"

text \<open>
  The subscription may be active from the moment \<open>Subscribe\<close> returns (\<open>sync\<close>), or only
  some time after it: \<open>go-redis\<close> sends the command without waiting for Redis's confirmation,
  and \<open>GET\<close> travels on another connection.  A message published while the subscription is
  active stays in the channel until it is read; before that it is lost.
\<close>

inductive wait_step :: "bool \<Rightarrow> string \<Rightarrow> wait_state \<Rightarrow> wait_state \<Rightarrow> bool" for sync payload where
  subscribe: "ws_client s = Starting \<Longrightarrow>
    wait_step sync payload s (s\<lparr>ws_client := Subscribed, ws_active := sync\<rparr>)"
| activate: "ws_client s \<noteq> Starting \<Longrightarrow> wait_step sync payload s (s\<lparr>ws_active := True\<rparr>)"
| get_hit: "ws_client s = Subscribed \<Longrightarrow> ws_stored s = Some p \<Longrightarrow>
    wait_step sync payload s (s\<lparr>ws_client := Finished p\<rparr>)"
| get_miss: "ws_client s = Subscribed \<Longrightarrow> ws_stored s = None \<Longrightarrow>
    wait_step sync payload s (s\<lparr>ws_client := Waiting\<rparr>)"
| receive: "ws_client s = Waiting \<Longrightarrow> ws_mailbox s = p # ps \<Longrightarrow>
    wait_step sync payload s (s\<lparr>ws_client := Finished p, ws_mailbox := ps\<rparr>)"
| store: "ws_worker s = Processing \<Longrightarrow>
    wait_step sync payload s (s\<lparr>ws_worker := Stored, ws_stored := Some payload\<rparr>)"
| publish: "ws_worker s = Stored \<Longrightarrow>
    wait_step sync payload s (s\<lparr>ws_worker := Published,
      ws_mailbox := ws_mailbox s @ (if ws_active s then [payload] else [])\<rparr>)"

inductive reachable :: "bool \<Rightarrow> string \<Rightarrow> wait_state \<Rightarrow> bool" for sync payload where
  start: "reachable sync payload wait_start"
| step: "reachable sync payload s \<Longrightarrow> wait_step sync payload s t \<Longrightarrow> reachable sync payload t"

inductive_cases wait_stepE: "wait_step sync payload s t"

definition result_missed :: "wait_state \<Rightarrow> bool" where
  "result_missed s \<longleftrightarrow> ws_client s = Waiting \<and> ws_worker s = Published \<and> ws_mailbox s = []"

section \<open>Invariants\<close>

definition genuine :: "string \<Rightarrow> wait_state \<Rightarrow> bool" where
  "genuine payload s \<longleftrightarrow>
     (\<forall>p. ws_client s = Finished p \<longrightarrow> p = payload) \<and>
     (ws_stored s = (if ws_worker s = Processing then None else Some payload)) \<and>
     set (ws_mailbox s) \<subseteq> {payload}"

lemma genuine_step: "wait_step sync payload s t \<Longrightarrow> genuine payload s \<Longrightarrow> genuine payload t"
  by (induction rule: wait_step.induct) (auto simp: genuine_def split: if_splits)

lemma reachable_genuine: "reachable sync payload s \<Longrightarrow> genuine payload s"
proof (induction rule: reachable.induct)
  case (step s t)
  then show ?case using genuine_step by blast
qed (simp add: genuine_def wait_start_def)

text \<open>A state from which the result cannot be missed any more: the client has it, will find
  it stored, or has a subscription that is active before the publication or has received it.\<close>

definition secured :: "wait_state \<Rightarrow> bool" where
  "secured s \<longleftrightarrow>
     (\<exists>p. ws_client s = Finished p) \<or>
     ws_stored s \<noteq> None \<and> ws_client s \<in> {Starting, Subscribed} \<or>
     ws_client s \<noteq> Starting \<and> (ws_active s \<and> ws_worker s \<noteq> Published \<or> ws_mailbox s \<noteq> [])"

lemma reachable_active: "reachable sync payload s \<Longrightarrow> ws_active s \<Longrightarrow> ws_client s \<noteq> Starting"
proof (induction rule: reachable.induct)
  case (step s t)
  from step.hyps(2) step.IH step.prems show ?case by (cases rule: wait_step.cases) auto
qed (simp add: wait_start_def)

lemma secured_step:
  "wait_step sync payload s t \<Longrightarrow> genuine payload s \<Longrightarrow> secured s \<Longrightarrow> secured t"
  by (induction rule: wait_step.induct) (auto simp: secured_def genuine_def split: if_splits)

lemma missed_for_good: "wait_step sync payload s t \<Longrightarrow> result_missed s \<Longrightarrow> result_missed t"
  by (induction rule: wait_step.induct) (auto simp: result_missed_def)

lemma missed_path:
  "reachable False payload \<lparr>ws_client = Waiting, ws_active = False, ws_worker = Published,
     ws_stored = Some payload, ws_mailbox = []\<rparr>"
proof -
  let ?s1 = "\<lparr>ws_client = Subscribed, ws_active = False, ws_worker = Processing, ws_stored = None, ws_mailbox = []\<rparr>"
  let ?s2 = "?s1\<lparr>ws_client := Waiting\<rparr>"
  let ?s3 = "?s2\<lparr>ws_worker := Stored, ws_stored := Some payload\<rparr>"
  have 1: "reachable False payload ?s1"
    using step[OF start subscribe[of wait_start False payload]] by (simp add: wait_start_def)
  have 2: "reachable False payload ?s2"
    using step[OF 1 get_miss[of ?s1 False payload]] by simp
  have 3: "reachable False payload ?s3"
    using step[OF 2 store[of ?s2 False payload]] by simp
  show ?thesis
    using step[OF 3 publish[of ?s3 False payload]] by simp
qed

section \<open>What is written\<close>

lemma resultForUser_payload:
  assumes "\<And>d. res = Inr d \<Longrightarrow> wf_json d"
  shows "resultForUser (result_payload job res) userID =
    (if userID = UserID job then Some (print_json (job_result_json (process_result res))) else None)"
proof -
  have "decode_stored (result_payload job res) =
      Some \<lparr>sr_UserID = UserID job, sr_Result = Some (job_result_json (process_result res))\<rparr>"
    unfolding result_payload_def by (rule decode_stored_payload) (rule wf_result[OF assms])
  then show ?thesis by (auto simp: resultForUser_def)
qed

lemma out_writeSSEEvent:
  "out (writeSSEEvent w ev data) =
   out w @ ''event: '' @ ev @ [CHR 0x0A] @ ''data: '' @ data @ [CHR 0x0A, CHR 0x0A]"
  by (simp add: writeSSEEvent_def write_body_def write_header_def Let_def split: option.split)

section \<open>Properties\<close>

text \<open>
  (C36) Only one race can lose a result, whether or not \<open>Subscribe\<close> waits for its confirmation:
  once the result is stored before the client's \<open>GET\<close>, or the subscription is active before
  the publication, then in every continuation the result is not missed, and a client that has
  subscribed and not finished when the worker has published has a step that finishes it with
  the worker's payload.
\<close>

theorem stored_or_subscribed_in_time_is_found:
  assumes "reachable sync payload s"
    and "ws_stored s \<noteq> None \<and> ws_client s \<in> {Starting, Subscribed} \<or> ws_active s \<and> ws_worker s \<noteq> Published"
    and "(wait_step sync payload)\<^sup>*\<^sup>* s t"
  shows "\<not> result_missed t \<and>
    (ws_worker t = Published \<and> ws_client t \<in> {Subscribed, Waiting} \<longrightarrow>
       (\<exists>u. wait_step sync payload t u \<and> ws_client u = Finished payload))"
proof -
  have "secured s" using assms(1,2) reachable_active[OF assms(1)] by (auto simp: secured_def)
  with assms(3) assms(1) have t: "secured t \<and> reachable sync payload t"
  proof (induction rule: rtranclp_induct)
    case (step t u)
    then show ?case using secured_step reachable_genuine reachable.step by blast
  qed simp
  then have g: "genuine payload t" using reachable_genuine by blast
  have "\<exists>u. wait_step sync payload t u \<and> ws_client u = Finished payload"
    if pub: "ws_worker t = Published" "ws_client t \<in> {Subscribed, Waiting}"
  proof (cases "ws_client t = Subscribed")
    case True
    with g pub(1) get_hit[OF True, of payload sync payload] show ?thesis
      by (intro exI[of _ "t\<lparr>ws_client := Finished payload\<rparr>"]) (simp add: genuine_def)
  next
    case False
    with pub t obtain q qs where q: "ws_mailbox t = q # qs"
      by (cases "ws_mailbox t") (auto simp: secured_def)
    with g have "q = payload" by (auto simp: genuine_def)
    with receive[OF _ q, of sync payload] False pub(2) show ?thesis
      by (intro exI[of _ "t\<lparr>ws_client := Finished q, ws_mailbox := qs\<rparr>"]) simp
  qed
  moreover from t have "\<not> result_missed t" by (auto simp: secured_def result_missed_def)
  ultimately show ?thesis by blast
qed

text \<open>A client whose subscription is confirmed late, but before the worker publishes.\<close>

theorem stored_or_subscribed_in_time_is_found_witness:
  "\<exists>t u. reachable False ''r'' t \<and> ws_worker t = Published \<and> ws_client t = Waiting \<and>
     wait_step False ''r'' t u \<and> ws_client u = Finished ''r''"
proof -
  let ?s1 = "wait_start\<lparr>ws_client := Subscribed\<rparr>"
  let ?s2 = "?s1\<lparr>ws_client := Waiting\<rparr>"
  let ?s3 = "?s2\<lparr>ws_active := True\<rparr>"
  let ?s4 = "?s3\<lparr>ws_worker := Stored, ws_stored := Some ''r''\<rparr>"
  let ?s5 = "?s4\<lparr>ws_worker := Published, ws_mailbox := [''r'']\<rparr>"
  have 1: "reachable False ''r'' ?s1" using step[OF start subscribe[of wait_start False]] by (simp add: wait_start_def)
  have 2: "reachable False ''r'' ?s2" using step[OF 1 get_miss[of ?s1]] by (simp add: wait_start_def)
  have 3: "reachable False ''r'' ?s3" using step[OF 2 activate[of ?s2]] by (simp add: wait_start_def)
  have 4: "wait_step False ''r'' ?s3 ?s4" using store[of ?s3 False "''r''"] by (simp add: wait_start_def)
  have 5: "wait_step False ''r'' ?s4 ?s5" using publish[of ?s4 False "''r''"] by (simp add: wait_start_def)
  have run: "(wait_step False ''r'')\<^sup>*\<^sup>* ?s3 ?s5"
    using 4 5 by (meson converse_rtranclp_into_rtranclp r_into_rtranclp)
  have t: "reachable False ''r'' ?s5" by (rule step[OF step[OF 3 4] 5])
  have "ws_active ?s3 \<and> ws_worker ?s3 \<noteq> Published" by (simp add: wait_start_def)
  with stored_or_subscribed_in_time_is_found[OF 3 _ run] obtain u where
    u: "wait_step False ''r'' ?s5 u" "ws_client u = Finished ''r''" by auto
  show ?thesis by (rule exI[of _ ?s5], rule exI[of _ u], intro conjI t u) simp_all
qed

text \<open>
  (C37) Without that confirmation, which \<open>go-redis\<close> does not wait for, the result can be
  missed: a schedule exists after which the worker has stored and published while the client
  waits with nothing in its channel, and no step of anyone ever changes that, so that the
  client is told of a timeout although its result is stored.
\<close>

theorem unconfirmed_subscription_can_miss:
  "\<exists>s. reachable False payload s \<and> ws_stored s = Some payload \<and>
     (\<forall>t. (wait_step False payload)\<^sup>*\<^sup>* s t \<longrightarrow> result_missed t)"
proof -
  let ?s = "\<lparr>ws_client = Waiting, ws_active = False, ws_worker = Published, ws_stored = Some payload, ws_mailbox = []\<rparr>"
  have "result_missed t" if "(wait_step False payload)\<^sup>*\<^sup>* ?s t" for t
    using that by (induction rule: rtranclp_induct) (simp add: result_missed_def, rule missed_for_good)
  with missed_path[of payload] show ?thesis by (intro exI[of _ ?s]) simp
qed

theorem unconfirmed_subscription_can_miss_witness:
  "\<exists>s. reachable False ''r'' s \<and> result_missed s \<and> ws_stored s = Some ''r''"
  using unconfirmed_subscription_can_miss[of "''r''"] by blast

text \<open>
  An event of a result is one frame: however the result is nested and whatever its
  texts hold, the lines written are the event's name, one data line with the whole result
  and the empty line that ends the frame, so that no content can forge a second event.
\<close>

theorem result_is_one_frame:
  assumes "wf_json v" and "CHR 0x0A \<notin> set ev"
  shows "split_on (CHR 0x0A) (out (writeSSEEvent fresh_response ev (print_json v))) =
    [''event: '' @ ev, ''data: '' @ print_json v, '''', '''']"
proof -
  have "CHR 0x0A \<notin> set (print_json v)"
    using printable_json(1)[OF assms(1)] by (auto simp: list_all_iff)
  then show ?thesis
    using assms(2)
    by (simp add: out_writeSSEEvent fresh_response_def split_on_append split_on_absent flip: append_assoc)
qed

theorem result_is_one_frame_witness:
  "split_on (CHR 0x0A) (out (writeSSEEvent fresh_response ''result'' (print_json (JStr [CHR 0x0A, CHR 0x0A])))) ! 2 = ''''"
  by (subst result_is_one_frame) simp_all

end
