(* ===== verification/Request_Bodies.thy ===== *)
theory Request_Bodies
  imports Grpc_Errors Go_Net
begin

text \<open>
  JSON request bodies: \<open>decodeBody\<close> of \<open>internal/handlers/auth.go\<close>, the decoding of the
  request structs of the handlers (\<open>encoding/json\<close>'s rules for the fields they use), and the
  steps the handlers share: the token of the request, the body, the answer to a gRPC call.
\<close>

section \<open>Request bodies\<close>

datatype 'q scanned = Complete 'q | Malformed | Incomplete

datatype 'q decoded = Decoded 'q | TooLarge | Invalid

text \<open>
  \<open>scan\<close> tells what the first JSON value of the bytes read so far is, if it is complete.
\<close>

text \<open>The decoder stops at the end of the first value; it meets the body's bound only when
  the value has not ended before it.\<close>

definition decode_body :: "(string \<Rightarrow> 'q scanned) \<Rightarrow> body \<Rightarrow> 'q decoded" where
  "decode_body scan b =
     (let (avail, over) = (case max_bytes b of
                             Some n \<Rightarrow> (take (nat n) (content b), n < int (length (content b)))
                           | None \<Rightarrow> (content b, False))
      in case scan avail of
           Complete q \<Rightarrow> Decoded q
         | Malformed \<Rightarrow> Invalid
         | Incomplete \<Rightarrow> if over then TooLarge else Invalid)"

definition decodeBody :: "(string \<Rightarrow> 'q scanned) \<Rightarrow> response \<Rightarrow> request \<Rightarrow> response + 'q" where
  "decodeBody scan w r =
     (case decode_body scan (r_body r) of
        Decoded q \<Rightarrow> Inr q
      | TooLarge \<Rightarrow> Inl (http_error w ''request body too large'' 413)
      | Invalid \<Rightarrow> Inl (http_error w ''invalid request body'' 400))"

section \<open>Struct fields\<close>

text \<open>Keys match up to case, unknown keys are skipped, the last one wins, \<open>null\<close> changes
  nothing, and a value of another type fails the decoding.\<close>

definition members_of :: "json \<Rightarrow> (string \<times> json) list option" where
  "members_of v = (case v of JObj ms \<Rightarrow> Some ms | JNull \<Rightarrow> Some [] | _ \<Rightarrow> None)"

definition values_of :: "string \<Rightarrow> (string \<times> json) list \<Rightarrow> json list" where
  "values_of name ms = map snd (filter (\<lambda>(k, v). equal_fold k name) ms)"

definition str_field :: "string \<Rightarrow> (string \<times> json) list \<Rightarrow> string option" where
  "str_field name ms =
     foldl (\<lambda>acc v. case (acc, v) of (Some _, JStr t) \<Rightarrow> Some t | (Some s, JNull) \<Rightarrow> Some s | _ \<Rightarrow> None)
       (Some '''') (values_of name ms)"

definition bool_field :: "string \<Rightarrow> (string \<times> json) list \<Rightarrow> bool option" where
  "bool_field name ms =
     foldl (\<lambda>acc v. case (acc, v) of (Some _, JBool b) \<Rightarrow> Some b | (Some s, JNull) \<Rightarrow> Some s | _ \<Rightarrow> None)
       (Some False) (values_of name ms)"

definition str_list :: "json list \<Rightarrow> string list option" where
  "str_list vs = those (map (\<lambda>v. case v of JStr t \<Rightarrow> Some t | JNull \<Rightarrow> Some '''' | _ \<Rightarrow> None) vs)"

definition strs_field :: "string \<Rightarrow> (string \<times> json) list \<Rightarrow> string list option" where
  "strs_field name ms =
     foldl (\<lambda>acc v. case (acc, v) of
              (Some _, JArr vs) \<Rightarrow> str_list vs | (Some s, JNull) \<Rightarrow> Some [] | _ \<Rightarrow> None)
       (Some []) (values_of name ms)"

definition str_fields :: "string list \<Rightarrow> json \<Rightarrow> string list option" where
  "str_fields names v =
     (case members_of v of None \<Rightarrow> None | Some ms \<Rightarrow> those (map (\<lambda>n. str_field n ms) names))"

section \<open>The steps of a handler\<close>

type_synonym 's outcome = "response \<times> 's"

definition with_jwt :: "swlib \<Rightarrow> request \<Rightarrow> response \<Rightarrow> 's \<Rightarrow> (string \<Rightarrow> 's outcome) \<Rightarrow> 's outcome" where
  "with_jwt lib r w s k =
     (let (token, ok) = getJwt lib (r_ctx r)
      in if \<not> ok then (http_error w ''unauthorized'' 401, s) else k token)"

definition with_body ::
  "(string \<Rightarrow> json scanned) \<Rightarrow> (json \<Rightarrow> 'q option) \<Rightarrow> request \<Rightarrow> response \<Rightarrow> 's \<Rightarrow> ('q \<Rightarrow> 's outcome) \<Rightarrow> 's outcome" where
  "with_body scan decode r w s k =
     (case decodeBody (\<lambda>t. case scan t of
                         Complete v \<Rightarrow> (case decode v of Some q \<Rightarrow> Complete q | None \<Rightarrow> Malformed)
                       | Malformed \<Rightarrow> Malformed | Incomplete \<Rightarrow> Incomplete) w r of
        Inl w' \<Rightarrow> (w', s)
      | Inr q \<Rightarrow> k q)"

definition with_call :: "response \<Rightarrow> (go_error + 'a) \<times> 's \<Rightarrow> ('a \<Rightarrow> response) \<Rightarrow> 's outcome" where
  "with_call w called k =
     (case called of (Inl err, s') \<Rightarrow> (writeError w err, s') | (Inr a, s') \<Rightarrow> (k a, s'))"

end
