(* ===== verification/Stream_Jobs.thy ===== *)
theory Stream_Jobs
  imports Sse_Hub Request_Bodies
begin

text \<open>
  The handlers that answer with an event stream: \<open>Route\<close> and \<open>streamJob\<close>
  (\<open>internal/handlers/route.go\<close>), \<open>Reroute\<close>'s shape of the same (\<open>reroute.go\<close>) and
  \<open>enqueueAndStream\<close> (\<open>search.go\<close>).  Decoding a body into their request types is the
  argument \<open>scan\<close> of \<open>Request_Bodies\<close>.
\<close>

section \<open>Streaming a job\<close>

text \<open>
  What a request finds outside the handler: the next UUID, the time, whether the connection
  streams, and what the wait for a result meets (\<open>await\<close>).
\<close>

record 'r stream_env =
  se_api :: "'r redis_api"
  se_maxDepth :: int
  se_uuid :: string
  se_now :: int
  se_flusher :: bool
  se_await :: "string \<Rightarrow> 'r \<Rightarrow> wait_event \<times> 'r"

definition job_of_claims :: "claims \<Rightarrow> string \<Rightarrow> Job" where
  "job_of_claims c payload =
     \<lparr>JobID = '''', Payload = payload, UserID = subject c,
      AccountLevel = (case sw_claims c of Some u \<Rightarrow> account_level u | None \<Rightarrow> ''''),
      IsAdmin = show_bool (case sw_claims c of Some u \<Rightarrow> is_admin u | None \<Rightarrow> False),
      UserVerified = show_bool (email_verified c = Some True)\<rparr>"

definition queued_event :: "string \<Rightarrow> int \<Rightarrow> string" where
  "queued_event jobID depth = ''{'' @ quote_text ''job_id'' @ '':'' @ quote_text jobID @ '','' @
     quote_text ''queue_position'' @ '':'' @ show_int depth @ ''}''"

definition stream_headers :: "response \<Rightarrow> response" where
  "stream_headers w =
     write_header
       (set_header (set_header (set_header w ''Content-Type'' ''text/event-stream'')
          ''Cache-Control'' ''no-cache'') ''X-Accel-Buffering'' ''no'') 200"

text \<open>The part both handlers share, from the enqueuing on.\<close>

definition enqueue_and_wait ::
  "'r stream_env \<Rightarrow> string \<Rightarrow> claims \<Rightarrow> string \<Rightarrow> response \<Rightarrow> 'r \<Rightarrow> response \<times> 'r" where
  "enqueue_and_wait env stream c payload w r =
     (case Enqueue (se_api env) (se_maxDepth env) (se_uuid env) (se_now env) stream (job_of_claims c payload) r of
        (Inl ErrQueueFull, r1) \<Rightarrow> (http_error (set_header w ''Retry-After'' ''30'') ''queue full'' 429, r1)
      | (Inl RedisError, r1) \<Rightarrow> (http_error w ''internal error'' 500, r1)
      | (Inr jobID, r1) \<Rightarrow>
          (let w1 = stream_headers w;
               (depth, r2) = QueueDepth (se_api env) stream r1;
               w2 = writeSSEEvent w1 ''queued'' (queued_event jobID (case depth of Some d \<Rightarrow> d | None \<Rightarrow> 0))
           in if \<not> se_flusher env then (WaitForResult False None RequestDone (subject c) w2, r2)
              else
                (let (existing, r3) = get_key (se_api env) (result_key jobID) r2
                 in case existing of
                      Some p \<Rightarrow> (WaitForResult True (Some p) RequestDone (subject c) w2, r3)
                    | None \<Rightarrow>
                        (let (ev, r4) = se_await env jobID r3
                         in (WaitForResult True None ev (subject c) w2, r4)))))"

definition streamJob ::
  "'r stream_env \<Rightarrow> string \<Rightarrow> ('q \<Rightarrow> string option) \<Rightarrow> 'q \<Rightarrow> claims \<Rightarrow> response \<Rightarrow> 'r \<Rightarrow> response \<times> 'r" where
  "streamJob env stream marshal body c w r =
     (case marshal body of
        None \<Rightarrow> (http_error w ''internal error'' 500, r)
      | Some payload \<Rightarrow> enqueue_and_wait env stream c payload w r)"

definition Route_handler ::
  "swlib \<Rightarrow> 'r stream_env \<Rightarrow> (string \<Rightarrow> 'q scanned) \<Rightarrow> ('q \<Rightarrow> string option) \<Rightarrow> 'r handler" where
  "Route_handler lib env scan marshal r w s =
     (case getClaims lib (r_ctx r) of
        (Some c, True) \<Rightarrow>
          (case decodeBody scan w r of
             Inl w' \<Rightarrow> (w', s)
           | Inr q \<Rightarrow> streamJob env StreamRouting marshal q c w s)
      | _ \<Rightarrow> (http_error w ''unauthorized'' 401, s))"

text \<open>\<open>Reroute\<close> also validates the decoded request; the text of its error is answered.\<close>

definition Reroute_handler ::
  "swlib \<Rightarrow> 'r stream_env \<Rightarrow> (string \<Rightarrow> 'q scanned) \<Rightarrow> ('q \<Rightarrow> string option) \<Rightarrow> ('q \<Rightarrow> string option) \<Rightarrow> 'r handler" where
  "Reroute_handler lib env scan validate marshal r w s =
     (case getClaims lib (r_ctx r) of
        (Some c, True) \<Rightarrow>
          (case decodeBody scan w r of
             Inl w' \<Rightarrow> (w', s)
           | Inr q \<Rightarrow>
               (case validate q of
                  Some e \<Rightarrow> (http_error w e 400, s)
                | None \<Rightarrow> streamJob env StreamRerouting marshal q c w s))
      | _ \<Rightarrow> (http_error w ''unauthorized'' 401, s))"

text \<open>\<open>buildPayload\<close> decodes the body and marshals it with its kind.\<close>

definition enqueueAndStream ::
  "swlib \<Rightarrow> 'r stream_env \<Rightarrow> string \<Rightarrow> (string \<Rightarrow> 'q scanned) \<Rightarrow> ('q \<Rightarrow> string option) \<Rightarrow> 'r handler" where
  "enqueueAndStream lib env stream scan marshal r w s =
     (case getClaims lib (r_ctx r) of
        (Some c, True) \<Rightarrow>
          (case decode_body scan (r_body r) of
             TooLarge \<Rightarrow> (http_error w ''request body too large'' 413, s)
           | Invalid \<Rightarrow> (http_error w ''invalid request body'' 400, s)
           | Decoded q \<Rightarrow>
               (case marshal q of
                  None \<Rightarrow> (http_error w ''invalid request body'' 400, s)
                | Some payload \<Rightarrow> enqueue_and_wait env stream c payload w s))
      | _ \<Rightarrow> (http_error w ''unauthorized'' 401, s))"

section \<open>Lemmas\<close>

lemma status_write_body: "committed w \<noteq> None \<Longrightarrow> status_of (write_body w d) = status_of w"
  by (auto simp: write_body_def write_header_def status_of_def Let_def split: option.splits)

lemma committed_write_body: "committed w \<noteq> None \<Longrightarrow> committed (write_body w d) = committed w"
  by (auto simp: write_body_def write_header_def Let_def split: option.splits)

lemma committed_stream_headers: "committed (stream_headers w) \<noteq> None"
  by (simp add: stream_headers_def write_header_def set_header_def split: option.split)

lemma status_stream_headers: "committed w = None \<Longrightarrow> status_of (stream_headers w) = Some 200"
  by (simp add: stream_headers_def set_header_def write_header_def status_of_def)

lemma status_wait:
  "committed w \<noteq> None \<Longrightarrow> status_of (WaitForResult f stored ev u w) = status_of w"
  by (auto simp: WaitForResult_def deliver_def writeSSEEvent_def status_write_body
      split: option.split wait_event.split)

lemma status_set_header [simp]: "committed (set_header w n v) = committed w"
  by (simp add: set_header_def)

definition enqueued :: "'r stream_env \<Rightarrow> string \<Rightarrow> claims \<Rightarrow> string \<Rightarrow> 'r \<Rightarrow> (enqueue_error + string) \<times> 'r" where
  "enqueued env stream c payload r =
     Enqueue (se_api env) (se_maxDepth env) (se_uuid env) (se_now env) stream (job_of_claims c payload) r"

lemma enqueue_and_wait_status:
  assumes "committed w = None"
  shows "status_of (fst (enqueue_and_wait env stream c payload w s)) =
    Some (case fst (enqueued env stream c payload s) of
            Inl ErrQueueFull \<Rightarrow> 429 | Inl RedisError \<Rightarrow> 500 | Inr _ \<Rightarrow> 200)"
proof -
  have "status_of (WaitForResult f stored ev u (writeSSEEvent (stream_headers w) ''queued'' d)) = Some 200"
    for f stored ev u d
    using assms committed_stream_headers[of w]
    by (simp add: status_wait writeSSEEvent_def committed_write_body status_write_body status_stream_headers)
  with assms show ?thesis
    by (auto simp: enqueue_and_wait_def enqueued_def Let_def
        split: sum.split enqueue_error.split prod.split option.split)
qed

section \<open>Properties\<close>

text \<open>The claims a handler reads, and the answer to a request that streams a job.\<close>

definition handler_claims :: "swlib \<Rightarrow> request \<Rightarrow> claims option" where
  "handler_claims lib r = (case getClaims lib (r_ctx r) of (Some c, True) \<Rightarrow> Some c | _ \<Rightarrow> None)"

text \<open>
  A routing request is answered 401 without claims, 413 or 400 for a body that is too
  large or no request, 429 when the queue is full, 500 when Redis fails, and 200 as an event
  stream exactly when its job was enqueued; on every answer before the enqueuing Redis is
  untouched.
\<close>

theorem route_answers:
  assumes "committed w = None"
  shows "(case handler_claims lib r of
      None \<Rightarrow> Route_handler lib env scan marshal r w s = (http_error w ''unauthorized'' 401, s)
    | Some c \<Rightarrow>
        (case decode_body scan (r_body r) of
           TooLarge \<Rightarrow> Route_handler lib env scan marshal r w s = (http_error w ''request body too large'' 413, s)
         | Invalid \<Rightarrow> Route_handler lib env scan marshal r w s = (http_error w ''invalid request body'' 400, s)
         | Decoded q \<Rightarrow>
             (case marshal q of
                None \<Rightarrow> Route_handler lib env scan marshal r w s = (http_error w ''internal error'' 500, s)
              | Some payload \<Rightarrow>
                  status_of (fst (Route_handler lib env scan marshal r w s)) =
                    Some (case fst (enqueued env StreamRouting c payload s) of
                            Inl ErrQueueFull \<Rightarrow> 429 | Inl RedisError \<Rightarrow> 500 | Inr _ \<Rightarrow> 200))))"
proof -
  obtain co ok where c: "getClaims lib (r_ctx r) = (co, ok)" by fastforce
  show ?thesis
    by (cases co; cases ok)
       (simp_all add: c handler_claims_def Route_handler_def decodeBody_def streamJob_def
         enqueue_and_wait_status[OF assms] split: decoded.split option.split)
qed

definition demo_env :: "memory_redis stream_env" where
  "demo_env = \<lparr>se_api = memory_redis, se_maxDepth = 0, se_uuid = ''id1'', se_now = 0, se_flusher = True,
     se_await = (\<lambda>j r. (TimedOut, r))\<rparr>"

definition demo_claims :: claims where
  "demo_claims = \<lparr>subject = ''u1'', email = None, email_verified = Some True,
     sw_claims = Some \<lparr>account_level = ''free'', is_admin = False\<rparr>\<rparr>"

definition demo_post :: "string \<Rightarrow> request" where
  "demo_post text = \<lparr>r_method = ''POST'', r_path = ''/api/v1/route'', r_raw_path = '''', r_header = [],
     r_remote_addr = ''192.0.2.7:4711'', r_tls = False,
     r_body = \<lparr>content = text, max_bytes = Some 1048576\<rparr>, r_ctx = [(ClaimsKey, VClaims demo_claims)]\<rparr>"

theorem route_answers_witness:
  "status_of (fst (Route_handler plain_swlib demo_env (\<lambda>s. Complete s) Some (demo_post ''{}'') fresh_response empty_redis)) =
   Some 429"
proof -
  have "committed fresh_response = None" by (simp add: fresh_response_def)
  note t = route_answers[OF this, where lib = plain_swlib and r = "demo_post ''{}''" and env = demo_env
      and scan = "\<lambda>s. Complete s" and marshal = Some and s = empty_redis]
  have "handler_claims plain_swlib (demo_post ''{}'') = Some demo_claims"
    by (simp add: handler_claims_def plain_swlib_def demo_post_def ctx_value_def stored_claims_def)
  moreover have "decode_body (\<lambda>s. Complete s) (r_body (demo_post ''{}'')) = Decoded ''{}''"
    by (simp add: decode_body_def demo_post_def)
  moreover have "fst (enqueued demo_env StreamRouting demo_claims ''{}'' empty_redis) = Inl ErrQueueFull"
    by (simp add: enqueued_def Enqueue_def demo_env_def memory_redis_def entries_def empty_redis_def)
  ultimately show ?thesis using t by simp
qed

text \<open>
  Who a job runs as is decided by the verified claims alone: two requests with the same
  claims, whatever their bodies and headers, put jobs on the stream that differ in the
  payload only, and an administrator or verified flag is "true" exactly when the claims say so.
\<close>

theorem job_identity_is_the_claims:
  "job_of_claims c p1 = (job_of_claims c p2)\<lparr>Payload := p1\<rparr> \<and>
   UserMetadataCtx (parseJob (job_fields uuid (job_of_claims c p1) now_ms)) =
     [(''x-user-id'', subject c),
      (''x-account-level'', case sw_claims c of Some u \<Rightarrow> account_level u | None \<Rightarrow> ''''),
      (''x-is-admin'', show_bool (case sw_claims c of Some u \<Rightarrow> is_admin u | None \<Rightarrow> False)),
      (''x-user-verified'', show_bool (email_verified c = Some True))]"
  by (simp add: job_of_claims_def UserMetadataCtx_def parseJob_def job_fields_def Let_def)

end
