(* ===== verification/Auth_Handlers.thy ===== *)
theory Auth_Handlers
  imports Request_Bodies Auth_Middleware
begin

text \<open>
  The endpoints of \<open>internal/handlers/auth.go\<close>: each decodes its request, makes at most one
  call to the auth service and answers with JSON.  The service (\<open>AuthClient\<close>) and the cookie
  functions of \<open>swlib\<close> are arguments; the state of a handler is the world behind the service.
  JSON objects made from Go maps are written with their keys in order.
\<close>

section \<open>The service and the cookies\<close>

record login_result =
  lr_access :: string
  lr_refresh :: string
  lr_mfaRequired :: bool
  lr_mfaToken :: string

record user_info =
  ui_userID :: string
  ui_email :: string
  ui_isVerified :: bool
  ui_isAdmin :: bool
  ui_accountType :: string

record 'c auth_client =
  ac_Login :: "string \<Rightarrow> string \<Rightarrow> bool \<Rightarrow> string \<Rightarrow> 'c \<Rightarrow> (go_error + login_result) \<times> 'c"
  ac_Register :: "string \<Rightarrow> string \<Rightarrow> string \<Rightarrow> 'c \<Rightarrow> (go_error + string \<times> string) \<times> 'c"
  ac_Refresh :: "string \<Rightarrow> bool \<Rightarrow> string \<Rightarrow> 'c \<Rightarrow> (go_error + string \<times> string) \<times> 'c"
  ac_Logout :: "string \<Rightarrow> 'c \<Rightarrow> (go_error + unit) \<times> 'c"
  ac_RequestPasswordReset :: "string \<Rightarrow> string \<Rightarrow> 'c \<Rightarrow> (go_error + unit) \<times> 'c"
  ac_ResetPassword :: "string \<Rightarrow> string \<Rightarrow> string \<Rightarrow> 'c \<Rightarrow> (go_error + string) \<times> 'c"
  ac_RequestMfaReset :: "string \<Rightarrow> string \<Rightarrow> string \<Rightarrow> string \<Rightarrow> 'c \<Rightarrow> (go_error + unit) \<times> 'c"
  ac_VerifyEmail :: "string \<Rightarrow> string \<Rightarrow> 'c \<Rightarrow> (go_error + unit) \<times> 'c"
  ac_ChangePassword :: "string \<Rightarrow> string \<Rightarrow> string \<Rightarrow> 'c \<Rightarrow> (go_error + string) \<times> 'c"
  ac_CheckPasswordStrength :: "string \<Rightarrow> 'c \<Rightarrow> (go_error + bool \<times> string) \<times> 'c"
  ac_WhoAmI :: "string \<Rightarrow> 'c \<Rightarrow> (go_error + user_info) \<times> 'c"
  ac_SetupMFA :: "string \<Rightarrow> 'c \<Rightarrow> (go_error + string \<times> string \<times> string) \<times> 'c"
  ac_EnableMFA :: "string \<Rightarrow> string \<Rightarrow> 'c \<Rightarrow> (go_error + string list option) \<times> 'c"
  ac_DisableMFA :: "string \<Rightarrow> string \<Rightarrow> 'c \<Rightarrow> (go_error + unit) \<times> 'c"
  ac_GetMFAStatus :: "string \<Rightarrow> 'c \<Rightarrow> (go_error + bool) \<times> 'c"
  ac_VerifyMFA :: "string \<Rightarrow> string \<Rightarrow> bool \<Rightarrow> string \<Rightarrow> 'c \<Rightarrow> (go_error + string \<times> string) \<times> 'c"
  ac_GenerateBackupCodes :: "string \<Rightarrow> string \<Rightarrow> 'c \<Rightarrow> (go_error + string list option) \<times> 'c"

text \<open>Cookies of \<open>swlib\<close>: options, and the text of a \<open>Set-Cookie\<close> line.\<close>

record 'o cookie_lib =
  optsFromContext :: "ctx \<Rightarrow> 'o"
  newOpts :: 'o
  sameSiteStrict :: "'o \<Rightarrow> 'o"
  setPath :: "string \<Rightarrow> 'o \<Rightarrow> 'o"
  serverCookie :: "string \<Rightarrow> string \<Rightarrow> 'o \<Rightarrow> string"
  clearCookie :: "string \<Rightarrow> 'o \<Rightarrow> string"

text \<open>\<open>http.SetCookie\<close> adds a line unless its text is empty.\<close>

definition set_cookie :: "response \<Rightarrow> string \<Rightarrow> response" where
  "set_cookie w line = (if line = '''' then w else w\<lparr>hdr := h_add (hdr w) ''Set-Cookie'' line\<rparr>)"

definition setAuthCookies :: "'o cookie_lib \<Rightarrow> response \<Rightarrow> request \<Rightarrow> string \<Rightarrow> string \<Rightarrow> response" where
  "setAuthCookies ck w r accessToken refreshToken =
     (let opts = sameSiteStrict ck (optsFromContext ck (r_ctx r));
          w1 = set_cookie w (serverCookie ck ''access_token'' accessToken opts);
          refreshOpts = setPath ck ''/api/v1/auth/refresh'' opts
      in set_cookie w1 (serverCookie ck ''refresh_token'' refreshToken refreshOpts))"

definition clearAuthCookies :: "'o cookie_lib \<Rightarrow> response \<Rightarrow> response" where
  "clearAuthCookies ck w =
     (let opts = sameSiteStrict ck (newOpts ck);
          w1 = set_cookie w (clearCookie ck ''access_token'' opts);
          refreshOpts = setPath ck ''/api/v1/auth/refresh'' opts
      in set_cookie w1 (clearCookie ck ''refresh_token'' refreshOpts))"

section \<open>Sessions\<close>

definition tokens_json :: "string \<Rightarrow> string \<Rightarrow> json" where
  "tokens_json a f = JObj [(''access_token'', JStr a), (''refresh_token'', JStr f)]"

definition message_json :: "string \<Rightarrow> json" where
  "message_json m = JObj [(''message'', JStr m)]"

definition orig_ip :: "swlib \<Rightarrow> request \<Rightarrow> string" where
  "orig_ip lib r = fst (getOrigIp lib (r_ctx r))"

definition login_request :: "json \<Rightarrow> (string \<times> string \<times> bool) option" where
  "login_request v =
     (case members_of v of
        None \<Rightarrow> None
      | Some ms \<Rightarrow>
          (case (str_field ''email'' ms, str_field ''password'' ms, bool_field ''remember_me'' ms) of
             (Some e, Some p, Some b) \<Rightarrow> Some (e, p, b) | _ \<Rightarrow> None))"

definition Login ::
  "swlib \<Rightarrow> 'o cookie_lib \<Rightarrow> 'c auth_client \<Rightarrow> (string \<Rightarrow> json scanned) \<Rightarrow> 'c handler" where
  "Login lib ck c scan r w s =
     with_body scan login_request r w s (\<lambda>(email, password, remember).
       with_call w (ac_Login c email password remember (orig_ip lib r) s) (\<lambda>res.
         if lr_mfaRequired res
         then writeJSON w 200 (JObj [(''mfa_required'', JBool True), (''mfa_token'', JStr (lr_mfaToken res))])
         else writeJSON (setAuthCookies ck w r (lr_access res) (lr_refresh res)) 200
                (tokens_json (lr_access res) (lr_refresh res))))"

definition Register_handler :: "'c auth_client \<Rightarrow> (string \<Rightarrow> json scanned) \<Rightarrow> 'c handler" where
  "Register_handler c scan r w s =
     with_body scan (str_fields [''email'', ''password'', ''verification_url'']) r w s (\<lambda>f.
       with_call w (ac_Register c (f ! 0) (f ! 1) (f ! 2) s) (\<lambda>(userID, message).
         writeJSON w 200 (JObj [(''message'', JStr message), (''user_id'', JStr userID)])))"

text \<open>\<open>Refresh\<close> and \<open>Logout\<close> read the body only without a refresh cookie, and take a body
  that does not decode for an empty one.\<close>

definition refresh_request :: "json \<Rightarrow> (string \<times> bool) option" where
  "refresh_request v =
     (case members_of v of
        None \<Rightarrow> None
      | Some ms \<Rightarrow>
          (case (str_field ''refresh_token'' ms, bool_field ''remember_me'' ms) of
             (Some t, Some b) \<Rightarrow> Some (t, b) | _ \<Rightarrow> None))"

definition body_or :: "'q \<Rightarrow> (string \<Rightarrow> json scanned) \<Rightarrow> (json \<Rightarrow> 'q option) \<Rightarrow> request \<Rightarrow> 'q" where
  "body_or d scan decode r =
     (case decode_body scan (r_body r) of
        Decoded v \<Rightarrow> (case decode v of Some q \<Rightarrow> q | None \<Rightarrow> d) | _ \<Rightarrow> d)"

definition Refresh ::
  "swlib \<Rightarrow> 'o cookie_lib \<Rightarrow> 'c auth_client \<Rightarrow> (string \<Rightarrow> json scanned) \<Rightarrow> 'c handler" where
  "Refresh lib ck c scan r w s =
     (let cookie = fst (getRefreshToken lib (r_ctx r));
          (refreshToken, rememberMe) =
            (if cookie = '''' then body_or ('''', False) scan refresh_request r else (cookie, False))
      in if refreshToken = '''' then (http_error w ''refresh token required'' 400, s)
         else
           with_call w (ac_Refresh c refreshToken rememberMe (orig_ip lib r) s) (\<lambda>(a, f).
             writeJSON (setAuthCookies ck w r a f) 200 (tokens_json a f)))"

definition Logout ::
  "swlib \<Rightarrow> 'o cookie_lib \<Rightarrow> 'c auth_client \<Rightarrow> (string \<Rightarrow> json scanned) \<Rightarrow> 'c handler" where
  "Logout lib ck c scan r w s =
     (let cookie = fst (getRefreshToken lib (r_ctx r));
          refreshToken =
            (if cookie = '''' then hd (body_or [''''] scan (str_fields [''refresh_token'']) r) else cookie)
      in with_call w (ac_Logout c refreshToken s) (\<lambda>_. write_header (clearAuthCookies ck w) 204))"

section \<open>Passwords and email\<close>

definition RequestPasswordReset :: "'c auth_client \<Rightarrow> (string \<Rightarrow> json scanned) \<Rightarrow> 'c handler" where
  "RequestPasswordReset c scan r w s =
     with_body scan (str_fields [''email'', ''reset_url'']) r w s (\<lambda>f.
       with_call w (ac_RequestPasswordReset c (f ! 0) (f ! 1) s) (\<lambda>_. write_header w 204))"

definition RequestMfaReset :: "'c auth_client \<Rightarrow> (string \<Rightarrow> json scanned) \<Rightarrow> 'c handler" where
  "RequestMfaReset c scan r w s =
     with_body scan (str_fields [''email'', ''password'', ''backup_code'', ''mfa_reset_url'']) r w s (\<lambda>f.
       with_call w (ac_RequestMfaReset c (f ! 0) (f ! 1) (f ! 2) (f ! 3) s) (\<lambda>_. write_header w 204))"

definition ResetPassword :: "'c auth_client \<Rightarrow> (string \<Rightarrow> json scanned) \<Rightarrow> 'c handler" where
  "ResetPassword c scan r w s =
     with_body scan (str_fields [''user_id'', ''token'', ''new_password'']) r w s (\<lambda>f.
       with_call w (ac_ResetPassword c (f ! 0) (f ! 1) (f ! 2) s) (\<lambda>m. writeJSON w 200 (message_json m)))"

definition VerifyEmail :: "'c auth_client \<Rightarrow> (string \<Rightarrow> json scanned) \<Rightarrow> 'c handler" where
  "VerifyEmail c scan r w s =
     with_body scan (str_fields [''email'', ''verification_url'']) r w s (\<lambda>f.
       with_call w (ac_VerifyEmail c (f ! 0) (f ! 1) s) (\<lambda>_. write_header w 204))"

definition ChangePassword :: "swlib \<Rightarrow> 'c auth_client \<Rightarrow> (string \<Rightarrow> json scanned) \<Rightarrow> 'c handler" where
  "ChangePassword lib c scan r w s =
     with_jwt lib r w s (\<lambda>token.
       with_body scan (str_fields [''old_password'', ''new_password'']) r w s (\<lambda>f.
         with_call w (ac_ChangePassword c token (f ! 0) (f ! 1) s) (\<lambda>m. writeJSON w 200 (message_json m))))"

definition CheckPasswordStrength :: "'c auth_client \<Rightarrow> (string \<Rightarrow> json scanned) \<Rightarrow> 'c handler" where
  "CheckPasswordStrength c scan r w s =
     with_body scan (str_fields [''password'']) r w s (\<lambda>f.
       with_call w (ac_CheckPasswordStrength c (f ! 0) s) (\<lambda>(isStrong, m).
         writeJSON w 200 (JObj [(''is_strong'', JBool isStrong), (''message'', JStr m)])))"

section \<open>The second factor\<close>

definition strings_json :: "string list option \<Rightarrow> json" where
  "strings_json xs = (case xs of None \<Rightarrow> JNull | Some ys \<Rightarrow> JArr (map JStr ys))"

definition MfaSetup :: "swlib \<Rightarrow> 'c auth_client \<Rightarrow> 'c handler" where
  "MfaSetup lib c r w s =
     with_jwt lib r w s (\<lambda>token.
       with_call w (ac_SetupMFA c token s) (\<lambda>(secret, otpauth, qr).
         writeJSON w 200 (JObj [(''otpauth_url'', JStr otpauth), (''qr_png_base64'', JStr qr),
           (''secret'', JStr secret)])))"

definition MfaEnable :: "swlib \<Rightarrow> 'c auth_client \<Rightarrow> (string \<Rightarrow> json scanned) \<Rightarrow> 'c handler" where
  "MfaEnable lib c scan r w s =
     with_jwt lib r w s (\<lambda>token.
       with_body scan (str_fields [''code'']) r w s (\<lambda>f.
         with_call w (ac_EnableMFA c token (f ! 0) s) (\<lambda>codes.
           writeJSON w 200 (JObj [(''backup_codes'', strings_json codes)]))))"

definition MfaDisable :: "swlib \<Rightarrow> 'c auth_client \<Rightarrow> (string \<Rightarrow> json scanned) \<Rightarrow> 'c handler" where
  "MfaDisable lib c scan r w s =
     with_jwt lib r w s (\<lambda>token.
       with_body scan (str_fields [''password'']) r w s (\<lambda>f.
         with_call w (ac_DisableMFA c token (f ! 0) s) (\<lambda>_. write_header w 204)))"

definition MfaStatus :: "swlib \<Rightarrow> 'c auth_client \<Rightarrow> 'c handler" where
  "MfaStatus lib c r w s =
     with_jwt lib r w s (\<lambda>token.
       with_call w (ac_GetMFAStatus c token s) (\<lambda>enabled.
         writeJSON w 200 (JObj [(''enabled'', JBool enabled)])))"

definition mfa_verify_request :: "json \<Rightarrow> (string \<times> string \<times> bool) option" where
  "mfa_verify_request v =
     (case members_of v of
        None \<Rightarrow> None
      | Some ms \<Rightarrow>
          (case (str_field ''mfa_token'' ms, str_field ''code'' ms, bool_field ''remember_me'' ms) of
             (Some t, Some k, Some b) \<Rightarrow> Some (t, k, b) | _ \<Rightarrow> None))"

definition MfaVerify ::
  "swlib \<Rightarrow> 'o cookie_lib \<Rightarrow> 'c auth_client \<Rightarrow> (string \<Rightarrow> json scanned) \<Rightarrow> 'c handler" where
  "MfaVerify lib ck c scan r w s =
     with_body scan mfa_verify_request r w s (\<lambda>(mfaToken, code, remember).
       with_call w (ac_VerifyMFA c mfaToken code remember (orig_ip lib r) s) (\<lambda>(a, f).
         writeJSON (setAuthCookies ck w r a f) 200 (tokens_json a f)))"

definition MfaBackupCodes :: "swlib \<Rightarrow> 'c auth_client \<Rightarrow> (string \<Rightarrow> json scanned) \<Rightarrow> 'c handler" where
  "MfaBackupCodes lib c scan r w s =
     with_jwt lib r w s (\<lambda>token.
       with_body scan (str_fields [''password'']) r w s (\<lambda>f.
         with_call w (ac_GenerateBackupCodes c token (f ! 0) s) (\<lambda>codes.
           writeJSON w 200 (JObj [(''backup_codes'', strings_json codes)]))))"

section \<open>The user\<close>

definition user_json :: "user_info \<Rightarrow> json" where
  "user_json u =
     JObj [(''account_type'', JStr (ui_accountType u)), (''email'', JStr (ui_email u)),
       (''is_admin'', JBool (ui_isAdmin u)), (''is_verified'', JBool (ui_isVerified u)),
       (''user_id'', JStr (ui_userID u))]"

definition WhoAmI :: "swlib \<Rightarrow> 'c auth_client \<Rightarrow> 'c handler" where
  "WhoAmI lib c r w s =
     with_jwt lib r w s (\<lambda>token.
       with_call w (ac_WhoAmI c token s) (\<lambda>u. writeJSON w 200 (user_json u)))"

definition Me :: "swlib \<Rightarrow> 's handler" where
  "Me lib r w s =
     (case getClaims lib (r_ctx r) of
        (Some c, True) \<Rightarrow>
          (writeJSON w 200
             (JObj [(''email'', case email c of Some e \<Rightarrow> JStr e | None \<Rightarrow> JNull),
                (''email_verified'', case email_verified c of Some b \<Rightarrow> JBool b | None \<Rightarrow> JNull),
                (''user_id'', JStr (subject c))]), s)
      | _ \<Rightarrow> (http_error w ''unauthorized'' 401, s))"

definition PublicKeys :: "string list option \<Rightarrow> 's handler" where
  "PublicKeys keys r w s = (writeJSON w 200 (JObj [(''keys'', strings_json keys)]), s)"

section \<open>Lemmas\<close>

definition cookies_of :: "response \<Rightarrow> string list" where
  "cookies_of w = h_values (hdr w) ''Set-Cookie''"

lemma canonical_set_cookie [simp]:
  "canonical_key ''Set-Cookie'' = ''Set-Cookie''" "canonical_key ''Content-Type'' = ''Content-Type''"
  "canonical_key ''Content-Length'' = ''Content-Length''"
  "canonical_key ''X-Content-Type-Options'' = ''X-Content-Type-Options''"
  by code_simp+

lemma cookies_set_cookie:
  "cookies_of (set_cookie w line) = cookies_of w @ (if line = '''' then [] else [line])"
  by (simp add: cookies_of_def set_cookie_def h_add_def h_values_def update_conv')

lemma hdr_write [simp]: "hdr (write_header w c) = hdr w" "hdr (write_body w d) = hdr w"
  by (simp_all add: write_header_def write_body_def split: option.split)

lemma cookies_writeJSON [simp]: "cookies_of (writeJSON w c v) = cookies_of w"
  by (simp add: cookies_of_def writeJSON_def set_header_def go_map)

lemma cookies_http_error [simp]: "cookies_of (http_error w m c) = cookies_of w"
  by (simp add: cookies_of_def http_error_def go_map Let_def)

lemma cookies_writeError [simp]: "cookies_of (writeError w e) = cookies_of w"
  by (simp add: writeError_def)

definition session_cookies :: "'o cookie_lib \<Rightarrow> request \<Rightarrow> string \<Rightarrow> string \<Rightarrow> string list" where
  "session_cookies ck r a f =
     (let opts = sameSiteStrict ck (optsFromContext ck (r_ctx r))
      in filter (\<lambda>l. l \<noteq> '''')
           [serverCookie ck ''access_token'' a opts,
            serverCookie ck ''refresh_token'' f (setPath ck ''/api/v1/auth/refresh'' opts)])"

lemma cookies_setAuthCookies: "cookies_of (setAuthCookies ck w r a f) = cookies_of w @ session_cookies ck r a f"
  by (simp add: setAuthCookies_def session_cookies_def cookies_set_cookie Let_def)

lemma with_body_cases:
  "with_body scan decode r w s k =
     (case decode_body scan (r_body r) of
        Decoded v \<Rightarrow>
          (case decode v of Some q \<Rightarrow> k q | None \<Rightarrow> (http_error w ''invalid request body'' 400, s))
      | TooLarge \<Rightarrow> (http_error w ''request body too large'' 413, s)
      | Invalid \<Rightarrow> (http_error w ''invalid request body'' 400, s))"
  by (auto simp: with_body_def decodeBody_def decode_body_def Let_def split: option.splits scanned.splits)

section \<open>Properties\<close>

text \<open>The tokens a login, a refresh or a second factor was granted by the service.\<close>

definition login_granted :: "'c auth_client \<Rightarrow> string \<Rightarrow> (string \<times> string \<times> bool) option \<Rightarrow> 'c \<Rightarrow> (string \<times> string) option" where
  "login_granted c ip q s =
     (case q of
        None \<Rightarrow> None
      | Some (e, p, b) \<Rightarrow>
          (case fst (ac_Login c e p b ip s) of
             Inl _ \<Rightarrow> None
           | Inr res \<Rightarrow> if lr_mfaRequired res then None else Some (lr_access res, lr_refresh res)))"

definition decoded_as :: "(string \<Rightarrow> json scanned) \<Rightarrow> (json \<Rightarrow> 'q option) \<Rightarrow> request \<Rightarrow> 'q option" where
  "decoded_as scan decode r = (case decode_body scan (r_body r) of Decoded v \<Rightarrow> decode v | _ \<Rightarrow> None)"

text \<open>
  (C16) A login hands out session cookies only when the service granted the session: for a
  request that does not decode, a refused login, and a login that still needs its second
  factor, the response carries no cookie it did not carry before, and otherwise exactly the
  two of the granted tokens; in every case the service is called at most once.
\<close>

theorem session_needs_every_factor:
  "cookies_of (fst (Login lib ck c scan r w s)) = cookies_of w @
     (case login_granted c (orig_ip lib r) (decoded_as scan login_request r) s of
        None \<Rightarrow> [] | Some (a, f) \<Rightarrow> session_cookies ck r a f) \<and>
   snd (Login lib ck c scan r w s) =
     (case decoded_as scan login_request r of
        None \<Rightarrow> s | Some (e, p, b) \<Rightarrow> snd (ac_Login c e p b (orig_ip lib r) s))"
proof (cases "decoded_as scan login_request r")
  case None
  then show ?thesis
    by (auto simp: Login_def with_body_cases decoded_as_def login_granted_def split: decoded.splits option.splits)
next
  case (Some q)
  obtain e p b where q: "q = (e, p, b)" by (cases q)
  from Some obtain v where v: "decode_body scan (r_body r) = Decoded v" "login_request v = Some (e, p, b)"
    by (auto simp: decoded_as_def q split: decoded.splits)
  obtain res s' where l: "ac_Login c e p b (orig_ip lib r) s = (res, s')" by fastforce
  show ?thesis
    by (cases res)
       (simp_all add: Login_def with_body_cases v Some q l with_call_def login_granted_def cookies_setAuthCookies)
qed

text \<open>The endpoints of an account, which need the request's token.\<close>

definition account_handlers :: "swlib \<Rightarrow> 'c auth_client \<Rightarrow> (string \<Rightarrow> json scanned) \<Rightarrow> 'c handler list" where
  "account_handlers lib c scan =
     [ChangePassword lib c scan, MfaSetup lib c, MfaEnable lib c scan, MfaDisable lib c scan,
      MfaStatus lib c, MfaBackupCodes lib c scan, WhoAmI lib c]"

text \<open>
  (C17) Behind the authentication, the endpoints of an account act for the verified token
  only: without one they answer 401 and the service is not called, and with one everything
  they do is determined by that token and the body, whatever other headers, cookies, path
  or address the request has.
\<close>

theorem account_acts_for_the_verified_token:
  assumes "h \<in> set (account_handlers lib c scan)" and "swlib_context lib"
    and "ctx_value (r_ctx r) JwtKey = None" and "ctx_value (r_ctx r') JwtKey = None"
  shows "(proved_claims lib verify r = None \<longrightarrow>
            Auth lib verify trusted h r w s = (http_error w ''unauthorized'' 401, s)) \<and>
         (proved_claims lib verify r \<noteq> None \<and> proved_claims lib verify r' \<noteq> None \<and>
          auth_token lib r = auth_token lib r' \<and> r_body r = r_body r' \<longrightarrow>
            Auth lib verify trusted h r w s = Auth lib verify trusted h r' w s)"
proof -
  have jwt: "getJwt lib (auth_ctx lib verify trusted x) =
      (case proved_claims lib verify x of None \<Rightarrow> ('''', False) | Some _ \<Rightarrow> (auth_token lib x, True))"
    if "ctx_value (r_ctx x) JwtKey = None" for x
    using that assms(2) by (simp add: swlib_contextD auth_ctx_jwt stored_string_def split: option.split)
  show ?thesis
    using assms(1) jwt[OF assms(3)] jwt[OF assms(4)]
    by (auto simp: account_handlers_def Auth_def ChangePassword_def MfaSetup_def MfaEnable_def MfaDisable_def
        MfaStatus_def MfaBackupCodes_def WhoAmI_def with_jwt_def with_body_cases with_context_def Let_def
        simp del: set_append)
qed

definition demo_client :: "nat auth_client" where
  "demo_client = \<lparr>
     ac_Login = (\<lambda>e p b ip n. (Inr \<lparr>lr_access = ''a'', lr_refresh = ''f'', lr_mfaRequired = b, lr_mfaToken = ''m''\<rparr>, Suc n)),
     ac_Register = (\<lambda>e p u n. (Inr (''u1'', ''ok''), Suc n)), ac_Refresh = (\<lambda>t b ip n. (Inr (''a'', ''f''), Suc n)),
     ac_Logout = (\<lambda>t n. (Inr (), Suc n)), ac_RequestPasswordReset = (\<lambda>e u n. (Inr (), Suc n)),
     ac_ResetPassword = (\<lambda>u t p n. (Inr ''ok'', Suc n)), ac_RequestMfaReset = (\<lambda>e p k u n. (Inr (), Suc n)),
     ac_VerifyEmail = (\<lambda>e u n. (Inr (), Suc n)), ac_ChangePassword = (\<lambda>t p q n. (Inr ''ok'', Suc n)),
     ac_CheckPasswordStrength = (\<lambda>p n. (Inr (True, ''ok''), Suc n)),
     ac_WhoAmI = (\<lambda>t n. (Inr \<lparr>ui_userID = ''u1'', ui_email = ''e'', ui_isVerified = True, ui_isAdmin = False,
       ui_accountType = ''free''\<rparr>, Suc n)),
     ac_SetupMFA = (\<lambda>t n. (Inr (''s'', ''o'', ''q''), Suc n)), ac_EnableMFA = (\<lambda>t k n. (Inr None, Suc n)),
     ac_DisableMFA = (\<lambda>t p n. (Inr (), Suc n)), ac_GetMFAStatus = (\<lambda>t n. (Inr True, Suc n)),
     ac_VerifyMFA = (\<lambda>t k b ip n. (Inr (''a'', ''f''), Suc n)), ac_GenerateBackupCodes = (\<lambda>t p n. (Inr None, Suc n))\<rparr>"

theorem account_acts_for_the_verified_token_witness:
  "Auth plain_swlib demo_verify demo_trusted (WhoAmI plain_swlib demo_client)
     (demo_peer ''203.0.113.9:4000'' [(''Authorization'', [''Bearer forged''])]) fresh_response 0 =
   (http_error fresh_response ''unauthorized'' 401, 0)"
proof -
  let ?r = "demo_peer ''203.0.113.9:4000'' [(''Authorization'', [''Bearer forged''])]"
  have h: "WhoAmI plain_swlib demo_client \<in> set (account_handlers plain_swlib demo_client (\<lambda>t. Malformed))"
    by (simp add: account_handlers_def)
  have n: "ctx_value (r_ctx ?r) JwtKey = None" by (simp add: demo_peer_def ctx_value_def)
  have "proved_claims plain_swlib demo_verify ?r = None" by code_simp
  with account_acts_for_the_verified_token[OF h plain_swlib_context n n, of demo_verify demo_trusted fresh_response 0]
  show ?thesis by blast
qed

end
