(* ===== verification/Admin_Handlers.thy ===== *)
theory Admin_Handlers
  imports Auth_Handlers
begin

text \<open>
  The administrator's endpoints of \<open>internal/handlers/auth_admin.go\<close>: users, invitations and
  service clients.  The admin methods of the service are a record of their own;
  \<open>URL.Query().Get\<close> and the text of a time in JSON are arguments.
\<close>

section \<open>The service\<close>

datatype WhoIsOneOf = WhoIs_Email string | WhoIs_UserId string

record invite =
  inv_id :: string
  inv_email :: string
  inv_createdAt :: int
  inv_registered :: bool

record service_client =
  sc_clientId :: string
  sc_name :: string
  sc_description :: string
  sc_scopes :: "string list option"

record 'c admin_client =
  am_CreateAdmin :: "string \<Rightarrow> string \<Rightarrow> string \<Rightarrow> 'c \<Rightarrow> (go_error + string \<times> string) \<times> 'c"
  am_ChangeAccountType :: "string \<Rightarrow> string \<Rightarrow> string \<Rightarrow> 'c \<Rightarrow> (go_error + string) \<times> 'c"
  am_WhoIs :: "string \<Rightarrow> WhoIsOneOf \<Rightarrow> 'c \<Rightarrow> (go_error + user_info) \<times> 'c"
  am_CreateServiceClient :: "string \<Rightarrow> string \<Rightarrow> string \<Rightarrow> string list \<Rightarrow> 'c \<Rightarrow> (go_error + string \<times> string) \<times> 'c"
  am_DeleteServiceClient :: "string \<Rightarrow> string \<Rightarrow> 'c \<Rightarrow> (go_error + string) \<times> 'c"
  am_ListServiceClients :: "string \<Rightarrow> int \<Rightarrow> int \<Rightarrow> 'c \<Rightarrow> (go_error + service_client list \<times> int) \<times> 'c"
  am_InviteUser :: "string \<Rightarrow> string \<Rightarrow> 'c \<Rightarrow> (go_error + string) \<times> 'c"
  am_RevokeInvite :: "string \<Rightarrow> string \<Rightarrow> 'c \<Rightarrow> (go_error + string) \<times> 'c"
  am_ListInvites :: "string \<Rightarrow> int \<Rightarrow> int \<Rightarrow> bool option \<Rightarrow> 'c \<Rightarrow> (go_error + invite list \<times> int) \<times> 'c"

section \<open>Pages\<close>

text \<open>\<open>strconv.Atoi\<close> with its error dropped: 0 for no number, the end of the 64-bit range for
  a number beyond it.\<close>

definition atoi :: "string \<Rightarrow> int" where
  "atoi s =
     (let (neg, d) = (case s of
                        c # r \<Rightarrow> if c = CHR ''-'' then (True, r) else if c = CHR ''+'' then (False, r) else (False, s)
                      | [] \<Rightarrow> (False, []))
      in if d = [] \<or> \<not> list_all digit d then 0
         else if neg then max (- (2 ^ 63)) (- int (decimal d)) else min (2 ^ 63 - 1) (int (decimal d)))"

definition page_number :: "string \<Rightarrow> int" where
  "page_number raw = (let page = atoi raw in if page < 1 then 1 else page)"

definition page_size :: "string \<Rightarrow> int" where
  "page_size raw = (let pageSize = atoi raw in if pageSize < 1 then 20 else pageSize)"

section \<open>The handlers\<close>

definition CreateAdmin :: "swlib \<Rightarrow> 'c admin_client \<Rightarrow> (string \<Rightarrow> json scanned) \<Rightarrow> 'c handler" where
  "CreateAdmin lib c scan r w s =
     with_jwt lib r w s (\<lambda>token.
       with_body scan (str_fields [''email'', ''password'']) r w s (\<lambda>f.
         with_call w (am_CreateAdmin c token (f ! 0) (f ! 1) s) (\<lambda>(userId, message).
           writeJSON w 200 (JObj [(''message'', JStr message), (''user_id'', JStr userId)]))))"

definition ChangeAccountType :: "swlib \<Rightarrow> 'c admin_client \<Rightarrow> (string \<Rightarrow> json scanned) \<Rightarrow> 'c handler" where
  "ChangeAccountType lib c scan r w s =
     with_jwt lib r w s (\<lambda>token.
       with_body scan (str_fields [''userId'', ''accountType'']) r w s (\<lambda>f.
         with_call w (am_ChangeAccountType c token (f ! 0) (f ! 1) s) (\<lambda>m. writeJSON w 200 (message_json m))))"

definition who_is_lookup :: "string \<Rightarrow> string \<Rightarrow> WhoIsOneOf option" where
  "who_is_lookup mail userId =
     (if mail \<noteq> '''' then Some (WhoIs_Email mail)
      else if userId \<noteq> '''' then Some (WhoIs_UserId userId) else None)"

definition WhoIs :: "swlib \<Rightarrow> 'c admin_client \<Rightarrow> (string \<Rightarrow> json scanned) \<Rightarrow> 'c handler" where
  "WhoIs lib c scan r w s =
     with_jwt lib r w s (\<lambda>token.
       with_body scan (str_fields [''email'', ''userId'']) r w s (\<lambda>f.
         (case who_is_lookup (f ! 0) (f ! 1) of
            None \<Rightarrow> (http_error w ''email or userId required'' 400, s)
          | Some lookup \<Rightarrow>
              with_call w (am_WhoIs c token lookup s) (\<lambda>u. writeJSON w 200 (user_json u)))))"

definition InviteUser :: "swlib \<Rightarrow> 'c admin_client \<Rightarrow> (string \<Rightarrow> json scanned) \<Rightarrow> 'c handler" where
  "InviteUser lib c scan r w s =
     with_jwt lib r w s (\<lambda>token.
       with_body scan (str_fields [''email'']) r w s (\<lambda>f.
         with_call w (am_InviteUser c token (f ! 0) s) (\<lambda>m. writeJSON w 200 (message_json m))))"

definition RevokeInvite :: "swlib \<Rightarrow> 'c admin_client \<Rightarrow> (string \<Rightarrow> json scanned) \<Rightarrow> 'c handler" where
  "RevokeInvite lib c scan r w s =
     with_jwt lib r w s (\<lambda>token.
       with_body scan (str_fields [''email'']) r w s (\<lambda>f.
         with_call w (am_RevokeInvite c token (f ! 0) s) (\<lambda>m. writeJSON w 200 (message_json m))))"

definition invite_json :: "(int \<Rightarrow> string) \<Rightarrow> invite \<Rightarrow> json" where
  "invite_json show_time i =
     JObj [(''created_at'', JStr (show_time (inv_createdAt i))), (''email'', JStr (inv_email i)),
       (''id'', JStr (inv_id i)), (''registered'', JBool (inv_registered i))]"

definition registered_filter :: "string \<Rightarrow> bool option" where
  "registered_filter raw = (if raw \<noteq> '''' then Some (raw = ''true'') else None)"

definition ListInvites ::
  "swlib \<Rightarrow> 'c admin_client \<Rightarrow> (request \<Rightarrow> string \<Rightarrow> string) \<Rightarrow> (int \<Rightarrow> string) \<Rightarrow> 'c handler" where
  "ListInvites lib c query show_time r w s =
     with_jwt lib r w s (\<lambda>token.
       with_call w
         (am_ListInvites c token (page_number (query r ''page'')) (page_size (query r ''pageSize''))
            (registered_filter (query r ''registered'')) s)
         (\<lambda>(invites, total).
            writeJSON w 200 (JObj [(''invites'', JArr (map (invite_json show_time) invites)),
              (''num_invites'', JNum (show_int total))])))"

definition service_client_request :: "json \<Rightarrow> (string \<times> string \<times> string list) option" where
  "service_client_request v =
     (case members_of v of
        None \<Rightarrow> None
      | Some ms \<Rightarrow>
          (case (str_field ''name'' ms, str_field ''description'' ms, strs_field ''scopes'' ms) of
             (Some n, Some d, Some sc) \<Rightarrow> Some (n, d, sc) | _ \<Rightarrow> None))"

definition CreateServiceClient :: "swlib \<Rightarrow> 'c admin_client \<Rightarrow> (string \<Rightarrow> json scanned) \<Rightarrow> 'c handler" where
  "CreateServiceClient lib c scan r w s =
     with_jwt lib r w s (\<lambda>token.
       with_body scan service_client_request r w s (\<lambda>(name, description, scopes).
         with_call w (am_CreateServiceClient c token name description scopes s) (\<lambda>(clientId, clientSecret).
           writeJSON w 200 (JObj [(''client_id'', JStr clientId), (''client_secret'', JStr clientSecret)]))))"

definition DeleteServiceClient :: "swlib \<Rightarrow> 'c admin_client \<Rightarrow> (string \<Rightarrow> json scanned) \<Rightarrow> 'c handler" where
  "DeleteServiceClient lib c scan r w s =
     with_jwt lib r w s (\<lambda>token.
       with_body scan (str_fields [''clientId'']) r w s (\<lambda>f.
         with_call w (am_DeleteServiceClient c token (f ! 0) s) (\<lambda>m. writeJSON w 200 (message_json m))))"

definition service_client_json :: "service_client \<Rightarrow> json" where
  "service_client_json c =
     JObj [(''client_id'', JStr (sc_clientId c)), (''description'', JStr (sc_description c)),
       (''name'', JStr (sc_name c)), (''scopes'', strings_json (sc_scopes c))]"

definition ListServiceClients ::
  "swlib \<Rightarrow> 'c admin_client \<Rightarrow> (request \<Rightarrow> string \<Rightarrow> string) \<Rightarrow> 'c handler" where
  "ListServiceClients lib c query r w s =
     with_jwt lib r w s (\<lambda>token.
       with_call w
         (am_ListServiceClients c token (page_number (query r ''page'')) (page_size (query r ''pageSize'')) s)
         (\<lambda>(clients, total).
            writeJSON w 200 (JObj [(''clients'', JArr (map service_client_json clients)),
              (''num_clients'', JNum (show_int total))])))"

section \<open>Properties\<close>

lemma page_number_pos: "1 \<le> page_number raw"
  by (simp add: page_number_def Let_def)

lemma page_size_pos: "1 \<le> page_size raw"
  by (simp add: page_size_def Let_def)

lemma atoi_range: "- (2 ^ 63) \<le> atoi s" "atoi s < 2 ^ 63"
  by (auto simp: atoi_def Let_def split: prod.split)

text \<open>All administrator's endpoints, with the texts of the two that read the query.\<close>

definition admin_handlers ::
  "swlib \<Rightarrow> 'c admin_client \<Rightarrow> (string \<Rightarrow> json scanned) \<Rightarrow> (request \<Rightarrow> string \<Rightarrow> string) \<Rightarrow> (int \<Rightarrow> string) \<Rightarrow>
     'c handler list" where
  "admin_handlers lib c scan query show_time =
     [CreateAdmin lib c scan, ChangeAccountType lib c scan, WhoIs lib c scan, InviteUser lib c scan,
      RevokeInvite lib c scan, CreateServiceClient lib c scan, DeleteServiceClient lib c scan,
      ListInvites lib c query show_time, ListServiceClients lib c query]"

text \<open>Two services that answer alike what is asked under a token, on pages from one.\<close>

definition agree_under :: "string \<Rightarrow> 'c admin_client \<Rightarrow> 'c admin_client \<Rightarrow> bool" where
  "agree_under t c c' \<longleftrightarrow>
     am_CreateAdmin c t = am_CreateAdmin c' t \<and> am_ChangeAccountType c t = am_ChangeAccountType c' t \<and>
     am_WhoIs c t = am_WhoIs c' t \<and> am_CreateServiceClient c t = am_CreateServiceClient c' t \<and>
     am_DeleteServiceClient c t = am_DeleteServiceClient c' t \<and> am_InviteUser c t = am_InviteUser c' t \<and>
     am_RevokeInvite c t = am_RevokeInvite c' t \<and>
     (\<forall>p q. 1 \<le> p \<and> 1 \<le> q \<longrightarrow>
        am_ListServiceClients c t p q = am_ListServiceClients c' t p q \<and>
        am_ListInvites c t p q = am_ListInvites c' t p q)"

lemma admin_handler_uses_token:
  assumes "agree_under t c c'" and "getJwt lib (r_ctx r) = (t, True)"
    and "n < length (admin_handlers lib c scan query show_time)"
  shows "(admin_handlers lib c scan query show_time ! n) r w s = (admin_handlers lib c' scan query show_time ! n) r w s"
proof -
  have "CreateAdmin lib c scan r w s = CreateAdmin lib c' scan r w s"
    "ChangeAccountType lib c scan r w s = ChangeAccountType lib c' scan r w s"
    "WhoIs lib c scan r w s = WhoIs lib c' scan r w s"
    "InviteUser lib c scan r w s = InviteUser lib c' scan r w s"
    "RevokeInvite lib c scan r w s = RevokeInvite lib c' scan r w s"
    "CreateServiceClient lib c scan r w s = CreateServiceClient lib c' scan r w s"
    "DeleteServiceClient lib c scan r w s = DeleteServiceClient lib c' scan r w s"
    using assms(1,2)
    by (simp_all add: CreateAdmin_def ChangeAccountType_def WhoIs_def InviteUser_def RevokeInvite_def
        CreateServiceClient_def DeleteServiceClient_def with_jwt_def agree_under_def cong: option.case_cong)
  moreover have "ListInvites lib c query show_time r w s = ListInvites lib c' query show_time r w s"
    "ListServiceClients lib c query r w s = ListServiceClients lib c' query r w s"
    using assms(1,2)
    by (simp_all add: ListInvites_def ListServiceClients_def with_jwt_def agree_under_def page_number_pos
        page_size_pos)
  ultimately show ?thesis
    using assms(3) by (auto simp: admin_handlers_def less_Suc_eq nth_Cons')
qed

lemma jwt_after_auth:
  assumes "swlib_context lib" and "proved_claims lib verify r = Some u"
  shows "getJwt lib (auth_ctx lib verify trusted r) = (auth_token lib r, True)"
  using assms by (simp add: swlib_contextD auth_ctx_jwt stored_string_def)

text \<open>
  (C18) The administrator's endpoints behind the authentication and the admin guard: without
  an administrator's verified token nothing is asked of the service, and with one all that
  matters is what the service answers under that very token, for pages numbered from one;
  the service is never asked under another token.
\<close>

theorem admin_endpoints_need_an_admin_token:
  assumes "n < length (admin_handlers lib c scan query show_time)" and "swlib_context lib"
    and "ctx_value (r_ctx r) ClaimsKey = None" and "agree_under (auth_token lib r) c c'"
  shows "Auth lib verify trusted (RequireAdmin lib (admin_handlers lib c scan query show_time ! n)) r w s =
    (case proved_claims lib verify r of
       None \<Rightarrow> (http_error w ''unauthorized'' 401, s)
     | Some u \<Rightarrow>
         if admin_claims u
         then (admin_handlers lib c' scan query show_time ! n)
                (with_context r (auth_ctx lib verify trusted r)) w s
         else (http_error w ''forbidden'' 403, s))"
proof -
  have "(admin_handlers lib c scan query show_time ! n) (with_context r (auth_ctx lib verify trusted r)) w s =
      (admin_handlers lib c' scan query show_time ! n) (with_context r (auth_ctx lib verify trusted r)) w s"
    if "proved_claims lib verify r = Some u" for u
    using assms(1,4) jwt_after_auth[OF assms(2) that] by (intro admin_handler_uses_token) auto
  then show ?thesis
    by (auto simp: auth_admin.chain.mw_decide decide_then_def auth_decide_def guard_decide_def
        claims_after_auth[OF assms(2,3)] split: option.split)
qed

definition demo_admin :: "string \<Rightarrow> string list admin_client" where
  "demo_admin other = \<lparr>
     am_CreateAdmin = (\<lambda>t e p n. (Inr (''u'', ''ok''), t # n)),
     am_ChangeAccountType = (\<lambda>t u k n. (Inr ''ok'', t # n)),
     am_WhoIs = (\<lambda>t x n. (Inl (PlainError []), t # n)),
     am_CreateServiceClient = (\<lambda>t a b sc n. (Inr (''i'', ''s''), t # n)),
     am_DeleteServiceClient = (\<lambda>t i n. (Inr (if t = ''good'' then ''deleted'' else other), t # n)),
     am_ListServiceClients = (\<lambda>t p q n. (Inr ([], p), t # n)),
     am_InviteUser = (\<lambda>t e n. (Inr ''ok'', t # n)), am_RevokeInvite = (\<lambda>t e n. (Inr ''ok'', t # n)),
     am_ListInvites = (\<lambda>t p q b n. (Inr ([], p), t # n))\<rparr>"

definition demo_admin_verify :: "string \<Rightarrow> claims option" where
  "demo_admin_verify t = map_option (\<lambda>u. u\<lparr>sw_claims := Some \<lparr>account_level = ''free'', is_admin = True\<rparr>\<rparr>)
     (demo_verify t)"

lemma demo_admins_agree: "agree_under ''good'' (demo_admin a) (demo_admin b)"
  by (simp add: agree_under_def demo_admin_def)

theorem admin_endpoints_need_an_admin_token_witness:
  "Auth plain_swlib demo_admin_verify demo_trusted (RequireAdmin plain_swlib
     (DeleteServiceClient plain_swlib (demo_admin ''x'') (\<lambda>t. Complete (JObj []))))
     (demo_peer ''203.0.113.9:4000'' [(''Authorization'', [''Bearer good''])]) fresh_response [] =
   (writeJSON fresh_response 200 (message_json ''deleted''), [''good''])"
proof -
  let ?r = "demo_peer ''203.0.113.9:4000'' [(''Authorization'', [''Bearer good''])]"
  let ?hs = "\<lambda>c. admin_handlers plain_swlib (demo_admin c) (\<lambda>t. Complete (JObj [])) (\<lambda>r k. []) show_int"
  have n: "6 < length (?hs ''x'')" and f: "ctx_value (r_ctx ?r) ClaimsKey = None"
    by (simp_all add: admin_handlers_def demo_peer_def ctx_value_def)
  have t: "auth_token plain_swlib ?r = ''good''" by code_simp
  have p: "case proved_claims plain_swlib demo_admin_verify ?r of Some u \<Rightarrow> admin_claims u | None \<Rightarrow> False"
    by code_simp
  have "(?hs ''y'' ! 6) (with_context ?r (auth_ctx plain_swlib demo_admin_verify demo_trusted ?r)) fresh_response [] =
      (writeJSON fresh_response 200 (message_json ''deleted''), [''good''])"
    by code_simp
  then show ?thesis
    using p admin_endpoints_need_an_admin_token[OF n plain_swlib_context f, where c' = "demo_admin ''y''"
        and verify = demo_admin_verify and trusted = demo_trusted and w = fresh_response and s = "[]"]
      demo_admins_agree
    by (auto simp: t admin_handlers_def split: option.splits)
qed

end
