(* ===== verification/Cookie_Proxy.thy ===== *)
theory Cookie_Proxy
  imports Http_Model
begin

text \<open>
  The reverse proxies of \<open>internal/handlers\<close>: \<open>stripCookies\<close> (\<open>proxy.go\<close>), the tiles proxy
  (\<open>tiles.go\<close>) and the web proxy with its path mapping (\<open>web.go\<close>).  The proxy itself, with its
  transport, is the argument \<open>serve\<close>, a handler that sends on the request it is given.
\<close>

section \<open>Cookies\<close>

definition pair_name :: "string \<Rightarrow> string" where
  "pair_name pair = trim_space (fst (cut_byte (CHR ''='') pair))"

text \<open>The inner loop over the pairs of one line.\<close>

fun keep_pairs :: "string list \<Rightarrow> string list \<Rightarrow> string list" where
  "keep_pairs keepSet [] = []"
| "keep_pairs keepSet (p # ps) =
     (let pair = trim_space p
      in if pair = '''' then keep_pairs keepSet ps
         else if List.member keepSet (pair_name pair) then pair # keep_pairs keepSet ps
         else keep_pairs keepSet ps)"

definition stripCookies :: "header \<Rightarrow> string list \<Rightarrow> header" where
  "stripCookies h keep =
     (if keep = [] then h_del h ''Cookie''
      else
        (let kept = concat (map (\<lambda>line. keep_pairs keep (split_on (CHR '';'') line)) (h_values h ''Cookie''))
         in if kept = [] then h_del h ''Cookie''
            else h_set h ''Cookie'' (join_with ''; '' kept)))"

section \<open>The proxies\<close>

definition tiles_request :: "(unit \<Rightarrow> string) \<Rightarrow> request \<Rightarrow> request" where
  "tiles_request token r =
     r\<lparr>r_header := h_set (stripCookies (r_header r) []) ''Authorization'' (''Bearer '' @ token ())\<rparr>"

definition NewTilesProxy :: "'s handler \<Rightarrow> (unit \<Rightarrow> string) \<Rightarrow> 's handler" where
  "NewTilesProxy serve token r w s = serve (tiles_request token r) w s"

definition webGatewayPrefix :: string where "webGatewayPrefix = ''/web''"

definition mapWebPath :: "string \<Rightarrow> string \<Rightarrow> string" where
  "mapWebPath path authWebPrefix =
     (let rest = trim_prefix path webGatewayPrefix
      in trim_right_char (CHR ''/'') authWebPrefix @ rest)"

definition web_request :: "swlib \<Rightarrow> string \<Rightarrow> request \<Rightarrow> request" where
  "web_request lib authWebPrefix r =
     (let r1 = r\<lparr>r_path := mapWebPath (r_path r) authWebPrefix\<rparr>;
          r2 = (if r_raw_path r1 \<noteq> '''' then r1\<lparr>r_raw_path := mapWebPath (r_raw_path r1) authWebPrefix\<rparr> else r1)
      in r2\<lparr>r_header := stripCookies (r_header r2) [fullCookieName lib ''access_token'']\<rparr>)"

definition NewWebProxy :: "'s handler \<Rightarrow> swlib \<Rightarrow> string \<Rightarrow> 's handler" where
  "NewWebProxy serve lib authWebPrefix r w s = serve (web_request lib authWebPrefix r) w s"

section \<open>Trimmed texts\<close>

lemma find_in_set: "find P xs = Some x \<Longrightarrow> x \<in> set xs"
  by (auto simp: find_Some_iff)

lemma leading_space_prefix:
  assumes "leading_space seqs s = 0" and "\<forall>q\<in>set seqs. q \<noteq> []" and "q \<in> set seqs"
  shows "\<not> has_prefix s q"
proof (cases "find (has_prefix s) seqs")
  case None
  with assms(3) show ?thesis by (auto simp: find_None_iff)
next
  case (Some p)
  with assms(1) have "p = []" by (simp add: leading_space_def)
  with find_in_set[OF Some] assms(2) show ?thesis by blast
qed

lemma leading_space_zeroI: "\<forall>q\<in>set seqs. \<not> has_prefix s q \<Longrightarrow> leading_space seqs s = 0"
  by (auto simp: leading_space_def split: option.split simp: find_Some_iff)

lemma trim_left_done: "leading_space seqs (trim_left_seqs seqs s) = 0 \<or> trim_left_seqs seqs s = []"
  by (induction seqs s rule: trim_left_seqs.induct) (subst trim_left_seqs.simps, auto simp: trim_left_seqs.simps)

lemma trim_left_id: "leading_space seqs s = 0 \<or> s = [] \<Longrightarrow> trim_left_seqs seqs s = s"
  by (subst trim_left_seqs.simps) auto

lemma trim_left_suffix: "\<exists>p. s = p @ trim_left_seqs seqs s"
proof (induction seqs s rule: trim_left_seqs.induct)
  case (1 seqs s)
  show ?case
  proof (cases "0 < leading_space seqs s \<and> s \<noteq> []")
    case True
    from 1[OF True] obtain p where "drop (leading_space seqs s) s = p @ trim_left_seqs seqs (drop (leading_space seqs s) s)" ..
    then have "s = (take (leading_space seqs s) s @ p) @ trim_left_seqs seqs (drop (leading_space seqs s) s)"
      by (metis append.assoc append_take_drop_id)
    with True show ?thesis by (metis trim_left_seqs.simps)
  next
    case False
    then show ?thesis by (subst trim_left_seqs.simps) auto
  qed
qed

lemma space_seqs_nonempty [simp]: "\<forall>q\<in>set space_seqs. q \<noteq> []"
  by (simp add: space_seqs_def)

text \<open>Trimming twice is trimming once, and so is trimming after a blank.\<close>

lemma trim_space_idem: "trim_space (trim_space s) = trim_space s"
proof -
  let ?R = "map rev space_seqs"
  define l where "l = trim_left_seqs space_seqs s"
  define m where "m = trim_left_seqs ?R (rev l)"
  have t: "trim_space s = rev m" by (simp add: trim_space_def l_def m_def)
  obtain p where "rev l = p @ m" using trim_left_suffix unfolding m_def by blast
  then have l: "l = rev m @ rev p" by (metis rev_append rev_rev_ident)
  have "leading_space space_seqs (rev m) = 0 \<or> rev m = []"
  proof (cases "rev m = []")
    case False
    then have "l \<noteq> []" using l by auto
    then have "leading_space space_seqs l = 0" using trim_left_done[of space_seqs s] by (auto simp: l_def)
    then have "\<not> has_prefix l q" if "q \<in> set space_seqs" for q
      using leading_space_prefix[of space_seqs l q] that by simp
    then have "\<not> has_prefix (rev m) q" if "q \<in> set space_seqs" for q
      using that by (simp add: l has_prefix_iff) (metis append_assoc)
    then show ?thesis by (intro disjI1 leading_space_zeroI) blast
  qed simp
  then have 1: "trim_left_seqs space_seqs (rev m) = rev m" by (rule trim_left_id)
  have "trim_left_seqs ?R m = m" unfolding m_def by (rule trim_left_id) (rule trim_left_done)
  with 1 show ?thesis by (simp add: t) (simp add: trim_space_def)
qed

lemma trim_space_blank: "trim_space (CHR 0x20 # s) = trim_space s"
proof -
  have "leading_space space_seqs (CHR 0x20 # s) = 1"
    by (simp add: leading_space_def space_seqs_def)
  then have "trim_left_seqs space_seqs (CHR 0x20 # s) = trim_left_seqs space_seqs s"
    by (subst trim_left_seqs.simps) simp
  then show ?thesis by (simp add: trim_space_def)
qed

section \<open>Lemmas\<close>

definition line_pairs :: "string \<Rightarrow> string list" where
  "line_pairs line = filter (\<lambda>p. p \<noteq> '''') (map trim_space (split_on (CHR '';'') line))"

text \<open>The pairs a reader of the header sees: the trimmed parts of every \<open>Cookie\<close> line.\<close>

definition cookie_pairs :: "header \<Rightarrow> string list" where
  "cookie_pairs h = concat (map line_pairs (h_values h ''Cookie''))"

lemma keep_pairs_filter:
  "keep_pairs keep ps = filter (\<lambda>p. pair_name p \<in> set keep) (filter (\<lambda>p. p \<noteq> '''') (map trim_space ps))"
  by (induction ps) (simp_all add: Let_def)

lemma trim_space_set: "set (trim_space s) \<subseteq> set s"
proof -
  have "set (trim_left_seqs seqs s) \<subseteq> set s" for seqs s
    using trim_left_suffix[of s seqs] by (metis Un_upper2 set_append)
  then show ?thesis by (simp add: trim_space_def) (metis order_trans set_rev)
qed

lemma join_semicolon_pairs:
  assumes "\<forall>p\<in>set ps. CHR '';'' \<notin> set p \<and> trim_space p = p \<and> p \<noteq> ''''"
  shows "line_pairs (join_with ''; '' ps) = ps"
  using assms
proof (induction "''; ''" ps rule: join_with.induct)
  case 1
  have "trim_space '''' = ''''" by code_simp
  then show ?case by (simp add: line_pairs_def)
next
  case (2 x)
  then show ?case by (simp add: line_pairs_def split_on_absent)
next
  case (3 x y ys)
  have x: "CHR '';'' \<notin> set x" "trim_space x = x" "x \<noteq> ''''" using 3(2) by auto
  have eq: "join_with ''; '' (x # y # ys) = x @ CHR '';'' # (CHR 0x20 # join_with ''; '' (y # ys))" by simp
  have blank: "line_pairs (CHR 0x20 # s) = line_pairs s" for s
    by (cases "split_on (CHR '';'') s") (simp_all add: line_pairs_def trim_space_blank)
  have "line_pairs (x @ CHR '';'' # s) = x # line_pairs s" for s
    using x by (simp add: line_pairs_def split_on_append split_on_absent)
  with 3 eq blank show ?case by simp
qed

lemma line_pairs_clean:
  assumes "p \<in> set (line_pairs line)"
  shows "CHR '';'' \<notin> set p \<and> trim_space p = p \<and> p \<noteq> ''''"
proof -
  from assms obtain q where q: "q \<in> set (split_on (CHR '';'') line)" "p = trim_space q" "p \<noteq> ''''"
    by (auto simp: line_pairs_def)
  from split_on_no_sep[OF q(1)] trim_space_set[of q] q show ?thesis by (auto simp: trim_space_idem)
qed

section \<open>Properties\<close>

text \<open>
  (C20) A downstream service gets exactly the cookies it is meant to get: of all the pairs in
  all the \<open>Cookie\<close> lines of a request, those with a kept name remain, in their order and
  with their values, and nothing else; no other header changes, and with no name to keep
  the header is gone.
\<close>

theorem only_named_cookies_pass:
  "cookie_pairs (stripCookies h keep) = filter (\<lambda>p. pair_name p \<in> set keep) (cookie_pairs h) \<and>
   (canonical_key n \<noteq> ''Cookie'' \<longrightarrow> h_values (stripCookies h keep) n = h_values h n)"
proof -
  have ck: "canonical_key ''Cookie'' = ''Cookie''" by code_simp
  define kept where "kept = filter (\<lambda>p. pair_name p \<in> set keep) (cookie_pairs h)"
  have k: "concat (map (\<lambda>line. keep_pairs keep (split_on (CHR '';'') line)) (h_values h ''Cookie'')) = kept"
    by (simp add: kept_def cookie_pairs_def keep_pairs_filter line_pairs_def filter_concat comp_def)
  have clean: "\<forall>p\<in>set kept. CHR '';'' \<notin> set p \<and> trim_space p = p \<and> p \<noteq> ''''"
    using line_pairs_clean by (auto simp: kept_def cookie_pairs_def)
  have "stripCookies h keep = (if kept = [] then h_del h ''Cookie'' else h_set h ''Cookie'' (join_with ''; '' kept))"
    by (cases "keep = []") (simp_all add: stripCookies_def k Let_def, simp add: kept_def)
  then show ?thesis
    using join_semicolon_pairs[OF clean] unfolding kept_def[symmetric]
    by (auto simp: cookie_pairs_def go_map ck)
qed

theorem only_named_cookies_pass_witness:
  "cookie_pairs (stripCookies [(''Cookie'', [''a=1; ns.access_token=t'', ''b=2'']), (''Accept'', [''*''])]
     [''ns.access_token'']) = [''ns.access_token=t''] \<and>
   h_values (stripCookies [(''Cookie'', [''a=1'']), (''Accept'', [''*''])] [''ns.access_token'']) ''Accept'' = [''*'']"
proof
  have "filter (\<lambda>p. pair_name p \<in> set [''ns.access_token''])
      (cookie_pairs [(''Cookie'', [''a=1; ns.access_token=t'', ''b=2'']), (''Accept'', [''*''])]) = [''ns.access_token=t'']"
    by code_simp
  with only_named_cookies_pass[of "[(''Cookie'', [''a=1; ns.access_token=t'', ''b=2'']), (''Accept'', [''*''])]"
      "[''ns.access_token'']" "''Accept''"]
  show "cookie_pairs (stripCookies [(''Cookie'', [''a=1; ns.access_token=t'', ''b=2'']), (''Accept'', [''*''])]
     [''ns.access_token'']) = [''ns.access_token=t'']" by metis
  have "canonical_key ''Accept'' \<noteq> ''Cookie''"
    "h_values [(''Cookie'', [''a=1'']), (''Accept'', [''*''])] ''Accept'' = [''*'']" by code_simp+
  with only_named_cookies_pass[of "[(''Cookie'', [''a=1'']), (''Accept'', [''*''])]" "[''ns.access_token'']" "''Accept''"]
  show "h_values (stripCookies [(''Cookie'', [''a=1'']), (''Accept'', [''*''])] [''ns.access_token'']) ''Accept'' = [''*'']"
    by metis
qed

end
