(* ===== verification/Server_Chain.thy ===== *)
theory Server_Chain
  imports Extension_Contracts Body_Log_Middleware Rate_Middleware Auth_Middleware
begin

text \<open>
  \<open>internal/server\<close>: the checks of the configured origins and proxies (\<open>server.go\<close>), the
  table of built-in routes (\<open>routes.go\<close>), and the chain every request runs through, from
  the authentication to the mux.  Endpoints are arguments; what the mux answers by itself
  (not found, method not allowed, redirects to a clean path) is the argument \<open>fallback\<close>.
\<close>

section \<open>Configuration checks\<close>

datatype cors_error = EmptyOrigin | WildcardOrigin

fun normalize_origins :: "string list \<Rightarrow> string list \<Rightarrow> cors_error + string list" where
  "normalize_origins acc [] = Inr acc"
| "normalize_origins acc (o1 # os) =
     (let o' = trim_space o1
      in if o' = '''' then Inl EmptyOrigin
         else if o' = ''*'' then Inl WildcardOrigin
         else normalize_origins (acc @ [o']) os)"

definition normalizeCORSOrigins :: "string list \<Rightarrow> cors_error + string list" where
  "normalizeCORSOrigins origins = normalize_origins [] origins"

fun parseTrustedProxies :: "string list \<Rightarrow> ipnet list" where
  "parseTrustedProxies [] = []"
| "parseTrustedProxies (c # cs) =
     (let c' = trim_space c
      in if c' = '''' then parseTrustedProxies cs
         else (case ParseCIDR c' of
                 None \<Rightarrow> parseTrustedProxies cs
               | Some n \<Rightarrow> n # parseTrustedProxies cs))"

section \<open>The route table\<close>

datatype guard = Open | VerifiedUser | AdminOnly

record table_route =
  tr_method :: "string option"
  tr_path :: string
  tr_guard :: guard
  tr_endpoint :: string

definition route_of :: "string \<Rightarrow> string \<Rightarrow> guard \<Rightarrow> string \<Rightarrow> table_route" where
  "route_of m p g e = \<lparr>tr_method = Some m, tr_path = p, tr_guard = g, tr_endpoint = e\<rparr>"

definition open_routes :: "table_route list" where
  "open_routes =
    [route_of ''GET'' ''/api/openapi.yaml'' Open ''OpenAPISpec'',
     route_of ''GET'' ''/health'' Open ''Health'',
     route_of ''POST'' ''/api/v1/auth/login'' Open ''Login'',
     route_of ''POST'' ''/api/v1/auth/register'' Open ''Register'',
     route_of ''POST'' ''/api/v1/auth/refresh'' Open ''Refresh'',
     route_of ''POST'' ''/api/v1/auth/logout'' Open ''Logout'',
     route_of ''POST'' ''/api/v1/auth/request-password-reset'' Open ''RequestPasswordReset'',
     route_of ''POST'' ''/api/v1/auth/reset-password'' Open ''ResetPassword'',
     route_of ''POST'' ''/api/v1/auth/verify-email'' Open ''VerifyEmail'',
     route_of ''POST'' ''/api/v1/auth/change-password'' Open ''ChangePassword'',
     route_of ''POST'' ''/api/v1/auth/check-password-strength'' Open ''CheckPasswordStrength'',
     route_of ''GET'' ''/api/v1/auth/public-keys'' Open ''PublicKeys'',
     route_of ''GET'' ''/api/v1/auth/whoami'' Open ''WhoAmI'',
     route_of ''GET'' ''/api/v1/auth/me'' Open ''Me'',
     route_of ''POST'' ''/api/v1/auth/mfa/setup'' Open ''MfaSetup'',
     route_of ''POST'' ''/api/v1/auth/mfa/enable'' Open ''MfaEnable'',
     route_of ''POST'' ''/api/v1/auth/mfa/disable'' Open ''MfaDisable'',
     route_of ''GET'' ''/api/v1/auth/mfa/status'' Open ''MfaStatus'',
     route_of ''POST'' ''/api/v1/auth/mfa/verify'' Open ''MfaVerify'',
     route_of ''POST'' ''/api/v1/auth/mfa/backup-codes'' Open ''MfaBackupCodes'',
     route_of ''POST'' ''/api/v1/auth/mfa/reset/request'' Open ''RequestMfaReset'']"

definition verified_routes :: "table_route list" where
  "verified_routes =
    [route_of ''POST'' ''/api/v1/route'' VerifiedUser ''Route'',
     route_of ''POST'' ''/api/v1/route/reroute'' VerifiedUser ''Reroute'',
     route_of ''POST'' ''/api/v1/search'' VerifiedUser ''Search'',
     route_of ''POST'' ''/api/v1/search/reverse'' VerifiedUser ''ReverseGeocode'',
     route_of ''POST'' ''/api/v1/search/autocomplete'' VerifiedUser ''Autocomplete'',
     route_of ''POST'' ''/api/v1/region/search-point'' VerifiedUser ''SearchPoint'',
     route_of ''POST'' ''/api/v1/region/search-box'' VerifiedUser ''SearchBox'',
     route_of ''POST'' ''/api/v1/region/search-radius'' VerifiedUser ''SearchRadius'',
     route_of ''POST'' ''/api/v1/region/find-crossing-locations'' VerifiedUser ''FindCrossingLocations'',
     route_of ''POST'' ''/api/v1/region/find-region-path'' VerifiedUser ''FindRegionPath'',
     route_of ''POST'' ''/api/v1/region/find-route-region-paths'' VerifiedUser ''FindRouteRegionPaths'',
     \<lparr>tr_method = None, tr_path = ''/v1/tiles/'', tr_guard = VerifiedUser, tr_endpoint = ''Tiles''\<rparr>]"

definition admin_routes :: "table_route list" where
  "admin_routes =
    [route_of ''POST'' ''/api/v1/auth/admin/create-admin'' AdminOnly ''CreateAdmin'',
     route_of ''POST'' ''/api/v1/auth/admin/change-account-type'' AdminOnly ''ChangeAccountType'',
     route_of ''POST'' ''/api/v1/auth/admin/whois'' AdminOnly ''WhoIs'',
     route_of ''POST'' ''/api/v1/auth/admin/create-service-client'' AdminOnly ''CreateServiceClient'',
     route_of ''POST'' ''/api/v1/auth/admin/delete-service-client'' AdminOnly ''DeleteServiceClient'',
     route_of ''GET'' ''/api/v1/auth/admin/list-service-clients'' AdminOnly ''ListServiceClients'',
     route_of ''POST'' ''/api/v1/auth/admin/invite-user'' AdminOnly ''InviteUser'',
     route_of ''POST'' ''/api/v1/auth/admin/revoke-invite'' AdminOnly ''RevokeInvite'',
     route_of ''GET'' ''/api/v1/auth/admin/list-invites'' AdminOnly ''ListInvites'']"

definition registerRoutes :: "table_route list" where
  "registerRoutes =
     open_routes @ verified_routes @ admin_routes @
     [\<lparr>tr_method = None, tr_path = ''/web/'', tr_guard = Open, tr_endpoint = ''Web''\<rparr>]"

section \<open>The mux\<close>

text \<open>A pattern with the method GET serves HEAD as well.\<close>

definition method_serves :: "string \<Rightarrow> string \<Rightarrow> bool" where
  "method_serves pattern m \<longleftrightarrow> pattern = m \<or> (pattern = ''GET'' \<and> m = ''HEAD'')"

definition table_serves :: "request \<Rightarrow> table_route \<Rightarrow> bool" where
  "table_serves r t \<longleftrightarrow>
     matchesPath (tr_path t) (r_path r) \<and>
     (case tr_method t of None \<Rightarrow> True | Some m \<Rightarrow> method_serves m (r_method r))"

definition ext_step :: "request \<Rightarrow> Route option \<Rightarrow> Route \<Rightarrow> Route option" where
  "ext_step r best route =
     (if matchesPath (rt_Path route) (r_path r) \<and> list_ex (\<lambda>m. method_serves m (r_method r)) (rt_Methods route)
      then (case best of
              None \<Rightarrow> Some route
            | Some b \<Rightarrow> if length (rt_Path b) < length (rt_Path route) then Some route else best)
      else best)"

definition mux_extension :: "route_set option \<Rightarrow> request \<Rightarrow> Route option" where
  "mux_extension s r = (case s of None \<Rightarrow> None | Some st \<Rightarrow> foldl (ext_step r) None (routes st))"

definition apply_guard :: "swlib \<Rightarrow> guard \<Rightarrow> 's handler \<Rightarrow> 's handler" where
  "apply_guard lib g h =
     (case g of Open \<Rightarrow> h | VerifiedUser \<Rightarrow> RequireVerifiedUser lib h | AdminOnly \<Rightarrow> RequireAdmin lib h)"

text \<open>What sits behind the mux: the endpoints by name, the handler of an extension route,
  and the mux's own answers.\<close>

record 's backends =
  be_endpoint :: "string \<Rightarrow> 's handler"
  be_extension :: "Route \<Rightarrow> 's handler"
  be_unclean :: "request \<Rightarrow> bool"
  be_fallback :: "request \<Rightarrow> response \<Rightarrow> response"

definition serve_mux :: "swlib \<Rightarrow> route_set option \<Rightarrow> 's backends \<Rightarrow> 's handler" where
  "serve_mux lib ext be r w s =
     (if be_unclean be r then (be_fallback be r w, s)
      else
        (case find (table_serves r) registerRoutes of
           Some t \<Rightarrow> apply_guard lib (tr_guard t) (be_endpoint be (tr_endpoint t)) r w s
         | None \<Rightarrow>
             (case mux_extension ext r of
                Some route \<Rightarrow> be_extension be route r w s
              | None \<Rightarrow> (be_fallback be r w, s))))"

section \<open>The chain\<close>

text \<open>The limiter has its own state beside the one of the endpoints.\<close>

definition on_limiter ::
  "(string \<Rightarrow> int \<Rightarrow> 'l \<Rightarrow> (bool \<times> 'e option) \<times> 'l) \<Rightarrow> string \<Rightarrow> int \<Rightarrow> 'l \<times> 's \<Rightarrow> (bool \<times> 'e option) \<times> 'l \<times> 's" where
  "on_limiter allow key limit = (\<lambda>(l, s). (case allow key limit l of (res, l') \<Rightarrow> (res, l', s)))"

definition with_extension :: "RateLimitConfig \<Rightarrow> route_set option \<Rightarrow> RateLimitConfig" where
  "with_extension cfg ext = cfg\<lparr>Extension := Some (RateClass ext)\<rparr>"

definition on_endpoints :: "'s handler \<Rightarrow> ('l \<times> 's) handler" where
  "on_endpoints h r w = (\<lambda>(l, s). (case h r w s of (w', s') \<Rightarrow> (w', l, s')))"

definition gateway ::
  "swlib \<Rightarrow> (string \<Rightarrow> claims option) \<Rightarrow> ipnet list \<Rightarrow>
     (string \<Rightarrow> int \<Rightarrow> 'l \<Rightarrow> (bool \<times> 'e option) \<times> 'l) \<Rightarrow> RateLimitConfig \<Rightarrow> int \<Rightarrow> route_set option \<Rightarrow>
     's backends \<Rightarrow> (('l \<times> 's) \<times> log_line list) handler" where
  "gateway lib verify trusted allow cfg maxBytes ext be =
     Auth lib verify trusted
       (Logging lib
         (rateLimit lib (on_limiter allow) (with_extension cfg ext)
           (BodyLimitWith maxBytes (Some (set_BodyLimit ext))
             (on_endpoints (serve_mux lib ext be)))))"

text \<open>The limiter in front of the body limit is a gate again.\<close>

interpretation limited_body: two_gates "rateLimit lib allow cfg" "rateLimit_decide lib allow cfg"
    "BodyLimitWith maxBytes override" "body_limit_decide maxBytes override"
  for lib and allow :: "string \<Rightarrow> int \<Rightarrow> 's \<Rightarrow> (bool \<times> 'e option) \<times> 's" and cfg maxBytes override ..

section \<open>Lemmas\<close>

lemma normalize_origins_iff:
  "normalize_origins acc os = Inr ys \<longleftrightarrow>
     ys = acc @ map trim_space os \<and> (\<forall>o1\<in>set os. trim_space o1 \<noteq> '''' \<and> trim_space o1 \<noteq> ''*'')"
  by (induction os arbitrary: acc) (auto simp: Let_def)

lemma ParseCIDR_empty [simp]: "ParseCIDR '''' = None"
  by (simp add: ParseCIDR_def cut_byte_def)

definition admin_path :: "string \<Rightarrow> bool" where
  "admin_path path \<longleftrightarrow> has_prefix path ''/api/v1/auth/admin/''"

definition verified_roots :: "string list" where
  "verified_roots = [''/api/v1/route'', ''/api/v1/search'', ''/api/v1/region'', ''/v1/tiles'']"

definition verified_path :: "string \<Rightarrow> bool" where
  "verified_path path \<longleftrightarrow> list_ex (\<lambda>p. path = p \<or> has_prefix path (p @ ''/'')) verified_roots"

text \<open>What the paths of the gateway require of the claims.\<close>

definition path_policy :: "string \<Rightarrow> (guard \<times> (claims \<Rightarrow> bool)) option" where
  "path_policy path =
     (if admin_path path then Some (AdminOnly, admin_claims)
      else if verified_path path then Some (VerifiedUser, verified_email) else None)"

definition policy_guard :: "string \<Rightarrow> guard \<Rightarrow> bool" where
  "policy_guard path g \<longleftrightarrow> (case path_policy path of None \<Rightarrow> True | Some (g', _) \<Rightarrow> g = g')"

lemma exact_routes_follow_policy:
  "list_all (\<lambda>t. has_suffix (tr_path t) ''/'' \<or> (admin_path (tr_path t) \<longrightarrow> tr_guard t = AdminOnly) \<and>
     (\<not> admin_path (tr_path t) \<and> verified_path (tr_path t) \<longrightarrow> tr_guard t = VerifiedUser)) registerRoutes"
  by code_simp

lemma subtree_routes:
  "list_all (\<lambda>t. has_suffix (tr_path t) ''/'' \<longrightarrow>
     tr_path t = ''/v1/tiles/'' \<and> tr_guard t = VerifiedUser \<or> tr_path t = ''/web/'') registerRoutes"
  by code_simp

lemma table_follows_policy:
  assumes "t \<in> set registerRoutes" and "table_serves r t"
  shows "policy_guard (r_path r) (tr_guard t)"
proof (cases "has_suffix (tr_path t) ''/''")
  case True
  then have pre: "has_prefix (r_path r) (tr_path t)" using assms(2) by (simp add: table_serves_def matchesPath_def)
  from subtree_routes assms(1) True
  consider "tr_path t = ''/v1/tiles/''" "tr_guard t = VerifiedUser" | "tr_path t = ''/web/''"
    by (auto simp: list_all_iff)
  then show ?thesis
  proof cases
    case 1
    then have "\<not> admin_path (r_path r)" using pre by (auto simp: admin_path_def has_prefix_iff)
    with 1 show ?thesis by (simp add: policy_guard_def path_policy_def)
  next
    case 2
    then obtain u where u: "r_path r = ''/web/'' @ u" using pre by (auto simp: has_prefix_iff)
    then have "\<not> admin_path (r_path r)" "\<not> verified_path (r_path r)"
      by (simp_all add: admin_path_def verified_path_def verified_roots_def)
    then show ?thesis by (simp add: policy_guard_def path_policy_def)
  qed
next
  case False
  then have "r_path r = tr_path t" using assms(2) by (simp add: table_serves_def matchesPath_def)
  with exact_routes_follow_policy assms(1) False show ?thesis
    by (auto simp: list_all_iff policy_guard_def path_policy_def)
qed

lemma policy_paths_are_reserved: "path_policy path \<noteq> None \<Longrightarrow> reserved_path path"
proof -
  assume "path_policy path \<noteq> None"
  then have "admin_path path \<or> verified_path path" by (auto simp: path_policy_def split: if_splits)
  then show ?thesis
  proof
    assume "admin_path path"
    then obtain u where "path = ''/api/v1/auth/admin/'' @ u" by (auto simp: admin_path_def has_prefix_iff)
    then have "has_prefix path (''/api/v1/auth'' @ ''/'')" by simp
    then show ?thesis unfolding reserved_path_def reservedPrefixes_def by (meson list.set_intros(1))
  next
    assume "verified_path path"
    then show ?thesis by (auto simp: verified_path_def verified_roots_def reserved_path_def reservedPrefixes_def)
  qed
qed

lemma ext_step_none:
  "(\<forall>x\<in>set rs. \<not> matchesPath (rt_Path x) (r_path r)) \<Longrightarrow> foldl (ext_step r) None rs = None"
  by (induction rs) (auto simp: ext_step_def)

lemma no_extension_on_reserved:
  assumes "NewSet parse rs brk = Inr st" and "reserved_path (r_path r)"
  shows "mux_extension (Some st) r = None"
proof -
  from assms(1) have "valid_routes parse rs" and st: "routes st = rs"
    by (auto simp: NewSet_def Validate_def validate_loop_iff valid_routes_def split: option.splits)
  then have "\<not> matchesPath (rt_Path x) (r_path r)" if "x \<in> set rs" for x
    using that assms(2) valid_path_avoids_reserved by (fastforce simp: valid_routes_def sound_route_def)
  then show ?thesis by (simp add: mux_extension_def st ext_step_none)
qed

definition checked_set :: "(string \<Rightarrow> url option) \<Rightarrow> route_set option \<Rightarrow> bool" where
  "checked_set parse ext = (case ext of None \<Rightarrow> True | Some st \<Rightarrow> Validate parse (routes st) = None)"

lemma checked_no_extension:
  assumes "checked_set parse ext" and "reserved_path (r_path r)"
  shows "mux_extension ext r = None"
proof (cases ext)
  case (Some st)
  then have "NewSet parse (routes st) (breakers st) = Inr st"
    using assms(1) by (simp add: checked_set_def NewSet_def)
  from no_extension_on_reserved[OF this assms(2)] Some show ?thesis by simp
qed (simp add: mux_extension_def)

lemma guard_refuses:
  assumes "path_policy path = Some (g, ok)" and "getClaims lib (r_ctx r) = (pc, pc \<noteq> None)"
    and "\<And>c. pc = Some c \<Longrightarrow> \<not> ok c"
  shows "\<exists>w'. \<forall>h. apply_guard lib g h r w s = (w', s)"
proof -
  from assms(1) have "g = AdminOnly \<and> ok = admin_claims \<or> g = VerifiedUser \<and> ok = verified_email"
    by (auto simp: path_policy_def split: if_splits)
  then show ?thesis
  proof (elim disjE conjE)
    assume "g = AdminOnly" "ok = admin_claims"
    with assms(2,3) show ?thesis
      by (cases pc) (simp_all add: apply_guard_def admin.mw_decide guard_decide_def)
  next
    assume "g = VerifiedUser" "ok = verified_email"
    with assms(2,3) show ?thesis
      by (cases pc) (simp_all add: apply_guard_def verified.mw_decide guard_decide_def)
  qed
qed

lemma mux_refuses:
  assumes "checked_set parse ext" and "path_policy (r_path r) = Some (g, ok)"
    and "getClaims lib (r_ctx r) = (pc, pc \<noteq> None)" and "\<And>c. pc = Some c \<Longrightarrow> \<not> ok c"
  shows "\<exists>w'. \<forall>e x. serve_mux lib ext (be\<lparr>be_endpoint := e, be_extension := x\<rparr>) r w s = (w', s)"
proof (cases "be_unclean be r")
  case True
  then show ?thesis by (simp add: serve_mux_def)
next
  case False
  show ?thesis
  proof (cases "find (table_serves r) registerRoutes")
    case None
    have "mux_extension ext r = None"
      using assms(1,2) by (intro checked_no_extension policy_paths_are_reserved) simp_all
    with False None show ?thesis by (simp add: serve_mux_def)
  next
    case (Some t)
    then have "t \<in> set registerRoutes" "table_serves r t" by (auto simp: find_Some_iff)
    from table_follows_policy[OF this] assms(2) have "tr_guard t = g" by (simp add: policy_guard_def)
    moreover from guard_refuses[OF assms(2-4), of w s]
    obtain w' where "\<forall>h. apply_guard lib g h r w s = (w', s)" by blast
    ultimately show ?thesis using False Some by (intro exI[of _ w']) (simp add: serve_mux_def)
  qed
qed

lemma body_limit_request:
  "BodyLimitWith maxBytes override next r w s = next (r\<lparr>r_body := b\<rparr>) w s \<or>
   BodyLimitWith maxBytes override next r w s = next r w s"
  if "b = max_bytes_reader (r_body r) (body_bound maxBytes override r)"
  using that by (cases "0 < body_bound maxBytes override r")
    (simp_all add: body_limit.mw_decide body_limit_decide_def)

lemma bounded_mux_refuses:
  assumes "checked_set parse ext" and "path_policy (r_path r) = Some (g, ok)"
    and "getClaims lib (r_ctx r) = (pc, pc \<noteq> None)" and "\<And>c. pc = Some c \<Longrightarrow> \<not> ok c"
  shows "\<exists>w'. \<forall>e x. BodyLimitWith maxBytes override
    (on_endpoints (serve_mux lib ext (be\<lparr>be_endpoint := e, be_extension := x\<rparr>))) r w (l, s) = (w', l, s)"
proof -
  let ?r = "if 0 < body_bound maxBytes override r
    then r\<lparr>r_body := max_bytes_reader (r_body r) (body_bound maxBytes override r)\<rparr> else r"
  have "path_policy (r_path ?r) = Some (g, ok)" "getClaims lib (r_ctx ?r) = (pc, pc \<noteq> None)"
    using assms(2,3) by simp_all
  from mux_refuses[OF assms(1) this assms(4), of be w s] obtain w' where
    "\<forall>e x. serve_mux lib ext (be\<lparr>be_endpoint := e, be_extension := x\<rparr>) ?r w s = (w', s)" by blast
  then show ?thesis
    by (intro exI[of _ w'])
       (simp add: body_limit.forwarded[OF body_limit_decide_def] on_endpoints_def)
qed

section \<open>Properties\<close>

text \<open>
  (C1) The access policy of the whole gateway: a request whose path is under the admin,
  routing, search, region or tiles endpoints and that does not prove claims which are
  administrator's, or of a verified email, changes nothing behind the gateway and is
  answered the same whatever the endpoints and the extension routes do, through every
  middleware and with any operator-configured routes that passed the validation.
\<close>

theorem protected_paths_need_claims:
  assumes "swlib_context lib" and "ctx_value (r_ctx r) ClaimsKey = None" and "checked_set parse ext"
    and "path_policy (r_path r) = Some (g, ok)"
    and "\<And>c. proved_claims lib verify r = Some c \<Longrightarrow> \<not> ok c"
  shows "\<exists>w' l' line. \<forall>e x.
    gateway lib verify trusted allow cfg maxBytes ext (be\<lparr>be_endpoint := e, be_extension := x\<rparr>) r w ((l, a), logged) =
      (w', (l', a), logged @ [line])"
proof -
  let ?r = "with_context r (auth_ctx lib verify trusted r)"
  let ?inner = "\<lambda>e x. BodyLimitWith maxBytes (Some (set_BodyLimit ext))
      (on_endpoints (serve_mux lib ext (be\<lparr>be_endpoint := e, be_extension := x\<rparr>)))"
  have p: "path_policy (r_path ?r) = Some (g, ok)" using assms(4) by (simp add: with_context_def)
  have c: "getClaims lib (r_ctx ?r) = (proved_claims lib verify r, proved_claims lib verify r \<noteq> None)"
    using claims_after_auth[OF assms(1,2)] by simp
  obtain res l' where res: "allow (rate_key lib (with_extension cfg ext) ?r) (rate_limit lib (with_extension cfg ext) ?r) l = (res, l')"
    by fastforce
  from bounded_mux_refuses[OF assms(3) p c assms(5), of maxBytes "Some (set_BodyLimit ext)" be w l' a]
  obtain w1 where w1: "\<forall>e x. ?inner e x ?r w (l', a) = (w1, l', a)" by blast
  have "\<exists>w'. \<forall>e x. rateLimit lib (on_limiter allow) (with_extension cfg ext) (?inner e x) ?r w (l, a) = (w', l', a)"
    using w1 by (cases res; cases "fst res"; cases "snd res")
      (simp_all add: rate.mw_decide rateLimit_decide_def on_limiter_def res)
  then obtain w' where "\<forall>e x. rateLimit lib (on_limiter allow) (with_extension cfg ext) (?inner e x) ?r w (l, a) = (w', l', a)"
    by blast
  then show ?thesis by (simp add: gateway_def Auth_def Logging_def Let_def split: prod.split)
qed

definition demo_backends :: "nat backends" where
  "demo_backends = \<lparr>be_endpoint = (\<lambda>n r w s. (w, Suc s)), be_extension = (\<lambda>x r w s. (w, Suc s)),
     be_unclean = (\<lambda>r. False), be_fallback = (\<lambda>r w. http_error w ''404 page not found'' 404)\<rparr>"

theorem protected_paths_need_claims_witness:
  "snd (fst (snd (gateway plain_swlib (\<lambda>t. None) demo_trusted (\<lambda>k n l. ((True, None), Suc l)) demo_limits 1048576
     (Some loaded_set) demo_backends (demo_peer ''203.0.113.9:4000'' []) fresh_response ((0, 7), [])))) = 7"
proof -
  let ?r = "demo_peer ''203.0.113.9:4000'' []"
  have h: "ctx_value (r_ctx ?r) ClaimsKey = None" "checked_set photos_url (Some loaded_set)"
    "path_policy (r_path ?r) = Some (VerifiedUser, verified_email)"
    "proved_claims plain_swlib (\<lambda>t. None) ?r = None"
    using loaded_valid
    by (simp_all add: demo_peer_def ctx_value_def checked_set_def loaded_set_def path_policy_def admin_path_def
        verified_path_def verified_roots_def proved_claims_def)
  have "demo_backends = demo_backends\<lparr>be_endpoint := be_endpoint demo_backends, be_extension := be_extension demo_backends\<rparr>"
    by simp
  with protected_paths_need_claims[OF plain_swlib_context h(1-3), of "\<lambda>t. None" demo_trusted
      "\<lambda>k n l. ((True, None), Suc l)" demo_limits 1048576 demo_backends fresh_response 0 7 "[]"] h(4)
  show ?thesis by (metis fst_conv option.distinct(1) snd_conv)
qed

text \<open>
  The configured origins are accepted exactly when none is empty or the bare wildcard
  once trimmed, and then they are the trimmed origins in their order: with credentials
  allowed, the gateway never starts reflecting every origin.
\<close>

theorem cors_origins_are_explicit:
  "normalizeCORSOrigins origins = Inr ys \<longleftrightarrow>
     ys = map trim_space origins \<and> '''' \<notin> set ys \<and> ''*'' \<notin> set ys"
proof -
  have "a \<notin> set (map trim_space origins) \<longleftrightarrow> (\<forall>o1\<in>set origins. trim_space o1 \<noteq> a)" for a
    by auto
  from this[of "''''"] this[of "''*''"] show ?thesis
    by (simp only: normalizeCORSOrigins_def normalize_origins_iff append_Nil) blast
qed

text \<open>
  The trusted networks are those of the entries that parse, in their order; blank and
  invalid entries are dropped one by one, and with none left no peer is trusted at all.
\<close>

theorem trusted_proxies_are_the_valid_entries:
  "parseTrustedProxies cidrs = List.map_filter (ParseCIDR \<circ> trim_space) cidrs \<and>
   (parseTrustedProxies cidrs = [] \<longrightarrow> \<not> isTrustedProxy ip (parseTrustedProxies cidrs))"
proof -
  have "parseTrustedProxies cidrs = List.map_filter (ParseCIDR \<circ> trim_space) cidrs"
    by (induction cidrs) (auto simp: List.map_filter_def Let_def split: option.splits)
  then show ?thesis by (simp add: isTrustedProxy_def split: option.split)
qed

theorem trusted_proxies_are_the_valid_entries_witness:
  "parseTrustedProxies ['' '', ''10.0.0.0/33'', '' 10.0.0.0/8''] = demo_trusted"
proof -
  have "List.map_filter (ParseCIDR \<circ> trim_space) ['' '', ''10.0.0.0/33'', '' 10.0.0.0/8''] = demo_trusted"
    by code_simp
  with trusted_proxies_are_the_valid_entries[of "['' '', ''10.0.0.0/33'', '' 10.0.0.0/8'']" "''10.0.0.1''"]
  show ?thesis by simp
qed

text \<open>
  A HEAD request escapes the limits of the extension route that serves it: the mux
  sends HEAD to a GET route, but the route's rate class and body limit are looked up by
  exact method, so that for a set that configures no HEAD (none passes the validation with
  one) a HEAD request is served by the route and yet counted and bounded as the gateway's own.
\<close>

theorem head_escapes_extension_limits:
  assumes "Validate parse rs = None" and "route \<in> set rs" and "''GET'' \<in> set (rt_Methods route)"
    and "matchesPath (rt_Path route) (r_path r)" and "r_method r = ''HEAD''"
  shows "mux_extension (Some \<lparr>routes = rs, breakers = brk\<rparr>) r \<noteq> None \<and>
    RateClass (Some \<lparr>routes = rs, breakers = brk\<rparr>) r =
      (\<lparr>ec_Name = '''', ec_UserPerMin = 0, ec_IPPerMin = 0, ec_PerIPOnly = False\<rparr>, False) \<and>
    set_BodyLimit (Some \<lparr>routes = rs, breakers = brk\<rparr>) r = (0, False)"
proof -
  from assms(1) have "\<forall>x\<in>set rs. set (rt_Methods x) \<subseteq> set allowedMethods"
    by (simp add: Validate_def validate_loop_iff sound_route_def)
  then have "''HEAD'' \<notin> set (rt_Methods x)" if "x \<in> set rs" for x
    using that by (auto simp: allowedMethods_def)
  then have "\<forall>x\<in>set rs. \<not> serves x r" using assms(5) by (auto simp: serves_def)
  then have m: "Match (Some \<lparr>routes = rs, breakers = brk\<rparr>) r = None"
    by (simp add: Match_def foldl_match_None)
  have keep: "foldl (ext_step r) (Some b) xs \<noteq> None" for b xs
    by (induction xs arbitrary: b) (auto simp: ext_step_def split: option.split)
  have "foldl (ext_step r) best rs \<noteq> None" for best
    using assms(2)
  proof (induction rs arbitrary: best)
    case (Cons x xs)
    show ?case
    proof (cases "route = x")
      case True
      then have "ext_step r best x \<noteq> None"
        using assms(3-5) by (auto simp: ext_step_def method_serves_def list_ex_iff split: option.split)
      then show ?thesis using keep by auto
    qed (use Cons in auto)
  qed simp
  with m show ?thesis by (simp add: mux_extension_def RateClass_def set_BodyLimit_def)
qed

theorem head_escapes_extension_limits_witness:
  "RateClass (Some loaded_set) ((photo_request ''/api/v1/photos/1'' [])\<lparr>r_method := ''HEAD''\<rparr>) =
     (\<lparr>ec_Name = '''', ec_UserPerMin = 0, ec_IPPerMin = 0, ec_PerIPOnly = False\<rparr>, False)"
proof -
  let ?r = "(photo_request ''/api/v1/photos/1'' [])\<lparr>r_method := ''HEAD''\<rparr>"
  let ?p = "photos_route\<lparr>rt_Timeout := defaultTimeout\<rparr>"
  have "?p \<in> set loaded_routes" by (simp add: loaded_routes_def)
  moreover have "''GET'' \<in> set (rt_Methods ?p)" "matchesPath (rt_Path ?p) (r_path ?r)" "r_method ?r = ''HEAD''"
    by (simp_all add: photos_route_def photo_request_def matchesPath_def has_suffix_def)
  ultimately show ?thesis
    using head_escapes_extension_limits[OF loaded_valid, of ?p ?r True] by (simp add: loaded_set_def)
qed

end
