(* ===== verification/Float64.thy ===== *)
theory Float64
  imports Complex_Main Json_Model
begin

text \<open>
  Go's \<open>float64\<close> as the gateway uses it: the finite values with their sign, 53-bit mantissa
  and exponent, rounding to nearest even, \<open>strconv.ParseFloat\<close> on JSON numbers, the shortest
  decimal text \<open>encoding/json\<close> writes, comparison and the arithmetic of the haversine
  distance.  Reading a written number gives the number back.
\<close>

section \<open>Values\<close>

datatype float64 = Finite bool int int | Infinite bool | NaN

text \<open>\<open>Finite s m e\<close> is \<open>m * 2 ^ e\<close> with sign \<open>s\<close>, in the one form the format has for it.\<close>

definition canonical :: "int \<Rightarrow> int \<Rightarrow> bool" where
  "canonical m e \<longleftrightarrow> 0 \<le> m \<and> m < 2 ^ 53 \<and> - 1074 \<le> e \<and> e \<le> 971 \<and> (2 ^ 52 \<le> m \<or> e = - 1074)"

fun finite64 :: "float64 \<Rightarrow> bool" where
  "finite64 (Finite s m e) = canonical m e"
| "finite64 _ = False"

section \<open>Rounding\<close>

function bit_len :: "int \<Rightarrow> int" where
  "bit_len n = (if n \<le> 0 then 0 else 1 + bit_len (n div 2))"
  by pat_completeness auto
termination
  by (relation "measure nat") auto

declare bit_len.simps [simp del]

text \<open>The quotient \<open>n / d\<close> in units of \<open>2 ^ e\<close>, as a quotient.\<close>

definition scaled :: "int \<Rightarrow> int \<Rightarrow> int \<Rightarrow> int \<times> int" where
  "scaled n d e = (if 0 \<le> e then (n, d * 2 ^ nat e) else (n * 2 ^ nat (- e), d))"

definition half_even :: "int \<Rightarrow> int \<Rightarrow> int" where
  "half_even n d =
     (let q = n div d; r = n mod d in if 2 * r < d \<or> 2 * r = d \<and> even q then q else q + 1)"

definition round_exp :: "int \<Rightarrow> int \<Rightarrow> int" where
  "round_exp n d =
     (let e0 = bit_len n - bit_len d - 53; (a, b) = scaled n d e0
      in max (if a div b < 2 ^ 53 then e0 else e0 + 1) (- 1074))"

definition round_ratio :: "bool \<Rightarrow> int \<Rightarrow> int \<Rightarrow> float64" where
  "round_ratio s n d =
     (if n = 0 then Finite s 0 (- 1074)
      else
        let e = round_exp n d; (a, b) = scaled n d e; m = half_even a b;
            (m', e') = (if m = 2 ^ 53 then (2 ^ 52, e + 1) else (m, e))
        in if 971 < e' then Infinite s else Finite s m' e')"

section \<open>Decimal texts\<close>

text \<open>Digits and their value, on integers.\<close>

function int_text :: "int \<Rightarrow> string" where
  "int_text n = (if n < 10 then [char_of (48 + n)] else int_text (n div 10) @ [char_of (48 + n mod 10)])"
  by pat_completeness auto
termination
  by (relation "measure nat") auto

declare int_text.simps [simp del]

definition dec_val :: "string \<Rightarrow> int" where
  "dec_val s = foldl (\<lambda>v c. 10 * v + (of_char c - 48)) 0 s"

text \<open>\<open>c * 10 ^ k\<close> rounded.\<close>

definition decimal_ratio :: "int \<Rightarrow> int \<Rightarrow> int \<times> int" where
  "decimal_ratio c k = (if 0 \<le> k then (c * 10 ^ nat k, 1) else (c, 10 ^ nat (- k)))"

definition of_decimal :: "bool \<Rightarrow> int \<Rightarrow> int \<Rightarrow> float64" where
  "of_decimal s c k = (let (n, d) = decimal_ratio c k in round_ratio s n d)"

text \<open>A JSON number: sign, digits and decimal exponent.\<close>

definition exponent_value :: "string \<Rightarrow> int" where
  "exponent_value t =
     (case t of
        [] \<Rightarrow> 0
      | c # r \<Rightarrow> if c = CHR ''-'' then - dec_val r
                 else if c = CHR ''+'' then dec_val r else dec_val t)"

definition parse_decimal :: "string \<Rightarrow> bool \<times> int \<times> int" where
  "parse_decimal s =
     (let (neg, b) = (case s of c # r \<Rightarrow> if c = CHR ''-'' then (True, r) else (False, s) | [] \<Rightarrow> (False, []));
          i = takeWhile is_digit b; r = dropWhile is_digit b;
          (f, r') = (case r of
                       c # t \<Rightarrow> if c = CHR ''.'' then (takeWhile is_digit t, dropWhile is_digit t) else ([], r)
                     | [] \<Rightarrow> ([], []))
      in (neg, dec_val (i @ f), (case r' of [] \<Rightarrow> 0 | _ # t \<Rightarrow> exponent_value t) - int (length f)))"

text \<open>\<open>ParseFloat\<close> with 64 bits: a number beyond the range is an error.\<close>

definition parse_f64 :: "string \<Rightarrow> float64 option" where
  "parse_f64 t =
     (case parse_decimal t of (s, c, k) \<Rightarrow>
        (case of_decimal s c k of Finite s' m e \<Rightarrow> Some (Finite s' m e) | _ \<Rightarrow> None))"

section \<open>The shortest decimal\<close>

definition ratio_of :: "int \<Rightarrow> int \<Rightarrow> int \<times> int" where
  "ratio_of m e = (if 0 \<le> e then (m * 2 ^ nat e, 1) else (m, 2 ^ nat (- e)))"

definition scaled10 :: "int \<Rightarrow> int \<Rightarrow> int \<Rightarrow> int \<times> int" where
  "scaled10 n d k = (if 0 \<le> k then (n, d * 10 ^ nat k) else (n * 10 ^ nat (- k), d))"

text \<open>The power of ten of the first digit.\<close>

definition lead10 :: "int \<Rightarrow> int \<Rightarrow> int" where
  "lead10 n d =
     (let x = int (length (int_text n)) - int (length (int_text d)); (a, b) = scaled10 n d x
      in if b \<le> a then x else x - 1)"

function strip_zeros :: "int \<Rightarrow> int \<Rightarrow> int \<times> int" where
  "strip_zeros c k = (if 0 < c \<and> c mod 10 = 0 then strip_zeros (c div 10) (k + 1) else (c, k))"
  by pat_completeness auto
termination
  by (relation "measure (nat \<circ> fst)") auto

declare strip_zeros.simps [simp del]

text \<open>The two decimals next to \<open>n / d\<close> in units of \<open>10 ^ k\<close>, the nearer one first.\<close>

definition neighbours :: "int \<Rightarrow> int \<Rightarrow> int \<Rightarrow> (int \<times> int) list" where
  "neighbours n d k =
     (let (a, b) = scaled10 n d k; q = a div b; r = a mod b
      in map (\<lambda>c. strip_zeros c k)
           (if r = 0 then [q] else if 2 * r < b \<or> 2 * r = b \<and> even q then [q, q + 1] else [q + 1, q]))"

fun shortest_from :: "int \<Rightarrow> int \<Rightarrow> int \<Rightarrow> int \<Rightarrow> int \<Rightarrow> int list \<Rightarrow> (int \<times> int) option" where
  "shortest_from m e n d x [] = None"
| "shortest_from m e n d x (p # ps) =
     (case find (\<lambda>(c, k). of_decimal False c k = Finite False m e) (neighbours n d (x + 1 - p)) of
        Some ck \<Rightarrow> Some ck
      | None \<Rightarrow> shortest_from m e n d x ps)"

text \<open>Seventeen digits are enough for every value; the exact expansion makes the function total.\<close>

definition exact_decimal :: "int \<Rightarrow> int \<Rightarrow> int \<times> int" where
  "exact_decimal m e = (if 0 \<le> e then (m * 2 ^ nat e, 0) else (m * 5 ^ nat (- e), e))"

definition shortest :: "int \<Rightarrow> int \<Rightarrow> int \<times> int" where
  "shortest m e =
     (let (n, d) = ratio_of m e
      in case shortest_from m e n d (lead10 n d) [1, 2, 3, 4, 5, 6, 7, 8, 9, 10, 11, 12, 13, 14, 15, 16, 17] of
           Some ck \<Rightarrow> ck | None \<Rightarrow> exact_decimal m e)"

definition fixed_text :: "int \<Rightarrow> int \<Rightarrow> string" where
  "fixed_text c k =
     (let ds = int_text c
      in if 0 \<le> k then ds @ replicate (nat k) (CHR ''0'')
         else
           let pad = replicate (nat (- k) + 1 - length ds) (CHR ''0'') @ ds; i = length pad - nat (- k)
           in take i pad @ CHR ''.'' # drop i pad)"

definition exponent_text :: "int \<Rightarrow> int \<Rightarrow> string" where
  "exponent_text c k =
     (let ds = int_text c; x = int (length ds) - 1 + k
      in hd ds # (if tl ds = [] then [] else CHR ''.'' # tl ds) @
         CHR ''e'' # (if x < 0 then CHR ''-'' else CHR ''+'') # int_text \<bar>x\<bar>)"

text \<open>The order of magnitudes in canonical form.\<close>

definition mag_less :: "int \<Rightarrow> int \<Rightarrow> int \<Rightarrow> int \<Rightarrow> bool" where
  "mag_less m e m' e' \<longleftrightarrow> e < e' \<or> e = e' \<and> m < m'"

definition below64 :: "int \<Rightarrow> int \<Rightarrow> float64 \<Rightarrow> bool" where
  "below64 m e b = (case b of Finite s m' e' \<Rightarrow> mag_less m e m' e' | _ \<Rightarrow> False)"

text \<open>\<open>encoding/json\<close> writes small and large magnitudes with an exponent, and no \<open>NaN\<close> or
  infinity at all.\<close>

definition show_f64 :: "float64 \<Rightarrow> string option" where
  "show_f64 v =
     (case v of
        Finite s m e \<Rightarrow>
          Some ((if s then ''-'' else []) @
            (if m = 0 then ''0''
             else
               let (c, k) = shortest m e
               in if below64 m e (of_decimal False 1 (- 6)) \<or> \<not> below64 m e (of_decimal False 1 21)
                  then exponent_text c k else fixed_text c k))
      | _ \<Rightarrow> None)"

section \<open>Comparison and arithmetic\<close>

fun f64_lt :: "float64 \<Rightarrow> float64 \<Rightarrow> bool" where
  "f64_lt (Finite s m e) (Finite s' m' e') =
     (if s then (if s' then mag_less m' e' m e else m \<noteq> 0 \<or> m' \<noteq> 0)
      else \<not> s' \<and> mag_less m e m' e')"
| "f64_lt (Finite s m e) (Infinite s') = (\<not> s')"
| "f64_lt (Infinite s) (Finite s' m e) = s"
| "f64_lt (Infinite s) (Infinite s') = (s \<and> \<not> s')"
| "f64_lt _ _ = False"

definition f64_le :: "float64 \<Rightarrow> float64 \<Rightarrow> bool" where
  "f64_le a b \<longleftrightarrow> a \<noteq> NaN \<and> b \<noteq> NaN \<and> \<not> f64_lt b a"

fun is_zero64 :: "float64 \<Rightarrow> bool" where
  "is_zero64 (Finite s m e) = (m = 0)"
| "is_zero64 _ = False"

fun sign64 :: "float64 \<Rightarrow> bool" where
  "sign64 (Finite s m e) = s"
| "sign64 (Infinite s) = s"
| "sign64 NaN = False"

text \<open>\<open>math.Min\<close> and \<open>math.Max\<close>, with their rules for infinities, \<open>NaN\<close> and signed zeros.\<close>

definition go_min :: "float64 \<Rightarrow> float64 \<Rightarrow> float64" where
  "go_min x y =
     (if x = Infinite True \<or> y = Infinite True then Infinite True
      else if x = NaN \<or> y = NaN then NaN
      else if is_zero64 x \<and> is_zero64 y then (if sign64 x then x else y)
      else if f64_lt x y then x else y)"

definition go_max :: "float64 \<Rightarrow> float64 \<Rightarrow> float64" where
  "go_max x y =
     (if x = Infinite False \<or> y = Infinite False then Infinite False
      else if x = NaN \<or> y = NaN then NaN
      else if is_zero64 x \<and> is_zero64 y then (if sign64 x then y else x)
      else if f64_lt y x then x else y)"

definition signed64 :: "bool \<Rightarrow> int \<Rightarrow> int" where
  "signed64 s m = (if s then - m else m)"

text \<open>An exact \<open>m * 2 ^ e\<close> rounded.\<close>

definition round_binary :: "bool \<Rightarrow> int \<Rightarrow> int \<Rightarrow> float64" where
  "round_binary s m e = (let (n, d) = ratio_of m e in round_ratio s n d)"

fun f64_neg :: "float64 \<Rightarrow> float64" where
  "f64_neg (Finite s m e) = Finite (\<not> s) m e"
| "f64_neg (Infinite s) = Infinite (\<not> s)"
| "f64_neg NaN = NaN"

fun f64_add :: "float64 \<Rightarrow> float64 \<Rightarrow> float64" where
  "f64_add (Finite s m e) (Finite s' m' e') =
     (if m = 0 \<and> m' = 0 then Finite (s \<and> s') 0 (- 1074)
      else if m = 0 then Finite s' m' e'
      else if m' = 0 then Finite s m e
      else
        let k = min e e'; t = signed64 s m * 2 ^ nat (e - k) + signed64 s' m' * 2 ^ nat (e' - k)
        in round_binary (t < 0) \<bar>t\<bar> k)"
| "f64_add (Infinite s) (Infinite s') = (if s = s' then Infinite s else NaN)"
| "f64_add (Infinite s) (Finite _ _ _) = Infinite s"
| "f64_add (Finite _ _ _) (Infinite s) = Infinite s"
| "f64_add _ _ = NaN"

definition f64_sub :: "float64 \<Rightarrow> float64 \<Rightarrow> float64" where
  "f64_sub a b = f64_add a (f64_neg b)"

fun f64_mul :: "float64 \<Rightarrow> float64 \<Rightarrow> float64" where
  "f64_mul (Finite s m e) (Finite s' m' e') = round_binary (s \<noteq> s') (m * m') (e + e')"
| "f64_mul (Infinite s) (Finite s' m e) = (if m = 0 then NaN else Infinite (s \<noteq> s'))"
| "f64_mul (Finite s' m e) (Infinite s) = (if m = 0 then NaN else Infinite (s \<noteq> s'))"
| "f64_mul (Infinite s) (Infinite s') = Infinite (s \<noteq> s')"
| "f64_mul _ _ = NaN"

fun f64_div :: "float64 \<Rightarrow> float64 \<Rightarrow> float64" where
  "f64_div (Finite s m e) (Finite s' m' e') =
     (if m' = 0 then (if m = 0 then NaN else Infinite (s \<noteq> s'))
      else
        let (n, d) = ratio_of m e; (n', d') = ratio_of m' e' in round_ratio (s \<noteq> s') (n * d') (d * n'))"
| "f64_div (Infinite s) (Finite s' m e) = Infinite (s \<noteq> s')"
| "f64_div (Finite s m e) (Infinite s') = Finite (s \<noteq> s') 0 (- 1074)"
| "f64_div _ _ = NaN"

text \<open>Constants of the source.\<close>

definition f64_int :: "int \<Rightarrow> float64" where
  "f64_int i = of_decimal (i < 0) \<bar>i\<bar> 0"

definition f64_zero :: float64 where "f64_zero = Finite False 0 (- 1074)"

section \<open>Rounding is exact on representable values\<close>

lemma bit_len_bounds: "0 < n \<Longrightarrow> 0 < bit_len n \<and> 2 ^ nat (bit_len n - 1) \<le> n \<and> n < 2 ^ nat (bit_len n)"
proof (induction n rule: bit_len.induct)
  case (1 n)
  show ?case
  proof (cases "n = 1")
    case True
    then show ?thesis by (simp add: bit_len.simps)
  next
    case False
    with 1(2) have p: "0 < n div 2" and n: "\<not> n \<le> 0" by auto
    from 1(1)[OF n p] have ih: "0 < bit_len (n div 2)" "2 ^ nat (bit_len (n div 2) - 1) \<le> n div 2"
      "n div 2 < 2 ^ nat (bit_len (n div 2))" by auto
    have b: "bit_len n = 1 + bit_len (n div 2)" using n by (simp add: bit_len.simps[of n])
    have "nat (bit_len (n div 2)) = Suc (nat (bit_len (n div 2) - 1))" using ih(1) by simp
    then have e: "(2::int) ^ nat (bit_len (n div 2)) = 2 * 2 ^ nat (bit_len (n div 2) - 1)" by simp
    have "nat (bit_len n) = Suc (nat (bit_len (n div 2)))" using b ih(1) by simp
    then have e': "(2::int) ^ nat (bit_len n) = 2 * 2 ^ nat (bit_len (n div 2))" by simp
    have "nat (bit_len n - 1) = nat (bit_len (n div 2))" using b by simp
    moreover have "2 * (n div 2) \<le> n" "n < 2 * (n div 2) + 2" by auto
    ultimately show ?thesis using ih b e e' by auto
  qed
qed

lemma powi_nat: "0 \<le> e \<Longrightarrow> (2::real) powi e = 2 ^ nat e" "e < 0 \<Longrightarrow> (2::real) powi e = inverse (2 ^ nat (- e))"
  by (simp_all add: power_int_def power_one_over inverse_eq_divide)

lemma bit_len_real:
  assumes "0 < n"
  shows "2 powi (bit_len n - 1) \<le> real_of_int n" and "real_of_int n < 2 powi (bit_len n)"
proof -
  note b = bit_len_bounds[OF assms]
  have "real_of_int (2 ^ nat (bit_len n - 1)) \<le> real_of_int n" using b by (simp only: of_int_le_iff)
  then show "2 powi (bit_len n - 1) \<le> real_of_int n" using b by (simp add: powi_nat)
  have "real_of_int n < real_of_int (2 ^ nat (bit_len n))" using b by (simp only: of_int_less_iff)
  then show "real_of_int n < 2 powi (bit_len n)" using b by (simp add: powi_nat)
qed

lemma scaled_real:
  assumes "0 < d" and "scaled n d e = (a, b)"
  shows "0 < b" and "real_of_int a / real_of_int b = real_of_int n / real_of_int d / 2 powi e"
  using assms by (auto simp: scaled_def powi_nat field_simps split: if_splits)

lemma div_less_real:
  assumes "0 < (b::int)" and "real_of_int a / real_of_int b = x"
  shows "a div b < k \<longleftrightarrow> x < real_of_int k"
proof -
  have "a div b = \<lfloor>x\<rfloor>" using assms(2) by (metis floor_divide_of_int_eq)
  then show ?thesis by (simp add: floor_less_iff)
qed

lemma powi_mono_iff: "(2::real) powi a < 2 powi b \<longleftrightarrow> a < b"
  by (meson linorder_not_less one_less_numeral_iff power_int_increasing power_int_strict_increasing semiring_norm(76) one_le_numeral)

lemma round_exp_normal:
  assumes "0 < n" and "0 < d" and x: "x = real_of_int n / real_of_int d"
    and "2 ^ 52 \<le> x / 2 powi e" and "x / 2 powi e < 2 ^ 53"
  shows "round_exp n d = max e (- 1074)"
proof -
  define e0 where "e0 = bit_len n - bit_len d - 53"
  obtain a b where ab: "scaled n d e0 = (a, b)" by fastforce
  note s = scaled_real[OF assms(2) ab]
  have q: "a div b < 2 ^ 53 \<longleftrightarrow> x / 2 powi e0 < 2 ^ 53"
    using div_less_real[OF s(1), of a "x / 2 powi e0" "2 ^ 53"] s(2) by (simp add: x)
  have n1: "2 powi (bit_len n - 1) \<le> real_of_int n" "real_of_int n < 2 powi (bit_len n)"
    and d1: "2 powi (bit_len d - 1) \<le> real_of_int d" "real_of_int d < 2 powi (bit_len d)"
    using bit_len_real assms(1,2) by auto
  have dp: "0 < real_of_int d" using assms(2) by simp
  have lo: "2 powi (bit_len n - 1 - bit_len d) < x"
  proof -
    have "2 powi (bit_len n - 1 - bit_len d) * real_of_int d < 2 powi (bit_len n - 1 - bit_len d) * 2 powi (bit_len d)"
      using d1(2) by simp
    also have "\<dots> = 2 powi (bit_len n - 1)" by (simp add: power_int_add[symmetric])
    also note n1(1)
    finally show ?thesis using dp by (simp add: x field_simps)
  qed
  have hi: "x < 2 powi (bit_len n - bit_len d + 1)"
  proof -
    have "real_of_int n < 2 powi (bit_len n - bit_len d + 1) * 2 powi (bit_len d - 1)"
      using n1(2) by (simp add: power_int_add[symmetric])
    also have "\<dots> \<le> 2 powi (bit_len n - bit_len d + 1) * real_of_int d" using d1(1) by simp
    finally show ?thesis using dp by (simp add: x field_simps)
  qed
  have p: "(2::real) ^ 52 = 2 powi 52" "(2::real) ^ 53 = 2 powi 53" by (simp_all add: power_int_def)
  have up: "x < 2 powi (e + 53)" and dn: "2 powi (e + 52) \<le> x"
    using assms(4,5) by (simp_all add: field_simps power_int_add)
  from lo up have "2 powi (bit_len n - 1 - bit_len d) < (2::real) powi (e + 53)" by linarith
  then have g1: "e0 \<le> e" by (simp add: powi_mono_iff e0_def)
  from dn hi have "(2::real) powi (e + 52) < 2 powi (bit_len n - bit_len d + 1)" by linarith
  then have g2: "e \<le> e0 + 1" by (simp add: powi_mono_iff e0_def)
  have "(x / 2 powi e0 < 2 ^ 53) \<longleftrightarrow> x < 2 powi (e0 + 53)"
    by (simp add: field_simps power_int_add)
  also have "\<dots> \<longleftrightarrow> e = e0"
  proof
    assume "x < 2 powi (e0 + 53)"
    with dn have "(2::real) powi (e + 52) < 2 powi (e0 + 53)" by linarith
    with g1 g2 show "e = e0" by (simp add: powi_mono_iff)
  qed (use up in simp)
  finally show ?thesis using q g1 g2 by (auto simp: round_exp_def ab e0_def[symmetric] Let_def)
qed

lemma half_even_exact: "0 < b \<Longrightarrow> a = m * b \<Longrightarrow> half_even a b = m"
  by (simp add: half_even_def Let_def)

theorem round_exact:
  assumes "canonical m e" and "0 < n" and "0 < d"
    and x: "real_of_int n / real_of_int d = real_of_int m * 2 powi e"
  shows "round_ratio s n d = Finite s m e"
proof -
  have c: "0 \<le> m" "m < 2 ^ 53" "- 1074 \<le> e" "e \<le> 971" "2 ^ 52 \<le> m \<or> e = - 1074"
    using assms(1) by (auto simp: canonical_def)
  have "0 < real_of_int n / real_of_int d" using assms(2,3) by simp
  then have mp: "0 < m" using x c(1) by (simp add: zero_less_mult_iff)
  have re: "round_exp n d = e"
  proof (cases "2 ^ 52 \<le> m")
    case True
    have "real_of_int n / real_of_int d / 2 powi e = real_of_int m" by (simp add: x)
    moreover have "(2::real) ^ 52 \<le> real_of_int m" "real_of_int m < 2 ^ 53" using True c(2) by simp_all
    ultimately show ?thesis using round_exp_normal[OF assms(2,3) refl, of e] c(3) by simp
  next
    case False
    then have e: "e = - 1074" and m: "real_of_int m < 2 ^ 52" using c(5) by auto
    define k where "k = bit_len m"
    have b: "2 powi (k - 1) \<le> real_of_int m" "real_of_int m < 2 powi k"
      using bit_len_real[OF mp] by (simp_all add: k_def)
    have "(2::real) powi (k - 1) < 2 powi 52" using b(1) m by simp
    then have k: "k < 53" unfolding powi_mono_iff by simp
    have y: "real_of_int n / real_of_int d / 2 powi (e + k - 53) = real_of_int m / 2 powi k * 2 ^ 53"
      by (simp add: x field_simps power_int_add power_int_diff)
    have "2 ^ 52 \<le> real_of_int n / real_of_int d / 2 powi (e + k - 53)"
      unfolding y using b(1) by (simp add: field_simps power_int_diff)
    moreover have "real_of_int n / real_of_int d / 2 powi (e + k - 53) < 2 ^ 53"
      unfolding y using b(2) by (simp add: field_simps)
    ultimately show ?thesis
      using round_exp_normal[OF assms(2,3) refl, of "e + k - 53"] k e by simp
  qed
  obtain a b where ab: "scaled n d e = (a, b)" by fastforce
  from scaled_real[OF assms(3) ab] have b: "0 < b" "real_of_int a = real_of_int (m * b)"
    by (auto simp: x field_simps)
  then have "half_even a b = m" by (intro half_even_exact) (simp_all only: of_int_eq_iff)
  then show ?thesis using assms(2) c by (simp add: round_ratio_def re ab Let_def)
qed

section \<open>Texts\<close>

lemma digit_of_int: "0 \<le> n \<Longrightarrow> n < 10 \<Longrightarrow> (of_char (char_of (48 + n)) :: int) = 48 + n"
  by (simp add: of_char_of take_bit_eq_mod)

lemma small_digit: "0 \<le> n \<Longrightarrow> n < 10 \<Longrightarrow> n \<in> {0, 1, 2, 3, 4, 5, 6, 7, 8, 9}" for n :: int
  by (simp only: insert_iff empty_iff) presburger

lemma digit_chars:
  "char_of (48 :: int) = CHR ''0''" "char_of (49 :: int) = CHR ''1''" "char_of (50 :: int) = CHR ''2''"
  "char_of (51 :: int) = CHR ''3''" "char_of (52 :: int) = CHR ''4''" "char_of (53 :: int) = CHR ''5''"
  "char_of (54 :: int) = CHR ''6''" "char_of (55 :: int) = CHR ''7''" "char_of (56 :: int) = CHR ''8''"
  "char_of (57 :: int) = CHR ''9''"
  by code_simp+

lemma is_digit_of_int: "0 \<le> n \<Longrightarrow> n < 10 \<Longrightarrow> is_digit (char_of (48 + n))" for n :: int
  by (drule (1) small_digit) (elim insertE emptyE; simp add: digit_chars is_digit_def)

lemma int_text_digits: "0 \<le> n \<Longrightarrow> list_all is_digit (int_text n) \<and> int_text n \<noteq> []"
proof (induction n rule: int_text.induct)
  case (1 n)
  then show ?case
    by (subst (1 2) int_text.simps) (auto simp: is_digit_of_int)
qed

lemma dec_val_snoc: "dec_val (s @ [c]) = 10 * dec_val s + (of_char c - 48)"
  by (simp add: dec_val_def)

lemma dec_val_int_text: "0 \<le> n \<Longrightarrow> dec_val (int_text n) = n"
proof (induction n rule: int_text.induct)
  case (1 n)
  then show ?case
    by (subst int_text.simps) (auto simp: dec_val_snoc digit_of_int dec_val_def[of "[_]"])
qed

lemma int_text_head: "0 < n \<Longrightarrow> hd (int_text n) \<noteq> CHR ''0''"
proof (induction n rule: int_text.induct)
  case (1 n)
  show ?case
  proof (cases "n < 10")
    case True
    then have "n \<in> {1, 2, 3, 4, 5, 6, 7, 8, 9}" using 1(2) by auto
    then show ?thesis by (elim insertE emptyE; simp add: int_text.simps digit_chars)
  next
    case False
    then have "hd (int_text (n div 10)) \<noteq> CHR ''0''" using 1 by simp
    moreover have "int_text (n div 10) \<noteq> []" using int_text_digits[of "n div 10"] 1(2) by simp
    ultimately show ?thesis using False by (simp add: int_text.simps[of n] hd_append)
  qed
qed

lemma dec_val_foldl: "foldl (\<lambda>v c. 10 * v + (of_char c - 48)) a s = a * 10 ^ length s + dec_val s" for a :: int
proof (induction s arbitrary: a)
  case (Cons c s)
  show ?case using Cons[of "10 * a + (of_char c - 48)"] Cons[of "10 * 0 + (of_char c - 48)"]
    by (simp add: dec_val_def algebra_simps)
qed (simp add: dec_val_def)

lemma dec_val_append: "dec_val (s @ t) = dec_val s * 10 ^ length t + dec_val t"
  by (simp add: dec_val_foldl[of "dec_val s" t, symmetric]) (simp add: dec_val_def)

lemma dec_val_zeros [simp]: "dec_val (replicate n (CHR ''0'')) = 0"
  by (induction n) (simp_all add: dec_val_def)

lemma is_digit_zero [simp]: "is_digit (CHR ''0'')" "\<not> is_digit (CHR ''.'')" "\<not> is_digit (CHR ''e'')" "\<not> is_digit (CHR ''-'')"
  by (simp_all add: is_digit_def)

lemma span_digits:
  "list_all is_digit s \<Longrightarrow> takeWhile is_digit s = s \<and> dropWhile is_digit s = []"
  "list_all is_digit s \<Longrightarrow> \<not> is_digit c \<Longrightarrow> takeWhile is_digit (s @ c # t) = s \<and> dropWhile is_digit (s @ c # t) = c # t"
  by (simp_all add: list_all_iff takeWhile_append2 dropWhile_append2 takeWhile_eq_all_conv dropWhile_eq_Nil_conv)

text \<open>The parts of a number without a sign.\<close>

lemma parse_plain:
  assumes "list_all is_digit i" "i \<noteq> []" "list_all is_digit f"
    and "r = [] \<or> (\<exists>t. r = CHR ''e'' # t)"
  shows "parse_decimal (i @ r) = (False, dec_val i, (case r of [] \<Rightarrow> 0 | _ # t \<Rightarrow> exponent_value t))"
    and "parse_decimal (i @ CHR ''.'' # f @ r) =
      (False, dec_val (i @ f), (case r of [] \<Rightarrow> 0 | _ # t \<Rightarrow> exponent_value t) - int (length f))"
proof -
  from assms(2) obtain c cs where i1: "i = c # cs" by (cases i) auto
  then have i: "i = c # cs" "c \<noteq> CHR ''-''" using assms(1) by auto
  have sp: "takeWhile is_digit (i @ r) = i" "dropWhile is_digit (i @ r) = r"
    using assms(4) span_digits[OF assms(1)] by auto
  show "parse_decimal (i @ r) = (False, dec_val i, (case r of [] \<Rightarrow> 0 | _ # t \<Rightarrow> exponent_value t))"
    using assms(4) sp i by (auto simp: parse_decimal_def Let_def)
  have sp2: "takeWhile is_digit (f @ r) = f" "dropWhile is_digit (f @ r) = r"
    using assms(4) span_digits[OF assms(3)] by auto
  have sp3: "takeWhile is_digit (i @ CHR ''.'' # f @ r) = i" "dropWhile is_digit (i @ CHR ''.'' # f @ r) = CHR ''.'' # f @ r"
    using span_digits(2)[OF assms(1), of "CHR ''.''"] by auto
  show "parse_decimal (i @ CHR ''.'' # f @ r) =
      (False, dec_val (i @ f), (case r of [] \<Rightarrow> 0 | _ # t \<Rightarrow> exponent_value t) - int (length f))"
    using sp3 sp2 i by (simp add: parse_decimal_def Let_def)
qed

lemma number_plain:
  assumes "list_all is_digit i" "i \<noteq> []" "hd i = CHR ''0'' \<longrightarrow> length i = 1"
    and "list_all is_digit f" and "r = [] \<or> exponent_ok r \<and> (\<exists>t. r = CHR ''e'' # t)"
  shows "is_number (i @ r)" and "f \<noteq> [] \<Longrightarrow> is_number (i @ CHR ''.'' # f @ r)"
proof -
  from assms(2) obtain c cs where i1: "i = c # cs" by (cases i) auto
  then have i: "i = c # cs" "c \<noteq> CHR ''-''" using assms(1) by auto
  have sp: "takeWhile is_digit (i @ r) = i" "dropWhile is_digit (i @ r) = r"
    using assms(5) span_digits[OF assms(1)] by auto
  have "fraction_ok r" using assms(5) by (auto simp: fraction_ok_def)
  moreover have "(case i @ r of c # q \<Rightarrow> if c = CHR ''-'' then q else i @ r | [] \<Rightarrow> []) = i @ r"
    using i by simp
  ultimately show "is_number (i @ r)" using assms(2,3) by (simp only: is_number_def Let_def sp) simp
  assume f: "f \<noteq> []"
  have sp2: "takeWhile is_digit (f @ r) = f" "dropWhile is_digit (f @ r) = r"
    using assms(5) span_digits[OF assms(4)] by auto
  have sp3: "takeWhile is_digit (i @ CHR ''.'' # f @ r) = i" "dropWhile is_digit (i @ CHR ''.'' # f @ r) = CHR ''.'' # f @ r"
    using span_digits(2)[OF assms(1), of "CHR ''.''"] by auto
  have "exponent_ok r" using assms(5) by (auto simp: exponent_ok_def[of "[]"])
  then show "is_number (i @ CHR ''.'' # f @ r)"
    using assms(2,3) sp3 sp2 i f by (simp add: is_number_def Let_def fraction_ok_def)
qed

lemma parse_fixed:
  assumes "0 < c"
  shows "is_number (fixed_text c k)"
    and "parse_decimal (fixed_text c k) = (False, if 0 \<le> k then (c * 10 ^ nat k, 0) else (c, k))"
proof -
  define ds where "ds = int_text c"
  have ds: "list_all is_digit ds" "ds \<noteq> []" "hd ds \<noteq> CHR ''0''" "dec_val ds = c"
    using int_text_digits[of c] int_text_head[OF assms] dec_val_int_text[of c] assms by (auto simp: ds_def)
  have "is_number (fixed_text c k) \<and>
    parse_decimal (fixed_text c k) = (False, if 0 \<le> k then (c * 10 ^ nat k, 0) else (c, k))"
  proof (cases "0 \<le> k")
    case True
    define i where "i = ds @ replicate (nat k) (CHR ''0'')"
    have i: "list_all is_digit i" "i \<noteq> []" "hd i \<noteq> CHR ''0''" "dec_val i = c * 10 ^ nat k"
      using ds by (auto simp: i_def list_all_iff dec_val_append hd_append)
    have t: "fixed_text c k = i @ []" using True by (simp add: fixed_text_def i_def ds_def Let_def)
    show ?thesis
      using number_plain(1)[of i "[]" "[]"] parse_plain(1)[of i "[]" "[]"] i True unfolding t by simp
  next
    case False
    define pad where "pad = replicate (nat (- k) + 1 - length ds) (CHR ''0'') @ ds"
    define i where "i = take (length pad - nat (- k)) pad"
    define f where "f = drop (length pad - nat (- k)) pad"
    have len: "nat (- k) < length pad" by (simp add: pad_def)
    have pd: "i @ f = pad" by (simp add: i_def f_def)
    have dig: "list_all is_digit pad" using ds(1) by (auto simp: pad_def list_all_iff)
    have dv: "dec_val pad = c" using ds(4) by (simp add: pad_def dec_val_append)
    have i: "list_all is_digit i" "i \<noteq> []" and f: "list_all is_digit f" "f \<noteq> []" "length f = nat (- k)"
      using dig len False pd by (auto simp: i_def f_def list_all_iff dest: in_set_takeD in_set_dropD)
    have h: "hd i = CHR ''0'' \<longrightarrow> length i = 1"
    proof (cases "nat (- k) < length ds")
      case True
      then have "pad = ds" by (simp add: pad_def)
      then have "hd i = hd ds" using i(2) by (metis hd_append pd)
      then show ?thesis using ds(3) by simp
    next
      case False
      then show ?thesis by (simp add: i_def pad_def)
    qed
    have t: "fixed_text c k = i @ CHR ''.'' # f @ []"
      using False by (simp add: fixed_text_def i_def f_def pad_def ds_def Let_def)
    show ?thesis
      using number_plain(2)[of i f "[]"] parse_plain(2)[of i f "[]"] i f h dv pd False unfolding t by simp
  qed
  then show "is_number (fixed_text c k)"
    "parse_decimal (fixed_text c k) = (False, if 0 \<le> k then (c * 10 ^ nat k, 0) else (c, k))" by simp_all
qed

lemma parse_exponent:
  assumes "0 < c"
  shows "is_number (exponent_text c k) \<and> parse_decimal (exponent_text c k) = (False, c, k)"
proof -
  define ds where "ds = int_text c"
  have ds: "list_all is_digit ds" "ds \<noteq> []" "hd ds \<noteq> CHR ''0''" "dec_val ds = c"
    using int_text_digits[of c] int_text_head[OF assms] dec_val_int_text[of c] assms by (auto simp: ds_def)
  then obtain d f where d: "ds = d # f" "is_digit d" "list_all is_digit f" "d \<noteq> CHR ''0''" by (cases ds) auto
  define x where "x = int (length f) + k"
  define r where "r = CHR ''e'' # (if x < 0 then CHR ''-'' else CHR ''+'') # int_text \<bar>x\<bar>"
  have xt: "list_all is_digit (int_text \<bar>x\<bar>)" "int_text \<bar>x\<bar> \<noteq> []" "dec_val (int_text \<bar>x\<bar>) = \<bar>x\<bar>"
    using int_text_digits[of "\<bar>x\<bar>"] dec_val_int_text[of "\<bar>x\<bar>"] by auto
  have r: "exponent_ok r" using xt by (auto simp: r_def exponent_ok_def digits1_def)
  have ex: "(case r of [] \<Rightarrow> 0 | _ # t \<Rightarrow> exponent_value t) = x" using xt(3) by (simp add: r_def exponent_value_def)
  have r': "r = [] \<or> exponent_ok r \<and> (\<exists>t. r = CHR ''e'' # t)" "r = [] \<or> (\<exists>t. r = CHR ''e'' # t)"
    using r by (auto simp: r_def)
  show ?thesis
  proof (cases "f = []")
    case True
    then have t: "exponent_text c k = [d] @ r" using d by (simp add: exponent_text_def ds_def[symmetric] r_def x_def Let_def)
    show ?thesis unfolding t
      using number_plain(1)[of "[d]" "[]" r] parse_plain(1)[of "[d]" "[]" r] d r' ex ds(4) True
      by (simp add: x_def)
  next
    case False
    then have t: "exponent_text c k = [d] @ CHR ''.'' # f @ r"
      using d by (simp add: exponent_text_def ds_def[symmetric] r_def x_def Let_def)
    show ?thesis unfolding t
      using number_plain(2)[of "[d]" f r] parse_plain(2)[of "[d]" f r] d r' ex ds(4) False
      by (simp add: x_def)
  qed
qed

section \<open>Reading what was written\<close>

lemma strip_zeros_pos: "0 < c \<Longrightarrow> 0 < fst (strip_zeros c k)"
  by (induction c k rule: strip_zeros.induct) (subst strip_zeros.simps, auto)

lemma of_decimal_zero [simp]: "of_decimal s 0 k = Finite s 0 (- 1074)"
  by (simp add: of_decimal_def decimal_ratio_def round_ratio_def)

lemma round_ratio_sign:
  "round_ratio False n d = Finite False m e \<Longrightarrow> round_ratio s n d = Finite s m e"
  by (auto simp: round_ratio_def Let_def split: if_splits prod.splits)

lemma neighbours_nonneg:
  assumes "0 \<le> n" "0 < d" "(c, k') \<in> set (neighbours n d k)"
  shows "0 \<le> c"
proof -
  obtain a b where ab: "scaled10 n d k = (a, b)" by fastforce
  then have "0 \<le> a" "0 < b" using assms(1,2) by (auto simp: scaled10_def split: if_splits)
  then have q: "0 \<le> a div b" by (simp add: pos_imp_zdiv_nonneg_iff)
  have s: "0 \<le> fst (strip_zeros c0 k)" if "0 \<le> c0" for c0
    using that strip_zeros_pos[of c0 k] by (cases "c0 = 0") (auto simp: strip_zeros.simps[of 0])
  from assms(3) have "\<exists>c0 \<in> {a div b, a div b + 1}. (c, k') = strip_zeros c0 k"
    by (auto simp: neighbours_def ab Let_def split: if_splits)
  then obtain c0 where c0: "c0 \<in> {a div b, a div b + 1}" "(c, k') = strip_zeros c0 k" by blast
  then have "0 \<le> c0" using q by auto
  then show ?thesis using s[of c0] c0(2) by (metis fst_conv)
qed

lemma shortest_from_sound:
  assumes "0 \<le> n" "0 < d" "shortest_from m e n d x ps = Some (c, k)"
  shows "0 \<le> c \<and> of_decimal False c k = Finite False m e"
  using assms(3)
proof (induction ps)
  case (Cons p ps)
  show ?case
  proof (cases "find (\<lambda>(c, k). of_decimal False c k = Finite False m e) (neighbours n d (x + 1 - p))")
    case None
    with Cons show ?thesis by simp
  next
    case (Some ck)
    with Cons(2) have "find (\<lambda>(c, k). of_decimal False c k = Finite False m e) (neighbours n d (x + 1 - p)) = Some (c, k)"
      by simp
    then have "(c, k) \<in> set (neighbours n d (x + 1 - p))" "of_decimal False c k = Finite False m e"
      by (auto simp: find_Some_iff in_set_conv_nth)
    then show ?thesis using neighbours_nonneg[OF assms(1,2)] by blast
  qed
qed simp

lemma shortest_sound:
  assumes "canonical m e" and "m \<noteq> 0"
  shows "0 < fst (shortest m e) \<and> (case shortest m e of (c, k) \<Rightarrow> of_decimal False c k = Finite False m e)"
proof -
  have mp: "0 < m" using assms by (auto simp: canonical_def)
  obtain n d where nd: "ratio_of m e = (n, d)" by fastforce
  have nd': "0 < n" "0 < d" using nd mp by (auto simp: ratio_of_def split: if_splits)
  show ?thesis
  proof (cases "shortest_from m e n d (lead10 n d) [1, 2, 3, 4, 5, 6, 7, 8, 9, 10, 11, 12, 13, 14, 15, 16, 17]")
    case None
    then have sh: "shortest m e = exact_decimal m e" by (simp add: shortest_def nd)
    have "round_ratio False (fst (decimal_ratio (fst (exact_decimal m e)) (snd (exact_decimal m e))))
        (snd (decimal_ratio (fst (exact_decimal m e)) (snd (exact_decimal m e)))) = Finite False m e"
    proof (rule round_exact[OF assms(1)])
      have "(10::real) ^ n = 2 ^ n * 5 ^ n" for n by (simp flip: power_mult_distrib)
      then show "real_of_int (fst (decimal_ratio (fst (exact_decimal m e)) (snd (exact_decimal m e)))) /
          real_of_int (snd (decimal_ratio (fst (exact_decimal m e)) (snd (exact_decimal m e)))) =
          real_of_int m * 2 powi e"
        by (simp add: exact_decimal_def decimal_ratio_def powi_nat field_simps)
    qed (use mp in \<open>auto simp: exact_decimal_def decimal_ratio_def\<close>)
    then show ?thesis using mp by (auto simp: sh of_decimal_def exact_decimal_def split: prod.split)
  next
    case (Some ck)
    obtain c k where ck: "ck = (c, k)" by fastforce
    from shortest_from_sound[of n d, OF _ nd'(2) Some[unfolded ck]] nd'(1)
    have s: "0 \<le> c" "of_decimal False c k = Finite False m e" by auto
    then have "c \<noteq> 0" using assms(2) by auto
    with s Some ck show ?thesis by (simp add: shortest_def nd)
  qed
qed

lemma of_decimal_fixed: "of_decimal s (c * 10 ^ nat k) 0 = of_decimal s c k" if "0 \<le> k"
  using that by (simp add: of_decimal_def decimal_ratio_def)

lemma parse_decimal_neg:
  assumes "parse_decimal t = (False, c, k)" and "is_number t"
  shows "parse_decimal (CHR ''-'' # t) = (True, c, k)" and "is_number (CHR ''-'' # t)"
proof -
  have h: "t \<noteq> []" using number_chars(2)[OF assms(2)] by auto
  have "hd t \<noteq> CHR ''-''"
  proof
    assume "hd t = CHR ''-''"
    with h obtain r where "t = CHR ''-'' # r" by (cases t) auto
    with assms(1) show False by (auto simp: parse_decimal_def Let_def split: prod.splits)
  qed
  with h obtain c0 r where t: "t = c0 # r" "c0 \<noteq> CHR ''-''" by (cases t) auto
  show "parse_decimal (CHR ''-'' # t) = (True, c, k)"
    using assms(1) t by (auto simp: parse_decimal_def Let_def split: prod.splits)
  show "is_number (CHR ''-'' # t)" using assms(2) t by (auto simp: is_number_def Let_def)
qed

lemma of_decimal_sign: "of_decimal False c k = Finite False m e \<Longrightarrow> of_decimal s c k = Finite s m e"
  by (auto simp: of_decimal_def dest: round_ratio_sign split: prod.splits)

theorem parse_show_f64:
  assumes "finite64 v"
  shows "\<exists>t. show_f64 v = Some t \<and> is_number t \<and> parse_f64 t = Some v"
proof -
  from assms obtain s m e where v: "v = Finite s m e" "canonical m e" by (cases v) auto
  have main: "\<exists>t. show_f64 v = Some (if s then CHR ''-'' # t else t) \<and> is_number t \<and>
      (\<exists>c k. parse_decimal t = (False, c, k) \<and> of_decimal False c k = Finite False m e)"
  proof (cases "m = 0")
    case True
    then have e: "e = - 1074" using v(2) by (auto simp: canonical_def)
    have "is_number ''0''" "parse_decimal ''0'' = (False, 0, 0)" by code_simp+
    then show ?thesis using True e by (auto simp: v(1) show_f64_def)
  next
    case False
    obtain c k where ck: "shortest m e = (c, k)" by fastforce
    then have s: "0 < c" "of_decimal False c k = Finite False m e" using shortest_sound[OF v(2) False] by auto
    show ?thesis
      using False parse_fixed[OF s(1), of k] parse_exponent[OF s(1), of k] s(2) of_decimal_fixed[of k False c]
      by (cases "0 \<le> k") (auto simp: v(1) show_f64_def ck)
  qed
  then obtain t c k where t: "show_f64 v = Some (if s then CHR ''-'' # t else t)" "is_number t"
    "parse_decimal t = (False, c, k)" "of_decimal False c k = Finite False m e" by blast
  show ?thesis
  proof (cases s)
    case True
    with t parse_decimal_neg[OF t(3,2)] of_decimal_sign[OF t(4), of True] show ?thesis
      by (simp add: parse_f64_def v(1))
  next
    case False
    with t show ?thesis by (simp add: parse_f64_def v(1))
  qed
qed

section \<open>What reading yields\<close>

lemma binade:
  assumes "0 < n" and "0 < d" and x: "x = real_of_int n / real_of_int d"
  obtains e where "2 ^ 52 \<le> x / 2 powi e" and "x / 2 powi e < 2 ^ 53"
proof -
  define e0 where "e0 = bit_len n - bit_len d - 53"
  have n1: "2 powi (bit_len n - 1) \<le> real_of_int n" "real_of_int n < 2 powi (bit_len n)"
    and d1: "2 powi (bit_len d - 1) \<le> real_of_int d" "real_of_int d < 2 powi (bit_len d)"
    using bit_len_real assms(1,2) by auto
  have dp: "0 < real_of_int d" using assms(2) by simp
  have "2 powi (e0 + 52) * real_of_int d \<le> 2 powi (e0 + 52) * 2 powi (bit_len d)" using d1(2) by simp
  also have "\<dots> = 2 powi (bit_len n - 1)" by (simp add: power_int_add[symmetric] e0_def)
  also note n1(1)
  finally have lo: "2 powi (e0 + 52) \<le> x" using dp by (simp add: x field_simps)
  have "real_of_int n < 2 powi (e0 + 54) * 2 powi (bit_len d - 1)"
    using n1(2) by (simp add: power_int_add[symmetric] e0_def)
  also have "\<dots> \<le> 2 powi (e0 + 54) * real_of_int d" using d1(1) by simp
  finally have hi: "x < 2 powi (e0 + 54)" using dp by (simp add: x field_simps)
  show thesis
  proof (cases "x < 2 powi (e0 + 53)")
    case True
    then show thesis using lo by (intro that[of e0]) (simp_all add: field_simps power_int_add)
  next
    case False
    then show thesis using hi by (intro that[of "e0 + 1"]) (simp_all add: field_simps power_int_add)
  qed
qed

lemma half_even_near: "half_even a b \<in> {a div b, a div b + 1}"
  by (simp add: half_even_def Let_def)

lemma round_canonical:
  assumes "0 \<le> n" and "0 < d" and "round_ratio s n d = Finite s' m e"
  shows "canonical m e"
proof (cases "n = 0")
  case True
  with assms(3) show ?thesis by (auto simp: round_ratio_def canonical_def)
next
  case False
  with assms(1) have n: "0 < n" by simp
  define x where "x = real_of_int n / real_of_int d"
  obtain e1 where e1: "2 ^ 52 \<le> x / 2 powi e1" "x / 2 powi e1 < 2 ^ 53"
    using binade[OF n assms(2) x_def] by blast
  define e2 where "e2 = max e1 (- 1074)"
  have g: "- 1074 \<le> e2" by (simp add: e2_def)
  have re: "round_exp n d = e2" using round_exp_normal[OF n assms(2) x_def e1] by (simp add: e2_def)
  have xp: "0 < x" using n assms(2) by (simp add: x_def)
  have hi: "x / 2 powi e2 < 2 ^ 53"
  proof -
    have "(2::real) powi e1 \<le> 2 powi e2" by (simp add: e2_def power_int_increasing)
    then have "x / 2 powi e2 \<le> x / 2 powi e1" using xp by (simp add: frac_le)
    with e1(2) show ?thesis by simp
  qed
  have lo: "2 ^ 52 \<le> x / 2 powi e2 \<or> e2 = - 1074" using e1(1) by (auto simp: e2_def)
  obtain a b where ab: "scaled n d e2 = (a, b)" by fastforce
  note sr = scaled_real[OF assms(2) ab, folded x_def]
  have f: "a div b = \<lfloor>x / 2 powi e2\<rfloor>" using sr(2) by (metis floor_divide_of_int_eq)
  have q: "0 \<le> a div b" "a div b < 2 ^ 53" "2 ^ 52 \<le> a div b \<or> e2 = - 1074"
    using hi lo xp by (auto simp: f floor_less_iff le_floor_iff)
  then have m: "0 \<le> half_even a b" "half_even a b \<le> 2 ^ 53" "2 ^ 52 \<le> half_even a b \<or> e2 = - 1074"
    using half_even_near[of a b] by auto
  show ?thesis
    using assms(3) False m g
    by (auto simp: round_ratio_def re ab Let_def canonical_def split: if_splits)
qed

lemma dec_val_nonneg: "list_all is_digit s \<Longrightarrow> 0 \<le> dec_val s"
proof (induction s rule: rev_induct)
  case (snoc c s)
  have "48 \<le> (of_char c :: nat)" using snoc(2) by (simp add: is_digit_def Let_def)
  moreover have "(of_char c :: int) = int (of_char c)" by (rule of_nat_of_char[symmetric])
  ultimately have "48 \<le> (of_char c :: int)" by linarith
  with snoc show ?case by (simp add: dec_val_snoc)
qed (simp add: dec_val_def)

lemma parse_decimal_nonneg: "parse_decimal t = (s, c, k) \<Longrightarrow> 0 \<le> c"
  by (auto simp: parse_decimal_def Let_def takeWhile_digits intro!: dec_val_nonneg split: prod.splits list.splits if_splits)

theorem parse_f64_finite:
  assumes "parse_f64 t = Some v"
  shows "finite64 v"
proof -
  obtain s c k where p: "parse_decimal t = (s, c, k)" by (cases "parse_decimal t") auto
  from assms p obtain s' m e where v: "v = Finite s' m e" "of_decimal s c k = Finite s' m e"
    by (cases "of_decimal s c k") (auto simp: parse_f64_def)
  obtain n d where nd: "decimal_ratio c k = (n, d)" by fastforce
  then have "0 \<le> n" "0 < d" using parse_decimal_nonneg[OF p] by (auto simp: decimal_ratio_def split: if_splits)
  then show ?thesis using v nd round_canonical[of n d s s' m e] by (simp add: of_decimal_def)
qed

section \<open>The order of finite values\<close>

fun real64 :: "float64 \<Rightarrow> real" where
  "real64 (Finite s m e) = (if s then - 1 else 1) * real_of_int m * 2 powi e"
| "real64 _ = 0"

lemma mag_less_real:
  assumes "canonical m e" and "canonical m' e'"
  shows "mag_less m e m' e' \<longleftrightarrow> real_of_int m * 2 powi e < real_of_int m' * 2 powi e'"
proof -
  have step: "real_of_int a * 2 powi i < real_of_int b * 2 powi j"
    if "canonical a i" "canonical b j" "i < j" for a b i j
  proof -
    have b: "2 ^ 52 \<le> b" and a: "a < 2 ^ 53" using that by (auto simp: canonical_def)
    then have "real_of_int a < 2 ^ 53" "2 ^ 52 \<le> real_of_int b" by simp_all
    then have "real_of_int a * 2 powi i < 2 powi (i + 53)" "2 powi (j + 52) \<le> real_of_int b * 2 powi j"
      by (simp_all add: power_int_add)
    moreover have "(2::real) powi (i + 53) \<le> 2 powi (j + 52)" using that(3) by (simp add: power_int_increasing)
    ultimately show ?thesis by linarith
  qed
  show ?thesis
    using step[OF assms] step[OF assms(2,1)] by (cases e e' rule: linorder_cases) (auto simp: mag_less_def)
qed

lemma f64_lt_real:
  assumes "finite64 a" and "finite64 b"
  shows "f64_lt a b \<longleftrightarrow> real64 a < real64 b"
proof -
  obtain s m e where a: "a = Finite s m e" "canonical m e" using assms(1) by (cases a) auto
  obtain s' m' e' where b: "b = Finite s' m' e'" "canonical m' e'" using assms(2) by (cases b) auto
  have p: "0 \<le> real_of_int m * 2 powi e" "0 \<le> real_of_int m' * 2 powi e'"
    "real_of_int m * 2 powi e = 0 \<longleftrightarrow> m = 0" "real_of_int m' * 2 powi e' = 0 \<longleftrightarrow> m' = 0"
    using a(2) b(2) by (auto simp: canonical_def)
  define x y where "x = real_of_int m * 2 powi e" and "y = real_of_int m' * 2 powi e'"
  show ?thesis
    using mag_less_real[OF a(2) b(2)] mag_less_real[OF b(2) a(2)] p
    unfolding a(1) b(1) real64.simps f64_lt.simps mult.assoc x_def[symmetric] y_def[symmetric]
    by (cases s; cases s') auto
qed

lemma f64_le_real: "finite64 a \<Longrightarrow> finite64 b \<Longrightarrow> f64_le a b \<longleftrightarrow> real64 a \<le> real64 b"
  by (auto simp: f64_le_def f64_lt_real)

lemma go_min_real:
  assumes "finite64 a" and "finite64 b"
  shows "finite64 (go_min a b)" and "real64 (go_min a b) = min (real64 a) (real64 b)"
  using assms f64_lt_real[OF assms] by (cases a; cases b; auto simp: go_min_def)+

lemma go_max_real:
  assumes "finite64 a" and "finite64 b"
  shows "finite64 (go_max a b)" and "real64 (go_max a b) = max (real64 a) (real64 b)"
  using assms f64_lt_real[OF assms(2,1)] by (cases a; cases b; auto simp: go_max_def)+

end
