(* ===== verification/Json_Struct.thy ===== *)
theory Json_Struct
  imports Float64 Go_Net
begin

text \<open>
  \<open>encoding/json\<close> on structs: a struct is a list of named fields, each a decoder for its
  place in the record; \<open>Unmarshal\<close> runs over the members of the object, \<open>Marshal\<close> writes the
  fields in order.  The locale \<open>codec\<close> is the contract of a decoder and an encoder of one
  type: what is written is read back, and what is read has the type's invariant.
\<close>

section \<open>Decoders\<close>

type_synonym 'a decoder = "json \<Rightarrow> 'a \<Rightarrow> 'a option"

text \<open>A decoder gets the place's current value: \<open>null\<close> leaves it, and a repeated key decodes
  into what the earlier one left.\<close>

fun dec_string :: "string decoder" where
  "dec_string (JStr t) s = Some t"
| "dec_string JNull s = Some s"
| "dec_string _ s = None"

fun dec_bool :: "bool decoder" where
  "dec_bool (JBool t) s = Some t"
| "dec_bool JNull s = Some s"
| "dec_bool _ s = None"

fun dec_f64 :: "float64 decoder" where
  "dec_f64 (JNum t) x = parse_f64 t"
| "dec_f64 JNull x = Some x"
| "dec_f64 _ x = None"

text \<open>\<open>strconv.ParseInt\<close>: an integer literal in the range of the type.\<close>

definition parse_int :: "int \<Rightarrow> int \<Rightarrow> string \<Rightarrow> int option" where
  "parse_int lo hi t =
     (let (neg, b) = (case t of c # r \<Rightarrow> if c = CHR ''-'' then (True, r) else (False, t) | [] \<Rightarrow> (False, []));
          i = (if neg then - dec_val b else dec_val b)
      in if digits1 b \<and> lo \<le> i \<and> i \<le> hi then Some i else None)"

fun dec_int :: "int \<Rightarrow> int \<Rightarrow> int decoder" where
  "dec_int lo hi (JNum t) x = parse_int lo hi t"
| "dec_int lo hi JNull x = Some x"
| "dec_int lo hi _ x = None"

definition int64_min :: int where "int64_min = - (2 ^ 63)"
definition int64_max :: int where "int64_max = 2 ^ 63 - 1"
definition int32_min :: int where "int32_min = - (2 ^ 31)"
definition int32_max :: int where "int32_max = 2 ^ 31 - 1"

text \<open>A pointer: \<open>null\<close> is nil, and another value is decoded into what it points to or into a
  new zero value.\<close>

definition dec_ptr :: "'a decoder \<Rightarrow> 'a \<Rightarrow> 'a option decoder" where
  "dec_ptr d zero v p =
     (case v of JNull \<Rightarrow> Some None | _ \<Rightarrow> map_option Some (d v (case p of Some x \<Rightarrow> x | None \<Rightarrow> zero)))"

text \<open>A slice: elements are decoded over those the slice had, then into zero values.\<close>

fun dec_elems :: "'a decoder \<Rightarrow> 'a \<Rightarrow> json list \<Rightarrow> 'a list \<Rightarrow> 'a list option" where
  "dec_elems d zero [] ys = Some []"
| "dec_elems d zero (v # vs) ys =
     (case d v (case ys of y # _ \<Rightarrow> y | [] \<Rightarrow> zero) of
        None \<Rightarrow> None
      | Some x \<Rightarrow> map_option ((#) x) (dec_elems d zero vs (tl ys)))"

definition dec_slice :: "'a decoder \<Rightarrow> 'a \<Rightarrow> 'a list decoder" where
  "dec_slice d zero v ys =
     (case v of JArr vs \<Rightarrow> dec_elems d zero vs ys | JNull \<Rightarrow> Some [] | _ \<Rightarrow> None)"

type_synonym 'r struct = "(string \<times> 'r decoder) list"

text \<open>A field: its name, its selector and update, its decoder.\<close>

definition fld :: "string \<Rightarrow> ('r \<Rightarrow> 'a) \<Rightarrow> (('a \<Rightarrow> 'a) \<Rightarrow> 'r \<Rightarrow> 'r) \<Rightarrow> 'a decoder \<Rightarrow> string \<times> 'r decoder" where
  "fld n get upd d = (n, \<lambda>v r. map_option (\<lambda>x. upd (\<lambda>_. x) r) (d v (get r)))"

text \<open>A key finds the field of that very name, or else one that matches up to case.\<close>

definition find_field :: "'r struct \<Rightarrow> string \<Rightarrow> 'r decoder option" where
  "find_field fs k =
     (case map_of fs k of Some d \<Rightarrow> Some d
      | None \<Rightarrow> map_option snd (find (\<lambda>(n, d). equal_fold k n) fs))"

fun dec_members :: "'r struct \<Rightarrow> (string \<times> json) list \<Rightarrow> 'r \<Rightarrow> 'r option" where
  "dec_members fs [] r = Some r"
| "dec_members fs ((k, v) # ms) r =
     (case find_field fs k of
        None \<Rightarrow> dec_members fs ms r
      | Some d \<Rightarrow> (case d v r of None \<Rightarrow> None | Some r' \<Rightarrow> dec_members fs ms r'))"

definition dec_struct :: "'r struct \<Rightarrow> 'r decoder" where
  "dec_struct fs v r = (case v of JObj ms \<Rightarrow> dec_members fs ms r | JNull \<Rightarrow> Some r | _ \<Rightarrow> None)"

section \<open>Encoders\<close>

text \<open>\<open>Marshal\<close> fails on a \<open>NaN\<close> or an infinity anywhere in the value.\<close>

type_synonym 'a encoder = "'a \<Rightarrow> json option"

definition enc_f64 :: "float64 encoder" where
  "enc_f64 v = map_option JNum (show_f64 v)"

definition enc_int :: "int encoder" where
  "enc_int i = Some (JNum (if i < 0 then CHR ''-'' # int_text (- i) else int_text i))"

definition enc_string :: "string encoder" where "enc_string s = Some (JStr s)"
definition enc_bool :: "bool encoder" where "enc_bool b = Some (JBool b)"

definition enc_list :: "'a encoder \<Rightarrow> 'a list encoder" where
  "enc_list e xs = map_option JArr (those (map e xs))"

text \<open>A nil slice is written as \<open>null\<close>.\<close>

definition enc_slice :: "'a encoder \<Rightarrow> 'a list encoder" where
  "enc_slice e xs = (if xs = [] then Some JNull else enc_list e xs)"

type_synonym member = "string \<times> json option"

definition enc_obj :: "member list \<Rightarrow> json option" where
  "enc_obj ms = map_option JObj (those (map (\<lambda>(k, v). map_option (Pair k) v) ms))"

text \<open>\<open>omitempty\<close>.\<close>

definition omit :: "bool \<Rightarrow> member \<Rightarrow> member list" where
  "omit left_out m = (if left_out then [] else [m])"

definition opt_member :: "string \<Rightarrow> 'a encoder \<Rightarrow> 'a option \<Rightarrow> member list" where
  "opt_member k e p = (case p of None \<Rightarrow> [] | Some x \<Rightarrow> [(k, e x)])"

definition marshal :: "'a encoder \<Rightarrow> 'a \<Rightarrow> string option" where
  "marshal e x = map_option print_json (e x)"

definition unmarshal :: "'a decoder \<Rightarrow> 'a \<Rightarrow> string \<Rightarrow> 'a option" where
  "unmarshal d zero t = (case parse_json t of None \<Rightarrow> None | Some v \<Rightarrow> d v zero)"

section \<open>The contract of a type\<close>

locale typed_decoder =
  fixes dec :: "json \<Rightarrow> 'a \<Rightarrow> 'a option" and zero :: 'a and ok :: "'a \<Rightarrow> bool"
  assumes zero_ok: "ok zero"
    and read_ok: "dec v x = Some y \<Longrightarrow> ok x \<Longrightarrow> ok y"
begin

lemma unmarshal_ok: "unmarshal dec zero t = Some x \<Longrightarrow> ok x"
  using read_ok zero_ok by (auto simp: unmarshal_def split: option.splits)

lemma elems_ok: "dec_elems dec zero vs ys = Some xs \<Longrightarrow> list_all ok ys \<Longrightarrow> list_all ok xs"
proof (induction vs arbitrary: ys xs)
  case (Cons v vs)
  from Cons(2) obtain x xs' where s: "dec v (case ys of y # _ \<Rightarrow> y | [] \<Rightarrow> zero) = Some x"
    "dec_elems dec zero vs (tl ys) = Some xs'" "xs = x # xs'"
    by (auto split: option.splits)
  have "ok (case ys of y # _ \<Rightarrow> y | [] \<Rightarrow> zero)" using Cons(3) zero_ok by (auto split: list.split)
  moreover have "list_all ok (tl ys)" using Cons(3) by (cases ys) auto
  ultimately show ?case using Cons(1)[OF s(2)] read_ok[OF s(1)] s(3) by simp
qed simp

lemma slice_ok: "dec_slice dec zero v ys = Some xs \<Longrightarrow> list_all ok ys \<Longrightarrow> list_all ok xs"
  by (auto simp: dec_slice_def elems_ok split: json.splits)

lemma ptr_ok: "dec_ptr dec zero v p = Some q \<Longrightarrow> pred_option ok p \<Longrightarrow> pred_option ok q"
  using zero_ok by (auto simp: dec_ptr_def dest!: read_ok split: json.splits option.splits)

end

locale codec = typed_decoder +
  fixes enc :: "'a \<Rightarrow> json option"
  assumes read_written: "ok x \<Longrightarrow> \<exists>j. enc x = Some j \<and> wf_json j \<and> j \<noteq> JNull \<and> dec j zero = Some x"
begin

lemma payload:
  assumes "ok x"
  shows "\<exists>t. marshal enc x = Some t \<and> unmarshal dec zero t = Some x"
proof -
  from read_written[OF assms] obtain j where "enc x = Some j" "wf_json j" "dec j zero = Some x" by blast
  then show ?thesis by (simp add: marshal_def unmarshal_def parse_print_json)
qed

lemma elems_written:
  "list_all ok xs \<Longrightarrow> \<exists>js. those (map enc xs) = Some js \<and> wf_elems js \<and> dec_elems dec zero js [] = Some xs"
proof (induction xs)
  case (Cons x xs)
  then obtain js where js: "those (map enc xs) = Some js" "wf_elems js" "dec_elems dec zero js [] = Some xs" by auto
  from Cons(2) read_written[of x] obtain j where "enc x = Some j" "wf_json j" "dec j zero = Some x" by auto
  with js show ?case by (intro exI[of _ "j # js"]) simp
qed simp

lemma list_written:
  "list_all ok xs \<Longrightarrow> \<exists>j. enc_list enc xs = Some j \<and> wf_json j \<and> j \<noteq> JNull \<and> dec_slice dec zero j [] = Some xs"
  using elems_written[of xs] by (auto simp: enc_list_def dec_slice_def)

lemma ptr_written:
  assumes "ok x"
  shows "\<exists>j. enc x = Some j \<and> wf_json j \<and> j \<noteq> JNull \<and> dec_ptr dec zero j None = Some (Some x)"
proof -
  from read_written[OF assms] obtain j where j: "enc x = Some j" "wf_json j" "j \<noteq> JNull" "dec j zero = Some x" by blast
  then have "dec_ptr dec zero j None = Some (Some x)" by (cases j) (simp_all add: dec_ptr_def)
  with j show ?thesis by blast
qed

text \<open>Slices of a type with the contract have it themselves.\<close>

lemma slice_codec: "codec (dec_slice dec zero) [] (list_all ok) (enc_list enc)"
  using slice_ok list_written by unfold_locales auto

end

section \<open>Basic types\<close>

interpretation string_codec: codec dec_string "[]" "\<lambda>_. True" enc_string
  by unfold_locales (auto simp: enc_string_def)

interpretation bool_codec: codec dec_bool False "\<lambda>_. True" enc_bool
  by unfold_locales (auto simp: enc_bool_def)

lemma dec_f64_ok: "dec_f64 v x = Some y \<Longrightarrow> finite64 x \<Longrightarrow> finite64 y"
  by (cases v) (auto dest: parse_f64_finite)

lemma zero_finite [simp]: "finite64 f64_zero"
  by (simp add: f64_zero_def canonical_def)

interpretation f64_codec: codec dec_f64 f64_zero finite64 enc_f64
proof unfold_locales
  show "\<exists>j. enc_f64 x = Some j \<and> wf_json j \<and> j \<noteq> JNull \<and> dec_f64 j f64_zero = Some x" if "finite64 x" for x
    using parse_show_f64[OF that] by (auto simp: enc_f64_def)
qed (auto dest: dec_f64_ok)

lemma dec_int_ok: "dec_int lo hi v x = Some y \<Longrightarrow> lo \<le> x \<and> x \<le> hi \<Longrightarrow> lo \<le> y \<and> y \<le> hi"
  by (cases v) (auto simp: parse_int_def Let_def split: if_splits prod.splits)

lemma parse_int_text:
  assumes "lo \<le> i" and "i \<le> hi"
  shows "is_number (if i < 0 then CHR ''-'' # int_text (- i) else int_text i) \<and>
    parse_int lo hi (if i < 0 then CHR ''-'' # int_text (- i) else int_text i) = Some i"
proof -
  define n where "n = \<bar>i\<bar>"
  have d: "list_all is_digit (int_text n)" "int_text n \<noteq> []" "dec_val (int_text n) = n"
    using int_text_digits[of n] dec_val_int_text[of n] by (auto simp: n_def)
  then obtain c r where cr1: "int_text n = c # r" by (cases "int_text n") auto
  then have cr: "int_text n = c # r" "c \<noteq> CHR ''-''" using d(1) by auto
  have "hd (int_text n) = CHR ''0'' \<longrightarrow> length (int_text n) = 1"
    using int_text_head[of n] by (cases "n = 0") (auto simp: n_def int_text.simps[of 0])
  then have num: "is_number (int_text n)" using number_plain(1)[of "int_text n" "[]" "[]"] d by simp
  obtain s c' k where p: "parse_decimal (int_text n) = (s, c', k)" by (cases "parse_decimal (int_text n)") auto
  have "is_number (CHR ''-'' # int_text n)"
    using num cr by (auto simp: is_number_def Let_def)
  then show ?thesis
    using num d cr assms by (cases "i < 0") (auto simp: n_def parse_int_def digits1_def)
qed

lemma int_codec:
  assumes "lo \<le> 0" and "0 \<le> hi"
  shows "codec (dec_int lo hi) 0 (\<lambda>i. lo \<le> i \<and> i \<le> hi) enc_int"
proof unfold_locales
  show "\<exists>j. enc_int x = Some j \<and> wf_json j \<and> j \<noteq> JNull \<and> dec_int lo hi j 0 = Some x" if "lo \<le> x \<and> x \<le> hi" for x
    using parse_int_text[of lo x hi] that by (auto simp: enc_int_def)
qed (use assms in \<open>auto dest: dec_int_ok\<close>)

interpretation int64_codec: codec "dec_int int64_min int64_max" 0 "\<lambda>i. int64_min \<le> i \<and> i \<le> int64_max" enc_int
  by (rule int_codec) (simp_all add: int64_min_def int64_max_def)

interpretation int32_codec: codec "dec_int int32_min int32_max" 0 "\<lambda>i. int32_min \<le> i \<and> i \<le> int32_max" enc_int
  by (rule int_codec) (simp_all add: int32_min_def int32_max_def)

section \<open>Structs\<close>

lemma find_field_in: "find_field fs k = Some d \<Longrightarrow> \<exists>n. (n, d) \<in> set fs"
  by (auto simp: find_field_def find_Some_iff dest!: map_of_SomeD split: option.splits)
    (metis nth_mem surj_pair)

lemma members_ok:
  assumes "\<And>n d v r r'. (n, d) \<in> set fs \<Longrightarrow> d v r = Some r' \<Longrightarrow> ok r \<Longrightarrow> ok r'"
  shows "dec_members fs ms r = Some r' \<Longrightarrow> ok r \<Longrightarrow> ok r'"
proof (induction ms arbitrary: r)
  case (Cons m ms)
  obtain k v where m: "m = (k, v)" by fastforce
  show ?case
  proof (cases "find_field fs k")
    case (Some d)
    with find_field_in obtain n where "(n, d) \<in> set fs" by blast
    with Cons Some assms show ?thesis by (auto simp: m split: option.splits)
  qed (use Cons m in simp)
qed simp

lemma struct_ok:
  assumes "\<And>n d v r r'. (n, d) \<in> set fs \<Longrightarrow> d v r = Some r' \<Longrightarrow> ok r \<Longrightarrow> ok r'"
    and "dec_struct fs v r = Some r'" and "ok r"
  shows "ok r'"
  using assms(2,3) members_ok[of fs ok, OF assms(1)] by (auto simp: dec_struct_def split: json.splits)

lemma dec_struct_obj: "dec_struct fs (JObj ms) r = dec_members fs ms r"
  by (simp add: dec_struct_def)

lemma find_field_named: "map_of fs k = Some d \<Longrightarrow> find_field fs k = Some d"
  by (simp add: find_field_def)

lemma enc_obj_simps [simp]:
  "enc_obj [] = Some (JObj [])"
  "enc_obj ((k, Some v) # ms) = map_option (\<lambda>j. case j of JObj l \<Rightarrow> JObj ((k, v) # l) | _ \<Rightarrow> j) (enc_obj ms)"
  "enc_obj ((k, None) # ms) = None"
  by (auto simp: enc_obj_def option.map_comp comp_def split: option.split)

lemma omit_simps [simp]: "omit True m = []" "omit False m = [m]"
  by (simp_all add: omit_def)

end
