(* ===== verification/Route_Requests.thy ===== *)
theory Route_Requests
  imports Json_Struct Request_Bodies
begin

text \<open>
  The request types of \<open>internal/handlers/route.go\<close> and \<open>reroute.go\<close> with their JSON form,
  the checks of a reroute request, and the queries the workers send to the router.  Go's
  embedding of \<open>RouteRequest\<close> is record extension.  The query types are those of the router
  client, with the fields the source sets; sine, cosine, arc sine and square root of package
  \<open>math\<close> are an argument.
\<close>

section \<open>Requests\<close>

text \<open>The coordinate type of the gRPC clients, the same in each.\<close>

record Coordinate =
  co_Latitude :: float64
  co_Longitude :: float64


record RouteCoord =
  rc_Lat :: float64
  rc_Lon :: float64

record RouteWaypoint =
  rw_Lat :: float64
  rw_Lon :: float64
  rw_Type :: string

record RouteOptions =
  ro_AvoidTollRoads :: bool
  ro_AvoidHighways :: bool
  ro_AvoidFerries :: bool
  ro_ScenicPreference :: float64
  ro_HighwayAvoidance :: float64
  ro_TollAvoidance :: float64
  ro_UnpavedHandling :: string

record RouteRequest =
  rq_From :: RouteCoord
  rq_To :: RouteCoord
  rq_Waypoints :: "RouteWaypoint list"
  rq_Vehicle :: string
  rq_Unit :: string
  rq_Language :: string
  rq_Options :: RouteOptions

record RerouteRequest = RouteRequest +
  rr_FromHeading :: "int option"
  rr_FromHeadingTolerance :: "int option"
  rr_Exclusions :: "RouteCoord list list"

definition zero_coord :: RouteCoord where
  "zero_coord = \<lparr>rc_Lat = f64_zero, rc_Lon = f64_zero\<rparr>"

definition zero_waypoint :: RouteWaypoint where
  "zero_waypoint = \<lparr>rw_Lat = f64_zero, rw_Lon = f64_zero, rw_Type = []\<rparr>"

definition zero_options :: RouteOptions where
  "zero_options = \<lparr>ro_AvoidTollRoads = False, ro_AvoidHighways = False, ro_AvoidFerries = False,
     ro_ScenicPreference = f64_zero, ro_HighwayAvoidance = f64_zero, ro_TollAvoidance = f64_zero,
     ro_UnpavedHandling = []\<rparr>"

definition zero_route :: RouteRequest where
  "zero_route = \<lparr>rq_From = zero_coord, rq_To = zero_coord, rq_Waypoints = [], rq_Vehicle = [], rq_Unit = [],
     rq_Language = [], rq_Options = zero_options\<rparr>"

definition zero_reroute :: RerouteRequest where
  "zero_reroute = RouteRequest.extend zero_route
     \<lparr>rr_FromHeading = None, rr_FromHeadingTolerance = None, rr_Exclusions = []\<rparr>"

section \<open>Their JSON\<close>

definition coord_fields :: "RouteCoord struct" where
  "coord_fields = [fld ''lat'' rc_Lat rc_Lat_update dec_f64, fld ''lon'' rc_Lon rc_Lon_update dec_f64]"

definition waypoint_fields :: "RouteWaypoint struct" where
  "waypoint_fields =
     [fld ''lat'' rw_Lat rw_Lat_update dec_f64, fld ''lon'' rw_Lon rw_Lon_update dec_f64,
      fld ''type'' rw_Type rw_Type_update dec_string]"

definition options_fields :: "RouteOptions struct" where
  "options_fields =
     [fld ''avoidTollRoads'' ro_AvoidTollRoads ro_AvoidTollRoads_update dec_bool,
      fld ''avoidHighways'' ro_AvoidHighways ro_AvoidHighways_update dec_bool,
      fld ''avoidFerries'' ro_AvoidFerries ro_AvoidFerries_update dec_bool,
      fld ''scenicPreference'' ro_ScenicPreference ro_ScenicPreference_update dec_f64,
      fld ''highwayAvoidance'' ro_HighwayAvoidance ro_HighwayAvoidance_update dec_f64,
      fld ''tollAvoidance'' ro_TollAvoidance ro_TollAvoidance_update dec_f64,
      fld ''unpavedHandling'' ro_UnpavedHandling ro_UnpavedHandling_update dec_string]"

definition route_fields :: "'m RouteRequest_scheme struct" where
  "route_fields =
     [fld ''from'' rq_From rq_From_update (dec_struct coord_fields),
      fld ''to'' rq_To rq_To_update (dec_struct coord_fields),
      fld ''waypoints'' rq_Waypoints rq_Waypoints_update (dec_slice (dec_struct waypoint_fields) zero_waypoint),
      fld ''vehicle'' rq_Vehicle rq_Vehicle_update dec_string,
      fld ''unit'' rq_Unit rq_Unit_update dec_string,
      fld ''language'' rq_Language rq_Language_update dec_string,
      fld ''options'' rq_Options rq_Options_update (dec_struct options_fields)]"

abbreviation dec_int64 :: "int decoder" where "dec_int64 \<equiv> dec_int int64_min int64_max"

definition reroute_fields :: "RerouteRequest struct" where
  "reroute_fields = route_fields @
     [fld ''fromHeading'' rr_FromHeading rr_FromHeading_update (dec_ptr dec_int64 0),
      fld ''fromHeadingTolerance'' rr_FromHeadingTolerance rr_FromHeadingTolerance_update (dec_ptr dec_int64 0),
      fld ''exclusions'' rr_Exclusions rr_Exclusions_update
        (dec_slice (dec_slice (dec_struct coord_fields) zero_coord) [])]"

definition enc_coord :: "RouteCoord encoder" where
  "enc_coord c = enc_obj [(''lat'', enc_f64 (rc_Lat c)), (''lon'', enc_f64 (rc_Lon c))]"

definition enc_waypoint :: "RouteWaypoint encoder" where
  "enc_waypoint p = enc_obj ([(''lat'', enc_f64 (rw_Lat p)), (''lon'', enc_f64 (rw_Lon p))] @
     omit (rw_Type p = []) (''type'', enc_string (rw_Type p)))"

definition enc_options :: "RouteOptions encoder" where
  "enc_options p = enc_obj
     [(''avoidTollRoads'', enc_bool (ro_AvoidTollRoads p)), (''avoidHighways'', enc_bool (ro_AvoidHighways p)),
      (''avoidFerries'', enc_bool (ro_AvoidFerries p)), (''scenicPreference'', enc_f64 (ro_ScenicPreference p)),
      (''highwayAvoidance'', enc_f64 (ro_HighwayAvoidance p)), (''tollAvoidance'', enc_f64 (ro_TollAvoidance p)),
      (''unpavedHandling'', enc_string (ro_UnpavedHandling p))]"

definition route_members :: "'m RouteRequest_scheme \<Rightarrow> member list" where
  "route_members r =
     [(''from'', enc_coord (rq_From r)), (''to'', enc_coord (rq_To r))] @
     omit (rq_Waypoints r = []) (''waypoints'', enc_list enc_waypoint (rq_Waypoints r)) @
     [(''vehicle'', enc_string (rq_Vehicle r))] @
     omit (rq_Unit r = []) (''unit'', enc_string (rq_Unit r)) @
     omit (rq_Language r = []) (''language'', enc_string (rq_Language r)) @
     [(''options'', enc_options (rq_Options r))]"

definition enc_route :: "RouteRequest encoder" where
  "enc_route r = enc_obj (route_members r)"

text \<open>A ring of a checked request is not empty, so it is never the nil slice.\<close>

definition enc_reroute :: "RerouteRequest encoder" where
  "enc_reroute r = enc_obj (route_members r @
     opt_member ''fromHeading'' enc_int (rr_FromHeading r) @
     opt_member ''fromHeadingTolerance'' enc_int (rr_FromHeadingTolerance r) @
     omit (rr_Exclusions r = []) (''exclusions'', enc_list (enc_list enc_coord) (rr_Exclusions r)))"

abbreviation dec_route :: "RouteRequest decoder" where "dec_route \<equiv> dec_struct route_fields"
abbreviation dec_reroute :: "RerouteRequest decoder" where "dec_reroute \<equiv> dec_struct reroute_fields"

section \<open>What decoding yields\<close>

definition coord_ok :: "RouteCoord \<Rightarrow> bool" where
  "coord_ok c \<longleftrightarrow> finite64 (rc_Lat c) \<and> finite64 (rc_Lon c)"

definition waypoint_ok :: "RouteWaypoint \<Rightarrow> bool" where
  "waypoint_ok p \<longleftrightarrow> finite64 (rw_Lat p) \<and> finite64 (rw_Lon p)"

definition options_ok :: "RouteOptions \<Rightarrow> bool" where
  "options_ok p \<longleftrightarrow> finite64 (ro_ScenicPreference p) \<and> finite64 (ro_HighwayAvoidance p) \<and> finite64 (ro_TollAvoidance p)"

definition route_ok :: "'m RouteRequest_scheme \<Rightarrow> bool" where
  "route_ok r \<longleftrightarrow> coord_ok (rq_From r) \<and> coord_ok (rq_To r) \<and> list_all waypoint_ok (rq_Waypoints r) \<and>
     options_ok (rq_Options r)"

definition int64_ok :: "int \<Rightarrow> bool" where "int64_ok i \<longleftrightarrow> int64_min \<le> i \<and> i \<le> int64_max"

definition reroute_ok :: "RerouteRequest \<Rightarrow> bool" where
  "reroute_ok r \<longleftrightarrow> route_ok r \<and> pred_option int64_ok (rr_FromHeading r) \<and>
     pred_option int64_ok (rr_FromHeadingTolerance r) \<and> list_all (list_all coord_ok) (rr_Exclusions r)"

lemmas request_ok_defs = coord_ok_def waypoint_ok_def options_ok_def route_ok_def reroute_ok_def

interpretation coord_codec: codec "dec_struct coord_fields" zero_coord coord_ok enc_coord
proof unfold_locales
  show "coord_ok y" if "dec_struct coord_fields v x = Some y" "coord_ok x" for v x y
    using that by (rule struct_ok[rotated]) (auto simp: coord_fields_def fld_def coord_ok_def dest: dec_f64_ok)
  show "\<exists>j. enc_coord x = Some j \<and> wf_json j \<and> j \<noteq> JNull \<and> dec_struct coord_fields j zero_coord = Some x"
    if "coord_ok x" for x
    using that f64_codec.read_written[of "rc_Lat x"] f64_codec.read_written[of "rc_Lon x"]
    by (auto simp: coord_ok_def enc_coord_def dec_struct_def coord_fields_def fld_def find_field_def zero_coord_def)
qed (simp add: coord_ok_def zero_coord_def)

interpretation waypoint_codec: codec "dec_struct waypoint_fields" zero_waypoint waypoint_ok enc_waypoint
proof unfold_locales
  show "waypoint_ok y" if "dec_struct waypoint_fields v x = Some y" "waypoint_ok x" for v x y
    using that by (rule struct_ok[rotated]) (auto simp: waypoint_fields_def fld_def waypoint_ok_def dest: dec_f64_ok)
  show "\<exists>j. enc_waypoint x = Some j \<and> wf_json j \<and> j \<noteq> JNull \<and> dec_struct waypoint_fields j zero_waypoint = Some x"
    if "waypoint_ok x" for x
    using that f64_codec.read_written[of "rw_Lat x"] f64_codec.read_written[of "rw_Lon x"]
    by (cases "rw_Type x = []")
       (auto simp: waypoint_ok_def enc_waypoint_def dec_struct_def waypoint_fields_def fld_def find_field_def
          zero_waypoint_def enc_string_def)
qed (simp add: waypoint_ok_def zero_waypoint_def)

interpretation options_codec: codec "dec_struct options_fields" zero_options options_ok enc_options
proof unfold_locales
  show "options_ok y" if "dec_struct options_fields v x = Some y" "options_ok x" for v x y
    using that by (rule struct_ok[rotated]) (auto simp: options_fields_def fld_def options_ok_def dest: dec_f64_ok)
  show "\<exists>j. enc_options x = Some j \<and> wf_json j \<and> j \<noteq> JNull \<and> dec_struct options_fields j zero_options = Some x"
    if "options_ok x" for x
    using that f64_codec.read_written[of "ro_ScenicPreference x"] f64_codec.read_written[of "ro_HighwayAvoidance x"]
      f64_codec.read_written[of "ro_TollAvoidance x"]
    by (auto simp: options_ok_def enc_options_def dec_struct_def options_fields_def fld_def find_field_def
        zero_options_def enc_string_def enc_bool_def)
qed (simp add: options_ok_def zero_options_def)

interpretation waypoints_codec: codec "dec_slice (dec_struct waypoint_fields) zero_waypoint" "[]" "list_all waypoint_ok"
  "enc_list enc_waypoint"
  by (rule waypoint_codec.slice_codec)

interpretation ring_codec: codec "dec_slice (dec_struct coord_fields) zero_coord" "[]" "list_all coord_ok" "enc_list enc_coord"
  by (rule coord_codec.slice_codec)

interpretation rings_codec: codec "dec_slice (dec_slice (dec_struct coord_fields) zero_coord) []" "[]"
  "list_all (list_all coord_ok)" "enc_list (enc_list enc_coord)"
  by (rule ring_codec.slice_codec)

lemma dec_members_append:
  "dec_members fs (a @ b) r = (case dec_members fs a r of None \<Rightarrow> None | Some r' \<Rightarrow> dec_members fs b r')"
  by (induction a arbitrary: r) (auto split: option.split)

lemma those_append:
  "those (a @ b) = (case those a of None \<Rightarrow> None | Some x \<Rightarrow> map_option ((@) x) (those b))"
  by (induction a; cases "those b") (auto split: option.split)

lemma wf_members_append [simp]: "wf_members (a @ b) \<longleftrightarrow> wf_members a \<and> wf_members b"
proof (induction a)
  case (Cons m a)
  then show ?case by (cases m) simp
qed simp

text \<open>Members that are written and read back piece by piece: \<open>reads fs ms r r'\<close> says they
  take \<open>r\<close> to \<open>r'\<close>.\<close>

definition reads :: "'r struct \<Rightarrow> member list \<Rightarrow> 'r \<Rightarrow> 'r \<Rightarrow> bool" where
  "reads fs ms r r' \<longleftrightarrow>
     (\<exists>l. those (map (\<lambda>(k, v). map_option (Pair k) v) ms) = Some l \<and> wf_members l \<and> dec_members fs l r = Some r')"

lemma reads_append: "reads fs a r r1 \<Longrightarrow> reads fs b r1 r2 \<Longrightarrow> reads fs (a @ b) r r2"
  unfolding reads_def by (force simp: those_append dec_members_append)

lemma reads_nil: "reads fs [] r r"
  by (simp add: reads_def)

lemma reads_one:
  "v = Some j \<Longrightarrow> wf_json j \<Longrightarrow> find_field fs k = Some d \<Longrightarrow> d j r = Some r' \<Longrightarrow> reads fs [(k, v)] r r'"
  by (simp add: reads_def)

lemma reads_omit:
  "(left_out \<Longrightarrow> r' = r) \<Longrightarrow> (\<not> left_out \<Longrightarrow> reads fs [m] r r') \<Longrightarrow> reads fs (omit left_out m) r r'"
  by (cases left_out) (auto simp: reads_nil)

lemma reads_obj:
  "reads fs ms zero r \<Longrightarrow> \<exists>j. enc_obj ms = Some j \<and> wf_json j \<and> j \<noteq> JNull \<and> dec_struct fs j zero = Some r"
  by (auto simp: reads_def enc_obj_def dec_struct_def)

text \<open>A field of a type with the contract.\<close>

lemma reads_field:
  assumes "map_of fs k = Some (snd (fld k get upd d))"
    and "\<exists>j. v = Some j \<and> wf_json j \<and> j \<noteq> JNull \<and> d j (get r) = Some x"
  shows "reads fs [(k, v)] r (upd (\<lambda>_. x) r)"
  using assms by (auto intro!: reads_one simp: find_field_named fld_def)

lemma route_field_names:
  "map_of route_fields ''from'' = Some (snd (fld ''from'' rq_From rq_From_update (dec_struct coord_fields)))"
  "map_of route_fields ''to'' = Some (snd (fld ''to'' rq_To rq_To_update (dec_struct coord_fields)))"
  "map_of route_fields ''waypoints'' = Some (snd (fld ''waypoints'' rq_Waypoints rq_Waypoints_update
     (dec_slice (dec_struct waypoint_fields) zero_waypoint)))"
  "map_of route_fields ''vehicle'' = Some (snd (fld ''vehicle'' rq_Vehicle rq_Vehicle_update dec_string))"
  "map_of route_fields ''unit'' = Some (snd (fld ''unit'' rq_Unit rq_Unit_update dec_string))"
  "map_of route_fields ''language'' = Some (snd (fld ''language'' rq_Language rq_Language_update dec_string))"
  "map_of route_fields ''options'' = Some (snd (fld ''options'' rq_Options rq_Options_update (dec_struct options_fields)))"
  by (simp_all add: route_fields_def fld_def)

lemma route_members_read:
  fixes r :: "'m RouteRequest_scheme"
  assumes names: "\<And>k d. map_of (route_fields :: 'm RouteRequest_scheme struct) k = Some d \<Longrightarrow> map_of fs k = Some d"
    and ok: "route_ok r"
    and z: "rq_From z = zero_coord" "rq_To z = zero_coord" "rq_Waypoints z = []" "rq_Vehicle z = []"
      "rq_Unit z = []" "rq_Language z = []" "rq_Options z = zero_options"
  shows "reads fs (route_members r) z (z\<lparr>rq_From := rq_From r, rq_To := rq_To r, rq_Waypoints := rq_Waypoints r,
     rq_Vehicle := rq_Vehicle r, rq_Unit := rq_Unit r, rq_Language := rq_Language r, rq_Options := rq_Options r\<rparr>)"
proof -
  note n = route_field_names[THEN names]
  let ?z1 = "z\<lparr>rq_From := rq_From r\<rparr>" and ?z2 = "z\<lparr>rq_From := rq_From r, rq_To := rq_To r\<rparr>"
  let ?z3 = "?z2\<lparr>rq_Waypoints := rq_Waypoints r\<rparr>"
  let ?z4 = "?z3\<lparr>rq_Vehicle := rq_Vehicle r\<rparr>"
  let ?z5 = "?z4\<lparr>rq_Unit := rq_Unit r\<rparr>"
  let ?z6 = "?z5\<lparr>rq_Language := rq_Language r\<rparr>"
  have ok': "coord_ok (rq_From r)" "coord_ok (rq_To r)" "list_all waypoint_ok (rq_Waypoints r)" "options_ok (rq_Options r)"
    using ok by (auto simp: route_ok_def)
  have "reads fs [(''from'', enc_coord (rq_From r))] z ?z1"
    using coord_codec.read_written[OF ok'(1)] z by (intro reads_field[OF n(1)]) simp
  moreover have "reads fs [(''to'', enc_coord (rq_To r))] ?z1 ?z2"
    using coord_codec.read_written[OF ok'(2)] z by (intro reads_field[OF n(2)]) simp
  ultimately have a: "reads fs [(''from'', enc_coord (rq_From r)), (''to'', enc_coord (rq_To r))] z ?z2"
    using reads_append by fastforce
  have b: "reads fs (omit (rq_Waypoints r = []) (''waypoints'', enc_list enc_waypoint (rq_Waypoints r))) ?z2 ?z3"
  proof (rule reads_omit)
    show "reads fs [(''waypoints'', enc_list enc_waypoint (rq_Waypoints r))] ?z2 ?z3"
      using waypoints_codec.read_written[OF ok'(3)] z by (intro reads_field[OF n(3)]) simp
  qed (use z in simp)
  have c: "reads fs [(''vehicle'', enc_string (rq_Vehicle r))] ?z3 ?z4"
    using z by (intro reads_field[OF n(4)]) (simp add: enc_string_def)
  have d: "reads fs (omit (rq_Unit r = []) (''unit'', enc_string (rq_Unit r))) ?z4 ?z5"
  proof (rule reads_omit)
    show "reads fs [(''unit'', enc_string (rq_Unit r))] ?z4 ?z5"
      using z by (intro reads_field[OF n(5)]) (simp add: enc_string_def)
  qed (use z in simp)
  have e: "reads fs (omit (rq_Language r = []) (''language'', enc_string (rq_Language r))) ?z5 ?z6"
  proof (rule reads_omit)
    show "reads fs [(''language'', enc_string (rq_Language r))] ?z5 ?z6"
      using z by (intro reads_field[OF n(6)]) (simp add: enc_string_def)
  qed (use z in simp)
  have f: "reads fs [(''options'', enc_options (rq_Options r))] ?z6 (?z6\<lparr>rq_Options := rq_Options r\<rparr>)"
    using options_codec.read_written[OF ok'(4)] z by (intro reads_field[OF n(7)]) simp
  show ?thesis
    using reads_append[OF a reads_append[OF b reads_append[OF c reads_append[OF d reads_append[OF e f]]]]]
    by (simp add: route_members_def)
qed

lemma fld_ok: "snd (fld n get upd d) v r = Some r' \<longleftrightarrow> (\<exists>x. d v (get r) = Some x \<and> r' = upd (\<lambda>_. x) r)"
  by (auto simp: fld_def)

lemma route_fields_ok:
  assumes "(n, d) \<in> set route_fields" and "d v r = Some r'" and "route_ok r"
  shows "route_ok r'"
  using assms
  by (auto simp: route_fields_def fld_def route_ok_def dest: coord_codec.read_ok waypoints_codec.read_ok options_codec.read_ok)

interpretation route_codec: codec dec_route zero_route route_ok enc_route
proof unfold_locales
  show "route_ok y" if "dec_route v x = Some y" "route_ok x" for v and x y :: RouteRequest
    using route_fields_ok that by (rule struct_ok)
  show "\<exists>j. enc_route x = Some j \<and> wf_json j \<and> j \<noteq> JNull \<and> dec_route j zero_route = Some x" if "route_ok x" for x
    using reads_obj[OF route_members_read[of route_fields x zero_route, OF _ that]]
    by (cases x) (simp add: enc_route_def zero_route_def)
qed (simp add: route_ok_def zero_route_def coord_codec.zero_ok options_codec.zero_ok)

lemma int_range: "int64_min \<le> i \<and> i \<le> int64_max \<longleftrightarrow> int64_ok i"
  by (simp add: int64_ok_def)

interpretation int64: codec dec_int64 0 int64_ok enc_int
  using int64_codec.codec_axioms unfolding int_range .

lemma reroute_fields_ok:
  assumes "(n, d) \<in> set reroute_fields" and "d v r = Some r'" and "reroute_ok r"
  shows "reroute_ok r'"
proof (cases "(n, d) \<in> set route_fields")
  case True
  then have "rr_FromHeading r' = rr_FromHeading r" "rr_FromHeadingTolerance r' = rr_FromHeadingTolerance r"
    "rr_Exclusions r' = rr_Exclusions r"
    using assms(2) by (auto simp: route_fields_def fld_def)
  then show ?thesis using route_fields_ok[OF True assms(2)] assms(3) by (simp add: reroute_ok_def)
next
  case False
  then show ?thesis
    using assms by (auto simp: reroute_fields_def fld_def reroute_ok_def route_ok_def dest: int64.ptr_ok rings_codec.read_ok)
qed

lemma reroute_names:
  "map_of route_fields k = Some d \<Longrightarrow> map_of reroute_fields k = Some d"
  "map_of reroute_fields ''fromHeading'' =
     Some (snd (fld ''fromHeading'' rr_FromHeading rr_FromHeading_update (dec_ptr dec_int64 0)))"
  "map_of reroute_fields ''fromHeadingTolerance'' =
     Some (snd (fld ''fromHeadingTolerance'' rr_FromHeadingTolerance rr_FromHeadingTolerance_update (dec_ptr dec_int64 0)))"
  "map_of reroute_fields ''exclusions'' = Some (snd (fld ''exclusions'' rr_Exclusions rr_Exclusions_update
     (dec_slice (dec_slice (dec_struct coord_fields) zero_coord) [])))"
  by (simp_all add: reroute_fields_def) (simp_all add: route_fields_def fld_def)

lemma reads_pointer:
  assumes "map_of fs k = Some (snd (fld k get upd (dec_ptr dec_int64 0)))" and "get r = None" and "pred_option int64_ok p"
    and "\<And>r. get r = None \<Longrightarrow> upd (\<lambda>_. None) r = r"
  shows "reads fs (opt_member k enc_int p) r (upd (\<lambda>_. p) r)"
proof (cases p)
  case None
  then show ?thesis using assms(2,4) by (simp add: opt_member_def reads_nil)
next
  case (Some i)
  then have "int64_ok i" using assms(3) by simp
  from int64.ptr_written[OF this] Some show ?thesis
    by (auto simp: opt_member_def assms(2) intro!: reads_field[OF assms(1)])
qed

interpretation reroute_codec: codec dec_reroute zero_reroute reroute_ok enc_reroute
proof unfold_locales
  show "reroute_ok y" if "dec_reroute v x = Some y" "reroute_ok x" for v x y
    using reroute_fields_ok that by (rule struct_ok)
  show "\<exists>j. enc_reroute x = Some j \<and> wf_json j \<and> j \<noteq> JNull \<and> dec_reroute j zero_reroute = Some x"
    if ok: "reroute_ok x" for x
  proof -
    have ok': "route_ok x" "pred_option int64_ok (rr_FromHeading x)" "pred_option int64_ok (rr_FromHeadingTolerance x)"
      "list_all (list_all coord_ok) (rr_Exclusions x)"
      using ok by (auto simp: reroute_ok_def)
    let ?z0 = "zero_reroute\<lparr>rq_From := rq_From x, rq_To := rq_To x, rq_Waypoints := rq_Waypoints x,
      rq_Vehicle := rq_Vehicle x, rq_Unit := rq_Unit x, rq_Language := rq_Language x, rq_Options := rq_Options x\<rparr>"
    let ?z1 = "?z0\<lparr>rr_FromHeading := rr_FromHeading x\<rparr>"
    let ?z2 = "?z1\<lparr>rr_FromHeadingTolerance := rr_FromHeadingTolerance x\<rparr>"
    let ?z3 = "?z2\<lparr>rr_Exclusions := rr_Exclusions x\<rparr>"
    have a: "reads reroute_fields (route_members x) zero_reroute ?z0"
      using route_members_read[OF reroute_names(1) ok'(1), of zero_reroute]
      by (simp add: zero_reroute_def zero_route_def RouteRequest.extend_def)
    have b: "reads reroute_fields (opt_member ''fromHeading'' enc_int (rr_FromHeading x)) ?z0 ?z1"
      by (rule reads_pointer[OF reroute_names(2) _ ok'(2)]) (simp_all add: zero_reroute_def RouteRequest.extend_def)
    have c: "reads reroute_fields (opt_member ''fromHeadingTolerance'' enc_int (rr_FromHeadingTolerance x)) ?z1 ?z2"
      by (rule reads_pointer[OF reroute_names(3) _ ok'(3)]) (simp_all add: zero_reroute_def RouteRequest.extend_def)
    have d: "reads reroute_fields (omit (rr_Exclusions x = []) (''exclusions'', enc_list (enc_list enc_coord) (rr_Exclusions x)))
        ?z2 ?z3"
    proof (rule reads_omit)
      show "reads reroute_fields [(''exclusions'', enc_list (enc_list enc_coord) (rr_Exclusions x))] ?z2 ?z3"
        using rings_codec.read_written[OF ok'(4)]
        by (intro reads_field[OF reroute_names(4)]) (simp add: zero_reroute_def RouteRequest.extend_def)
    qed (simp add: zero_reroute_def RouteRequest.extend_def)
    have z: "?z3 = x" by (simp add: zero_reroute_def RouteRequest.extend_def)
    show ?thesis
      using reads_obj[OF reads_append[OF a reads_append[OF b reads_append[OF c d[unfolded z]]]]]
      unfolding enc_reroute_def .
  qed
qed (simp add: reroute_ok_def zero_reroute_def RouteRequest.extend_def route_ok_def zero_route_def coord_codec.zero_ok
    options_codec.zero_ok)

end

