(* ===== verification/Reroute_Checks.thy ===== *)
theory Reroute_Checks
  imports Route_Requests
begin

text \<open>
  \<open>RerouteRequest.validate\<close> and \<open>distanceMeters\<close> of \<open>internal/handlers/reroute.go\<close>, on 64-bit
  floats.  Sine, cosine, arc sine and square root are an argument.
\<close>

section \<open>Distance\<close>

record go_math =
  mt_Sin :: "float64 \<Rightarrow> float64"
  mt_Cos :: "float64 \<Rightarrow> float64"
  mt_Asin :: "float64 \<Rightarrow> float64"
  mt_Sqrt :: "float64 \<Rightarrow> float64"

definition math_Pi :: float64 where
  "math_Pi = of_decimal False 314159265358979323846264338327950288419716939937510582097494459 (- 62)"

definition rad :: "float64 \<Rightarrow> float64" where
  "rad d = f64_div (f64_mul d math_Pi) (f64_int 180)"

text \<open>\<open>2 * earthRadius\<close> is a constant of the source, 12742017.6.\<close>

definition earth_diameter :: float64 where
  "earth_diameter = of_decimal False 127420176 (- 1)"

definition distanceMeters :: "go_math \<Rightarrow> float64 \<Rightarrow> float64 \<Rightarrow> float64 \<Rightarrow> float64 \<Rightarrow> float64" where
  "distanceMeters mt lat1 lon1 lat2 lon2 =
     (let dLat = rad (f64_sub lat2 lat1); dLon = rad (f64_sub lon2 lon1);
          sLat = mt_Sin mt (f64_div dLat (f64_int 2)); sLon = mt_Sin mt (f64_div dLon (f64_int 2));
          h = f64_add (f64_mul sLat sLat)
                (f64_mul (f64_mul (f64_mul (mt_Cos mt (rad lat1)) (mt_Cos mt (rad lat2))) sLon) sLon)
      in f64_mul earth_diameter (mt_Asin mt (go_min (f64_int 1) (mt_Sqrt mt h))))"

section \<open>The checks\<close>

definition maxExclusionPolygons :: nat where "maxExclusionPolygons = 6"
definition maxExclusionPoints :: nat where "maxExclusionPoints = 40"
definition maxExclusionExtentMeter :: int where "maxExclusionExtentMeter = 2000"

definition validCoord :: "RouteCoord \<Rightarrow> bool" where
  "validCoord c \<longleftrightarrow>
     rc_Lat c \<noteq> NaN \<and> rc_Lon c \<noteq> NaN \<and>
     f64_le (f64_int (- 90)) (rc_Lat c) \<and> f64_le (rc_Lat c) (f64_int 90) \<and>
     f64_le (f64_int (- 180)) (rc_Lon c) \<and> f64_le (rc_Lon c) (f64_int 180)"

record box =
  bx_minLat :: float64
  bx_maxLat :: float64
  bx_minLon :: float64
  bx_maxLon :: float64

definition empty_box :: box where
  "empty_box = \<lparr>bx_minLat = f64_int 90, bx_maxLat = f64_int (- 90), bx_minLon = f64_int 180, bx_maxLon = f64_int (- 180)\<rparr>"

definition grow_box :: "box \<Rightarrow> RouteCoord \<Rightarrow> box" where
  "grow_box b c =
     \<lparr>bx_minLat = go_min (bx_minLat b) (rc_Lat c), bx_maxLat = go_max (bx_maxLat b) (rc_Lat c),
      bx_minLon = go_min (bx_minLon b) (rc_Lon c), bx_maxLon = go_max (bx_maxLon b) (rc_Lon c)\<rparr>"

text \<open>The loop over the points of a ring, with its early return.\<close>

fun box_loop :: "box \<Rightarrow> RouteCoord list \<Rightarrow> box option" where
  "box_loop b [] = Some b"
| "box_loop b (c # cs) = (if \<not> validCoord c then None else box_loop (grow_box b c) cs)"

definition ring_error :: "nat \<Rightarrow> string \<Rightarrow> string" where
  "ring_error i msg = ''exclusions['' @ show_nat i @ '']: '' @ msg"

definition validate_ring :: "go_math \<Rightarrow> nat \<Rightarrow> RouteCoord list \<Rightarrow> string option" where
  "validate_ring mt i ring =
     (if length ring < 3 \<or> maxExclusionPoints < length ring then Some (ring_error i ''needs 3-40 points'')
      else
        (case box_loop empty_box ring of
           None \<Rightarrow> Some (ring_error i ''invalid coordinate'')
         | Some b \<Rightarrow>
             if f64_lt (f64_int maxExclusionExtentMeter)
                  (distanceMeters mt (bx_minLat b) (bx_minLon b) (bx_maxLat b) (bx_maxLon b))
             then Some (ring_error i ''larger than 2000 m'') else None))"

fun validate_rings :: "go_math \<Rightarrow> nat \<Rightarrow> RouteCoord list list \<Rightarrow> string option" where
  "validate_rings mt i [] = None"
| "validate_rings mt i (ring # rings) =
     (case validate_ring mt i ring of Some e \<Rightarrow> Some e | None \<Rightarrow> validate_rings mt (Suc i) rings)"

definition validate :: "go_math \<Rightarrow> RerouteRequest \<Rightarrow> string option" where
  "validate mt r =
     (if (case rr_FromHeading r of Some h \<Rightarrow> h < 0 \<or> 359 < h | None \<Rightarrow> False)
      then Some ''fromHeading must be 0-359''
      else if (case rr_FromHeadingTolerance r of Some t \<Rightarrow> t < 1 \<or> 180 < t | None \<Rightarrow> False)
      then Some ''fromHeadingTolerance must be 1-180''
      else if maxExclusionPolygons < length (rr_Exclusions r) then Some ''at most 6 exclusions''
      else validate_rings mt 0 (rr_Exclusions r))"

section \<open>What the checks accept\<close>

text \<open>The corners of a ring, declaratively: the least and the greatest of its coordinates.\<close>

definition spans :: "box \<Rightarrow> RouteCoord list \<Rightarrow> bool" where
  "spans b ring \<longleftrightarrow>
     real64 (bx_minLat b) = Min ((real64 \<circ> rc_Lat) ` set ring) \<and>
     real64 (bx_maxLat b) = Max ((real64 \<circ> rc_Lat) ` set ring) \<and>
     real64 (bx_minLon b) = Min ((real64 \<circ> rc_Lon) ` set ring) \<and>
     real64 (bx_maxLon b) = Max ((real64 \<circ> rc_Lon) ` set ring)"

definition in_range :: "RouteCoord \<Rightarrow> bool" where
  "in_range c \<longleftrightarrow> \<bar>real64 (rc_Lat c)\<bar> \<le> 90 \<and> \<bar>real64 (rc_Lon c)\<bar> \<le> 180"

definition ring_box :: "RouteCoord list \<Rightarrow> box" where
  "ring_box ring = foldl grow_box empty_box ring"

definition box_extent :: "go_math \<Rightarrow> box \<Rightarrow> float64" where
  "box_extent mt b = distanceMeters mt (bx_minLat b) (bx_minLon b) (bx_maxLat b) (bx_maxLon b)"

lemma f64_int_simps [simp]:
  "f64_int 90 = Finite False 6333186975989760 (- 46)" "f64_int (- 90) = Finite True 6333186975989760 (- 46)"
  "f64_int 180 = Finite False 6333186975989760 (- 45)" "f64_int (- 180) = Finite True 6333186975989760 (- 45)"
  by code_simp+

lemma real_bounds [simp]:
  "real64 (f64_int 90) = 90" "real64 (f64_int (- 90)) = - 90" "real64 (f64_int 180) = 180" "real64 (f64_int (- 180)) = - 180"
  by (simp_all add: powi_nat)

lemma finite_bounds [simp]:
  "finite64 (f64_int 90)" "finite64 (f64_int (- 90))" "finite64 (f64_int 180)" "finite64 (f64_int (- 180))"
  by (simp_all add: canonical_def)

declare f64_int_simps [simp del]

lemma finite_not_nan: "finite64 v \<Longrightarrow> v \<noteq> NaN"
  by auto

lemma validCoord_range:
  assumes "coord_ok c"
  shows "validCoord c \<longleftrightarrow> in_range c"
  using assms by (auto simp: validCoord_def in_range_def coord_ok_def f64_le_real finite_not_nan)

lemma box_loop_foldl: "box_loop b cs = (if list_all validCoord cs then Some (foldl grow_box b cs) else None)"
  by (induction cs arbitrary: b) auto

lemma grow_box_real:
  assumes "list_all coord_ok cs" and "finite64 (bx_minLat b)" "finite64 (bx_maxLat b)" "finite64 (bx_minLon b)" "finite64 (bx_maxLon b)"
  shows "real64 (bx_minLat (foldl grow_box b cs)) = Min (insert (real64 (bx_minLat b)) ((real64 \<circ> rc_Lat) ` set cs)) \<and>
    real64 (bx_maxLat (foldl grow_box b cs)) = Max (insert (real64 (bx_maxLat b)) ((real64 \<circ> rc_Lat) ` set cs)) \<and>
    real64 (bx_minLon (foldl grow_box b cs)) = Min (insert (real64 (bx_minLon b)) ((real64 \<circ> rc_Lon) ` set cs)) \<and>
    real64 (bx_maxLon (foldl grow_box b cs)) = Max (insert (real64 (bx_maxLon b)) ((real64 \<circ> rc_Lon) ` set cs))"
  using assms
proof (induction cs arbitrary: b)
  case (Cons c cs)
  have c: "finite64 (rc_Lat c)" "finite64 (rc_Lon c)" using Cons(2) by (auto simp: coord_ok_def)
  have ins: "Min (insert (min x y) S) = Min (insert x (insert y S))"
    "Max (insert (max x y) S) = Max (insert x (insert y S))" if "finite S" for x y :: real and S
    using that by (cases "S = {}"; simp add: min.assoc max.assoc)+
  show ?case
    using Cons(1)[of "grow_box b c"] Cons(2-) c
    by (simp add: grow_box_def go_min_real go_max_real ins)
qed simp

lemma ring_box_spans:
  assumes "list_all coord_ok ring" and "list_all validCoord ring" and "ring \<noteq> []"
  shows "spans (ring_box ring) ring"
proof -
  have r: "list_all in_range ring"
    using assms(1,2) by (auto simp: list_all_iff validCoord_range)
  have lo: "Min (insert u S) = Min S" "Max (insert l S) = Max S"
    if "finite S" "S \<noteq> {}" "\<forall>x\<in>S. l \<le> x \<and> x \<le> u" for S :: "real set" and l u
  proof -
    have "Min S \<le> u" using that by (meson Min_in)
    moreover have "l \<le> Max S" using that by (meson Max_in)
    ultimately show "Min (insert u S) = Min S" "Max (insert l S) = Max S" using that by simp_all
  qed
  let ?la = "(real64 \<circ> rc_Lat) ` set ring" and ?lo = "(real64 \<circ> rc_Lon) ` set ring"
  have b: "\<forall>x\<in>?la. - 90 \<le> x \<and> x \<le> 90" "\<forall>x\<in>?lo. - 180 \<le> x \<and> x \<le> 180"
    using r by (auto simp: list_all_iff in_range_def abs_le_iff)
  have n: "?la \<noteq> {}" "?lo \<noteq> {}" using assms(3) by auto
  show ?thesis
    using grow_box_real[OF assms(1), of empty_box] lo[OF _ n(1) b(1)] lo[OF _ n(2) b(2)]
    by (simp add: spans_def ring_box_def empty_box_def)
qed

lemma validate_ring_None:
  "validate_ring mt i ring = None \<longleftrightarrow>
     3 \<le> length ring \<and> length ring \<le> 40 \<and> list_all validCoord ring \<and>
     \<not> f64_lt (f64_int 2000) (box_extent mt (ring_box ring))"
  by (auto simp: validate_ring_def box_loop_foldl ring_box_def box_extent_def maxExclusionPoints_def
      maxExclusionExtentMeter_def)

lemma validate_rings_None: "validate_rings mt i rings = None \<longleftrightarrow> (\<forall>ring\<in>set rings. validate_ring mt 0 ring = None)"
proof (induction rings arbitrary: i)
  case (Cons ring rings)
  have "validate_ring mt i ring = None \<longleftrightarrow> validate_ring mt 0 ring = None" by (simp only: validate_ring_None)
  with Cons show ?case by (auto split: option.split)
qed simp

text \<open>
  (C11) A decoded reroute request is accepted exactly when its heading is 0 to 359 and its
  tolerance 1 to 180 where they are given, it has at most six exclusions, and every exclusion
  has 3 to 40 points with latitudes within 90 and longitudes within 180 degrees, and the
  haversine distance between the corners of its bounding box, whose sides are the least and
  the greatest coordinates of the ring, is not above 2000 meters.
\<close>

theorem reroute_checks_accept_exactly:
  assumes "reroute_ok r"
  shows "validate mt r = None \<longleftrightarrow>
    pred_option (\<lambda>h. 0 \<le> h \<and> h \<le> 359) (rr_FromHeading r) \<and>
    pred_option (\<lambda>t. 1 \<le> t \<and> t \<le> 180) (rr_FromHeadingTolerance r) \<and>
    length (rr_Exclusions r) \<le> 6 \<and>
    list_all (\<lambda>ring. 3 \<le> length ring \<and> length ring \<le> 40 \<and> list_all in_range ring \<and>
        spans (ring_box ring) ring \<and> \<not> f64_lt (f64_int 2000) (box_extent mt (ring_box ring))) (rr_Exclusions r)"
proof -
  have ring: "validate_ring mt 0 ring = None \<longleftrightarrow> 3 \<le> length ring \<and> length ring \<le> 40 \<and> list_all in_range ring \<and>
      spans (ring_box ring) ring \<and> \<not> f64_lt (f64_int 2000) (box_extent mt (ring_box ring))"
    if "ring \<in> set (rr_Exclusions r)" for ring
  proof -
    have c: "list_all coord_ok ring" using assms that by (auto simp: reroute_ok_def list_all_iff)
    then have "list_all validCoord ring \<longleftrightarrow> list_all in_range ring" by (auto simp: list_all_iff validCoord_range)
    moreover have "3 \<le> length ring \<Longrightarrow> ring \<noteq> []" by auto
    ultimately show ?thesis using ring_box_spans[OF c] by (auto simp: validate_ring_None)
  qed
  have "validate_rings mt 0 (rr_Exclusions r) = None \<longleftrightarrow>
      list_all (\<lambda>ring. 3 \<le> length ring \<and> length ring \<le> 40 \<and> list_all in_range ring \<and>
        spans (ring_box ring) ring \<and> \<not> f64_lt (f64_int 2000) (box_extent mt (ring_box ring))) (rr_Exclusions r)"
    using ring by (simp add: validate_rings_None list_all_iff)
  then show ?thesis
    by (cases "rr_FromHeading r"; cases "rr_FromHeadingTolerance r")
      (auto simp: validate_def maxExclusionPolygons_def)
qed

definition demo_ring :: "RouteCoord list" where
  "demo_ring = map (\<lambda>(a, b). \<lparr>rc_Lat = f64_int a, rc_Lon = f64_int b\<rparr>) [(50, 4), (51, 5), (50, 3)]"

definition demo_reroute :: RerouteRequest where
  "demo_reroute = zero_reroute\<lparr>rr_Exclusions := [demo_ring]\<rparr>"

definition flat_math :: go_math where
  "flat_math = \<lparr>mt_Sin = (\<lambda>x. f64_zero), mt_Cos = (\<lambda>x. f64_int 1), mt_Asin = (\<lambda>x. f64_zero), mt_Sqrt = (\<lambda>x. f64_zero)\<rparr>"

theorem reroute_checks_accept_exactly_witness:
  "validate flat_math demo_reroute = None \<and> spans (ring_box demo_ring) demo_ring"
proof -
  have "list_all coord_ok demo_ring" "route_ok demo_reroute" by code_simp+
  then have ok: "reroute_ok demo_reroute"
    by (simp add: reroute_ok_def demo_reroute_def zero_reroute_def RouteRequest.defs)
  have v: "validate flat_math demo_reroute = None" by code_simp
  have "rr_Exclusions demo_reroute = [demo_ring]" by (simp add: demo_reroute_def)
  with v show ?thesis using reroute_checks_accept_exactly[OF ok, of flat_math] by simp
qed

end
