(* ===== verification/Route_Results.thy ===== *)
theory Route_Results
  imports Json_Struct
begin

text \<open>
  From the router's answer to the JSON a client gets: the result types of
  \<open>internal/queue/result.go\<close> and the conversions of \<open>internal/handlers/route.go\<close>.  The
  protobuf messages of the router are records with the fields the source reads; a message
  field may be nil, so a conversion is an option, \<open>None\<close> where the source dereferences nil.
  Elements of a repeated field are never nil.  The RFC 3339 text of a timestamp is an argument.
\<close>

section \<open>The router's messages\<close>

datatype pb_unit = U_IMPERIAL | U_other int
datatype pb_location_type = L_THROUGH | L_VIA | L_BREAK_THROUGH | L_other int
datatype pb_side = SS_LEFT | SS_RIGHT | SS_other int
datatype pb_travel_mode = TM_PEDESTRIAN | TM_BICYCLE | TM_TRANSIT | TM_other int
datatype pb_travel_type =
    TT_MOTORSCOOTER | TT_MOTORCYCLE | TT_TRUCK | TT_BUS | TT_FOOT | TT_WHEELCHAIR | TT_ROAD | TT_HYBRID
  | TT_CROSS | TT_MOUNTAIN | TT_TRAM | TT_METRO | TT_RAIL | TT_FERRY | TT_CABLE_CAR | TT_GONDOLA
  | TT_FUNICULAR | TT_other int

record pb_latlng =
  pb_Lat :: float64
  pb_Lon :: float64

record pb_location =
  pl_Location :: "pb_latlng option"
  pl_Type :: pb_location_type
  pl_SideOfStreet :: "pb_side option"
  pl_DateTime :: "int option"
  pl_PreferredHeading :: "int option"
  pl_TimeZoneOffset :: "string option"
  pl_TimeZoneName :: "string option"

record pb_summary =
  ps_Time :: float64
  ps_Length :: float64
  ps_HasToll :: bool
  ps_HasHighway :: bool
  ps_HasFerry :: bool
  ps_BoundingBox :: "(pb_latlng option \<times> pb_latlng option) option"

record pb_sign_element =
  pe_Text :: string
  pe_ConsecutiveCount :: "int option"

record pb_sign =
  pg_ExitNumberElements :: "pb_sign_element list"
  pg_ExitBranchElements :: "pb_sign_element list"
  pg_ExitTowardElements :: "pb_sign_element list"
  pg_ExitNameElements :: "pb_sign_element list"

record pb_lane =
  pn_Directions :: int
  pn_Valid :: "int option"
  pn_Active :: "int option"

record pb_maneuver =
  pm_Type :: int
  pm_Instruction :: string
  pm_VerbalTransitionAlertInstruction :: string
  pm_VerbalPreTransitionInstruction :: string
  pm_VerbalPostTransitionInstruction :: string
  pm_StreetNames :: "string list"
  pm_BeginStreetNames :: "string list"
  pm_Time :: float64
  pm_Length :: float64
  pm_BeginShapeIndex :: int
  pm_EndShapeIndex :: int
  pm_Toll :: "bool option"
  pm_Highway :: "bool option"
  pm_Rough :: "bool option"
  pm_Gate :: "bool option"
  pm_Ferry :: "bool option"
  pm_Sign :: "pb_sign option"
  pm_RoundaboutExitCount :: "int option"
  pm_DepartInstruction :: "string option"
  pm_VerbalDepartInstruction :: "string option"
  pm_ArriveInstruction :: "string option"
  pm_VerbalArriveInstruction :: "string option"
  pm_VerbalMultiCue :: "bool option"
  pm_TravelMode :: pb_travel_mode
  pm_TravelType :: pb_travel_type
  pm_BearingBefore :: int
  pm_BearingAfter :: int
  pm_Lanes :: "pb_lane list"
  pm_RoundaboutExitAngles :: "int list"
  pm_RoundaboutEntryAngles :: "int list"

record pb_leg =
  pk_Shape :: string
  pk_Maneuvers :: "pb_maneuver list"
  pk_Summary :: "pb_summary option"
  pk_Elevation :: "float64 list"
  pk_ElevationInterval :: "float64 option"

record pb_trip =
  pt_Status :: int
  pt_StatusMessage :: string
  pt_Unit :: pb_unit
  pt_Language :: string
  pt_Locations :: "pb_location list"
  pt_Legs :: "pb_leg list"
  pt_Summary :: "pb_summary option"

section \<open>The result types\<close>

record BBoxResult =
  bb_MinLat :: float64
  bb_MinLon :: float64
  bb_MaxLat :: float64
  bb_MaxLon :: float64

record SummaryResult =
  su_Time :: float64
  su_Length :: float64
  su_HasToll :: bool
  su_HasHighway :: bool
  su_HasFerry :: bool
  su_BoundingBox :: "BBoxResult option"

record LocationResult =
  lo_Lat :: float64
  lo_Lon :: float64
  lo_Type :: string
  lo_Heading :: "int option"
  lo_SideOfStreet :: string
  lo_DateTime :: string
  lo_OriginalIndex :: "int option"
  lo_TimeZoneOffset :: "string option"
  lo_TimeZoneName :: "string option"

record SignElementResult =
  se_Text :: string
  se_ConsecutiveCount :: "int option"

record SignResult =
  sg_ExitNumberElements :: "SignElementResult list"
  sg_ExitBranchElements :: "SignElementResult list"
  sg_ExitTowardElements :: "SignElementResult list"
  sg_ExitNameElements :: "SignElementResult list"

record TurnLaneResult =
  tl_Directions :: int
  tl_Valid :: "int option"
  tl_Active :: "int option"

record ManeuverResult =
  mv_Type :: int
  mv_Instruction :: string
  mv_VerbalTransitionAlertInstruction :: string
  mv_VerbalPreTransitionInstruction :: string
  mv_VerbalPostTransitionInstruction :: string
  mv_StreetNames :: "string list"
  mv_BeginStreetNames :: "string list"
  mv_Time :: float64
  mv_Length :: float64
  mv_BeginShapeIndex :: int
  mv_EndShapeIndex :: int
  mv_Toll :: "bool option"
  mv_Highway :: "bool option"
  mv_Rough :: "bool option"
  mv_Gate :: "bool option"
  mv_Ferry :: "bool option"
  mv_Sign :: "SignResult option"
  mv_RoundaboutExitCount :: "int option"
  mv_DepartInstruction :: "string option"
  mv_VerbalDepartInstruction :: "string option"
  mv_ArriveInstruction :: "string option"
  mv_VerbalArriveInstruction :: "string option"
  mv_VerbalMultiCue :: "bool option"
  mv_TravelMode :: string
  mv_TravelType :: string
  mv_BearingBefore :: int
  mv_BearingAfter :: int
  mv_Lanes :: "TurnLaneResult list"
  mv_RoundaboutExitAngles :: "int list"
  mv_RoundaboutEntryAngles :: "int list"

record LegResult =
  lg_Shape :: string
  lg_Maneuvers :: "ManeuverResult list"
  lg_Summary :: SummaryResult
  lg_Elevation :: "float64 list"
  lg_ElevationInterval :: "float64 option"

record TripResult =
  tr_Status :: int
  tr_StatusMessage :: string
  tr_Units :: string
  tr_Language :: string
  tr_Locations :: "LocationResult list"
  tr_Legs :: "LegResult list"
  tr_Summary :: SummaryResult

record RouteResult =
  rr_Trip :: TripResult

section \<open>Conversions\<close>

definition toSummaryResult :: "pb_summary option \<Rightarrow> SummaryResult option" where
  "toSummaryResult p =
     (case p of
        None \<Rightarrow> None
      | Some s \<Rightarrow>
          let r = \<lparr>su_Time = ps_Time s, su_Length = ps_Length s, su_HasToll = ps_HasToll s,
                   su_HasHighway = ps_HasHighway s, su_HasFerry = ps_HasFerry s, su_BoundingBox = None\<rparr>
          in (case ps_BoundingBox s of
                None \<Rightarrow> Some r
              | Some (Some bl, Some tr) \<Rightarrow>
                  Some (r\<lparr>su_BoundingBox := Some \<lparr>bb_MinLat = pb_Lat bl, bb_MinLon = pb_Lon bl,
                                                  bb_MaxLat = pb_Lat tr, bb_MaxLon = pb_Lon tr\<rparr>\<rparr>)
              | Some _ \<Rightarrow> None))"

definition location_type :: "pb_location_type \<Rightarrow> string" where
  "location_type t =
     (case t of L_THROUGH \<Rightarrow> ''through'' | L_VIA \<Rightarrow> ''via'' | L_BREAK_THROUGH \<Rightarrow> ''break_through'' | _ \<Rightarrow> ''break'')"

definition side_of_street :: "pb_side option \<Rightarrow> string" where
  "side_of_street s = (case s of Some SS_LEFT \<Rightarrow> ''left'' | Some SS_RIGHT \<Rightarrow> ''right'' | _ \<Rightarrow> [])"

definition toLocationResult :: "(int \<Rightarrow> string) \<Rightarrow> pb_location \<Rightarrow> LocationResult option" where
  "toLocationResult rfc3339 loc =
     (case pl_Location loc of
        None \<Rightarrow> None
      | Some p \<Rightarrow>
          Some \<lparr>lo_Lat = pb_Lat p, lo_Lon = pb_Lon p, lo_Type = location_type (pl_Type loc),
                lo_Heading = pl_PreferredHeading loc, lo_SideOfStreet = side_of_street (pl_SideOfStreet loc),
                lo_DateTime = (case pl_DateTime loc of Some t \<Rightarrow> rfc3339 t | None \<Rightarrow> []),
                lo_OriginalIndex = None, lo_TimeZoneOffset = pl_TimeZoneOffset loc,
                lo_TimeZoneName = pl_TimeZoneName loc\<rparr>)"

definition toSignElementResult :: "pb_sign_element \<Rightarrow> SignElementResult" where
  "toSignElementResult e = \<lparr>se_Text = pe_Text e, se_ConsecutiveCount = pe_ConsecutiveCount e\<rparr>"

definition toSignResult :: "pb_sign \<Rightarrow> SignResult" where
  "toSignResult s =
     \<lparr>sg_ExitNumberElements = map toSignElementResult (pg_ExitNumberElements s),
      sg_ExitBranchElements = map toSignElementResult (pg_ExitBranchElements s),
      sg_ExitTowardElements = map toSignElementResult (pg_ExitTowardElements s),
      sg_ExitNameElements = map toSignElementResult (pg_ExitNameElements s)\<rparr>"

definition travel_mode :: "pb_travel_mode \<Rightarrow> string" where
  "travel_mode m =
     (case m of TM_PEDESTRIAN \<Rightarrow> ''pedestrian'' | TM_BICYCLE \<Rightarrow> ''bicycle'' | TM_TRANSIT \<Rightarrow> ''transit'' | _ \<Rightarrow> ''drive'')"

definition travel_type :: "pb_travel_type \<Rightarrow> string" where
  "travel_type t =
     (case t of TT_MOTORSCOOTER \<Rightarrow> ''motorscooter'' | TT_MOTORCYCLE \<Rightarrow> ''motorcycle'' | TT_TRUCK \<Rightarrow> ''truck''
      | TT_BUS \<Rightarrow> ''bus'' | TT_FOOT \<Rightarrow> ''foot'' | TT_WHEELCHAIR \<Rightarrow> ''wheelchair'' | TT_ROAD \<Rightarrow> ''road''
      | TT_HYBRID \<Rightarrow> ''hybrid'' | TT_CROSS \<Rightarrow> ''cross'' | TT_MOUNTAIN \<Rightarrow> ''mountain'' | TT_TRAM \<Rightarrow> ''tram''
      | TT_METRO \<Rightarrow> ''metro'' | TT_RAIL \<Rightarrow> ''rail'' | TT_FERRY \<Rightarrow> ''ferry'' | TT_CABLE_CAR \<Rightarrow> ''cable_car''
      | TT_GONDOLA \<Rightarrow> ''gondola'' | TT_FUNICULAR \<Rightarrow> ''funicular'' | TT_other _ \<Rightarrow> ''car'')"

definition toLaneResult :: "pb_lane \<Rightarrow> TurnLaneResult" where
  "toLaneResult l = \<lparr>tl_Directions = pn_Directions l, tl_Valid = pn_Valid l, tl_Active = pn_Active l\<rparr>"

definition toManeuverResult :: "pb_maneuver \<Rightarrow> ManeuverResult" where
  "toManeuverResult m =
     \<lparr>mv_Type = pm_Type m, mv_Instruction = pm_Instruction m,
      mv_VerbalTransitionAlertInstruction = pm_VerbalTransitionAlertInstruction m,
      mv_VerbalPreTransitionInstruction = pm_VerbalPreTransitionInstruction m,
      mv_VerbalPostTransitionInstruction = pm_VerbalPostTransitionInstruction m,
      mv_StreetNames = pm_StreetNames m, mv_BeginStreetNames = pm_BeginStreetNames m,
      mv_Time = pm_Time m, mv_Length = pm_Length m,
      mv_BeginShapeIndex = pm_BeginShapeIndex m, mv_EndShapeIndex = pm_EndShapeIndex m,
      mv_Toll = pm_Toll m, mv_Highway = pm_Highway m, mv_Rough = pm_Rough m, mv_Gate = pm_Gate m,
      mv_Ferry = pm_Ferry m, mv_Sign = map_option toSignResult (pm_Sign m),
      mv_RoundaboutExitCount = pm_RoundaboutExitCount m,
      mv_DepartInstruction = pm_DepartInstruction m, mv_VerbalDepartInstruction = pm_VerbalDepartInstruction m,
      mv_ArriveInstruction = pm_ArriveInstruction m, mv_VerbalArriveInstruction = pm_VerbalArriveInstruction m,
      mv_VerbalMultiCue = pm_VerbalMultiCue m,
      mv_TravelMode = travel_mode (pm_TravelMode m), mv_TravelType = travel_type (pm_TravelType m),
      mv_BearingBefore = pm_BearingBefore m, mv_BearingAfter = pm_BearingAfter m,
      mv_Lanes = map toLaneResult (pm_Lanes m),
      mv_RoundaboutExitAngles = pm_RoundaboutExitAngles m, mv_RoundaboutEntryAngles = pm_RoundaboutEntryAngles m\<rparr>"

definition toLegResult :: "pb_leg \<Rightarrow> LegResult option" where
  "toLegResult leg =
     map_option (\<lambda>s. \<lparr>lg_Shape = pk_Shape leg, lg_Maneuvers = map toManeuverResult (pk_Maneuvers leg), lg_Summary = s,
                      lg_Elevation = pk_Elevation leg, lg_ElevationInterval = pk_ElevationInterval leg\<rparr>)
       (toSummaryResult (pk_Summary leg))"

text \<open>The locations first, then the legs, then the summary; a nil anywhere stops it.\<close>

definition toTripResult :: "(int \<Rightarrow> string) \<Rightarrow> pb_trip option \<Rightarrow> TripResult option" where
  "toTripResult rfc3339 p =
     (case p of
        None \<Rightarrow> None
      | Some trip \<Rightarrow>
          (case those (map (toLocationResult rfc3339) (pt_Locations trip)) of
             None \<Rightarrow> None
           | Some locs \<Rightarrow>
               (case those (map toLegResult (pt_Legs trip)) of
                  None \<Rightarrow> None
                | Some legs \<Rightarrow>
                    map_option (\<lambda>s. \<lparr>tr_Status = pt_Status trip, tr_StatusMessage = pt_StatusMessage trip,
                        tr_Units = (case pt_Unit trip of U_IMPERIAL \<Rightarrow> ''miles'' | _ \<Rightarrow> ''kilometers''),
                        tr_Language = pt_Language trip, tr_Locations = locs, tr_Legs = legs, tr_Summary = s\<rparr>)
                      (toSummaryResult (pt_Summary trip)))))"

definition toRouteResult :: "(int \<Rightarrow> string) \<Rightarrow> pb_trip option \<Rightarrow> RouteResult option" where
  "toRouteResult rfc3339 p = map_option (\<lambda>t. \<lparr>rr_Trip = t\<rparr>) (toTripResult rfc3339 p)"

section \<open>Their JSON\<close>

definition enc_bbox :: "BBoxResult encoder" where
  "enc_bbox b = enc_obj [(''min_lat'', enc_f64 (bb_MinLat b)), (''min_lon'', enc_f64 (bb_MinLon b)),
     (''max_lat'', enc_f64 (bb_MaxLat b)), (''max_lon'', enc_f64 (bb_MaxLon b))]"

definition enc_summary :: "SummaryResult encoder" where
  "enc_summary s = enc_obj ([(''time'', enc_f64 (su_Time s)), (''length'', enc_f64 (su_Length s)),
     (''has_toll'', enc_bool (su_HasToll s)), (''has_highway'', enc_bool (su_HasHighway s)),
     (''has_ferry'', enc_bool (su_HasFerry s))] @ opt_member ''bounding_box'' enc_bbox (su_BoundingBox s))"

definition text_member :: "string \<Rightarrow> string \<Rightarrow> member list" where
  "text_member k s = omit (s = []) (k, enc_string s)"

definition enc_location :: "LocationResult encoder" where
  "enc_location l = enc_obj ([(''lat'', enc_f64 (lo_Lat l)), (''lon'', enc_f64 (lo_Lon l))] @
     text_member ''type'' (lo_Type l) @ opt_member ''heading'' enc_int (lo_Heading l) @
     text_member ''side_of_steet'' (lo_SideOfStreet l) @ text_member ''datetime'' (lo_DateTime l) @
     opt_member ''original_index'' enc_int (lo_OriginalIndex l) @
     opt_member ''time_zone_offset'' enc_string (lo_TimeZoneOffset l) @
     opt_member ''time_zone_name'' enc_string (lo_TimeZoneName l))"

definition enc_sign_element :: "SignElementResult encoder" where
  "enc_sign_element e = enc_obj ([(''text'', enc_string (se_Text e))] @
     opt_member ''consecutive_count'' enc_int (se_ConsecutiveCount e))"

definition list_member :: "string \<Rightarrow> 'a encoder \<Rightarrow> 'a list \<Rightarrow> member list" where
  "list_member k e xs = omit (xs = []) (k, enc_list e xs)"

definition enc_sign :: "SignResult encoder" where
  "enc_sign s = enc_obj (list_member ''exit_number_elements'' enc_sign_element (sg_ExitNumberElements s) @
     list_member ''exit_branch_elements'' enc_sign_element (sg_ExitBranchElements s) @
     list_member ''exit_toward_elements'' enc_sign_element (sg_ExitTowardElements s) @
     list_member ''exit_name_elements'' enc_sign_element (sg_ExitNameElements s))"

definition enc_lane :: "TurnLaneResult encoder" where
  "enc_lane l = enc_obj ([(''directions'', enc_int (tl_Directions l))] @
     opt_member ''valid'' enc_int (tl_Valid l) @ opt_member ''active'' enc_int (tl_Active l))"

definition enc_maneuver :: "ManeuverResult encoder" where
  "enc_maneuver m = enc_obj (
     [(''type'', enc_int (mv_Type m)), (''instruction'', enc_string (mv_Instruction m))] @
     text_member ''verbal_transition_alert_instruction'' (mv_VerbalTransitionAlertInstruction m) @
     text_member ''verbal_pre_transition_instruction'' (mv_VerbalPreTransitionInstruction m) @
     text_member ''verbal_post_transition_instruction'' (mv_VerbalPostTransitionInstruction m) @
     list_member ''street_names'' enc_string (mv_StreetNames m) @
     list_member ''begin_street_names'' enc_string (mv_BeginStreetNames m) @
     [(''time'', enc_f64 (mv_Time m)), (''length'', enc_f64 (mv_Length m)),
      (''begin_shape_index'', enc_int (mv_BeginShapeIndex m)), (''end_shape_index'', enc_int (mv_EndShapeIndex m))] @
     opt_member ''toll'' enc_bool (mv_Toll m) @ opt_member ''highway'' enc_bool (mv_Highway m) @
     opt_member ''rough'' enc_bool (mv_Rough m) @ opt_member ''gate'' enc_bool (mv_Gate m) @
     opt_member ''ferry'' enc_bool (mv_Ferry m) @ opt_member ''sign'' enc_sign (mv_Sign m) @
     opt_member ''roundabout_exit_count'' enc_int (mv_RoundaboutExitCount m) @
     opt_member ''depart_instruction'' enc_string (mv_DepartInstruction m) @
     opt_member ''verbal_depart_instruction'' enc_string (mv_VerbalDepartInstruction m) @
     opt_member ''arrive_instruction'' enc_string (mv_ArriveInstruction m) @
     opt_member ''verbal_arrive_instruction'' enc_string (mv_VerbalArriveInstruction m) @
     opt_member ''verbal_multi_cue'' enc_bool (mv_VerbalMultiCue m) @
     [(''travel_mode'', enc_string (mv_TravelMode m)), (''travel_type'', enc_string (mv_TravelType m)),
      (''bearing_before'', enc_int (mv_BearingBefore m)), (''bearing_after'', enc_int (mv_BearingAfter m))] @
     list_member ''lanes'' enc_lane (mv_Lanes m) @
     list_member ''roundabout_exit_angles'' enc_int (mv_RoundaboutExitAngles m) @
     list_member ''roundabout_entry_angles'' enc_int (mv_RoundaboutEntryAngles m))"

text \<open>Lists that are appended to are nil, and written as \<open>null\<close>, when nothing was appended.\<close>

definition enc_leg :: "LegResult encoder" where
  "enc_leg l = enc_obj ([(''shape'', enc_string (lg_Shape l)),
     (''maneuvers'', enc_slice enc_maneuver (lg_Maneuvers l)), (''summary'', enc_summary (lg_Summary l))] @
     list_member ''elevation'' enc_f64 (lg_Elevation l) @
     opt_member ''elevation_interval'' enc_f64 (lg_ElevationInterval l))"

definition enc_trip :: "TripResult encoder" where
  "enc_trip t = enc_obj [(''status'', enc_int (tr_Status t)), (''status_message'', enc_string (tr_StatusMessage t)),
     (''units'', enc_string (tr_Units t)), (''language'', enc_string (tr_Language t)),
     (''locations'', enc_slice enc_location (tr_Locations t)), (''legs'', enc_slice enc_leg (tr_Legs t)),
     (''summary'', enc_summary (tr_Summary t))]"

definition enc_route_result :: "RouteResult encoder" where
  "enc_route_result r = enc_obj [(''trip'', enc_trip (rr_Trip r))]"

section \<open>Which answers convert\<close>

definition complete_summary :: "pb_summary option \<Rightarrow> bool" where
  "complete_summary p =
     (case p of None \<Rightarrow> False
      | Some s \<Rightarrow> (case ps_BoundingBox s of None \<Rightarrow> True | Some (bl, tr) \<Rightarrow> bl \<noteq> None \<and> tr \<noteq> None))"

definition complete_trip :: "pb_trip option \<Rightarrow> bool" where
  "complete_trip p =
     (case p of None \<Rightarrow> False
      | Some t \<Rightarrow> list_all (\<lambda>l. pl_Location l \<noteq> None) (pt_Locations t) \<and>
          list_all (\<lambda>k. complete_summary (pk_Summary k)) (pt_Legs t) \<and> complete_summary (pt_Summary t))"

lemma those_None: "those xs = None \<longleftrightarrow> None \<in> set xs"
  by (induction xs) (auto split: option.split)

lemma those_map_Some: "those (map f xs) = Some ys \<Longrightarrow> list_all2 (\<lambda>x y. f x = Some y) xs ys"
  by (induction xs arbitrary: ys) (auto split: option.splits)

lemma summary_None: "toSummaryResult p = None \<longleftrightarrow> \<not> complete_summary p"
  by (auto simp: toSummaryResult_def complete_summary_def Let_def split: option.splits prod.splits)

lemma location_None: "toLocationResult f l = None \<longleftrightarrow> pl_Location l = None"
  by (auto simp: toLocationResult_def split: option.split)

lemma leg_None: "toLegResult k = None \<longleftrightarrow> \<not> complete_summary (pk_Summary k)"
  by (simp add: toLegResult_def summary_None)

lemma trip_None: "toTripResult f p = None \<longleftrightarrow> \<not> complete_trip p"
proof (cases p)
  case (Some t)
  have "those (map (toLocationResult f) (pt_Locations t)) = None \<longleftrightarrow> \<not> list_all (\<lambda>l. pl_Location l \<noteq> None) (pt_Locations t)"
    by (auto simp: those_None list_all_iff location_None image_iff) (metis location_None)+
  moreover have "those (map toLegResult (pt_Legs t)) = None \<longleftrightarrow> \<not> list_all (\<lambda>k. complete_summary (pk_Summary k)) (pt_Legs t)"
    by (auto simp: those_None list_all_iff leg_None image_iff) (metis leg_None)+
  ultimately show ?thesis
    using summary_None[of "pt_Summary t"] unfolding Some toTripResult_def complete_trip_def option.case
    by (auto split: option.split)
qed (simp add: toTripResult_def complete_trip_def)

text \<open>
  The conversion of the router's answer goes through exactly when nothing the source
  dereferences is nil: the trip, every location's coordinates, every summary and the corners
  of every bounding box; otherwise the worker panics.  When it goes through, it keeps the
  legs with their shapes and maneuvers, and the locations, all in their order.
\<close>

theorem conversion_needs_a_complete_trip:
  "(case toRouteResult rfc3339 p of
      None \<Rightarrow> \<not> complete_trip p
    | Some r \<Rightarrow> complete_trip p \<and>
        (case p of None \<Rightarrow> False
         | Some t \<Rightarrow> map lg_Shape (tr_Legs (rr_Trip r)) = map pk_Shape (pt_Legs t) \<and>
             map lg_Maneuvers (tr_Legs (rr_Trip r)) = map (\<lambda>k. map toManeuverResult (pk_Maneuvers k)) (pt_Legs t) \<and>
             map (\<lambda>l. Some (lo_Lat l, lo_Lon l)) (tr_Locations (rr_Trip r)) =
               map (\<lambda>l. map_option (\<lambda>q. (pb_Lat q, pb_Lon q)) (pl_Location l)) (pt_Locations t)))"
proof (cases "toRouteResult rfc3339 p")
  case None
  then have "toTripResult rfc3339 p = None" by (simp add: toRouteResult_def)
  with trip_None None show ?thesis by simp
next
  case (Some r)
  then obtain t where t: "toTripResult rfc3339 p = Some t" "rr_Trip r = t" by (auto simp: toRouteResult_def)
  then have c: "complete_trip p" using trip_None[of rfc3339 p] by auto
  then obtain q where q: "p = Some q" by (cases p) (auto simp: complete_trip_def)
  from t(1) obtain locs legs s where l: "those (map (toLocationResult rfc3339) (pt_Locations q)) = Some locs"
    "those (map toLegResult (pt_Legs q)) = Some legs" "tr_Locations t = locs" "tr_Legs t = legs"
    by (auto simp: q toTripResult_def split: option.splits)
  have "list_all2 (\<lambda>k g. lg_Shape g = pk_Shape k \<and> lg_Maneuvers g = map toManeuverResult (pk_Maneuvers k)) (pt_Legs q) legs"
    using those_map_Some[OF l(2)] by (rule list_all2_mono) (auto simp: toLegResult_def)
  then have "map lg_Shape legs = map pk_Shape (pt_Legs q) \<and>
      map lg_Maneuvers legs = map (\<lambda>k. map toManeuverResult (pk_Maneuvers k)) (pt_Legs q)"
    by (induction rule: list_all2_induct) auto
  moreover have "list_all2 (\<lambda>x y. Some (lo_Lat y, lo_Lon y) = map_option (\<lambda>q. (pb_Lat q, pb_Lon q)) (pl_Location x))
      (pt_Locations q) locs"
    using those_map_Some[OF l(1)] by (rule list_all2_mono) (auto simp: toLocationResult_def split: option.splits)
  then have "map (\<lambda>l. Some (lo_Lat l, lo_Lon l)) locs =
      map (\<lambda>l. map_option (\<lambda>q. (pb_Lat q, pb_Lon q)) (pl_Location l)) (pt_Locations q)"
    by (induction rule: list_all2_induct) auto
  ultimately show ?thesis using c Some t(2) l(3,4) by (simp add: q)
qed

section \<open>Which results can be written\<close>

definition summary_floats :: "SummaryResult \<Rightarrow> float64 list" where
  "summary_floats s = [su_Time s, su_Length s] @
     (case su_BoundingBox s of None \<Rightarrow> [] | Some b \<Rightarrow> [bb_MinLat b, bb_MinLon b, bb_MaxLat b, bb_MaxLon b])"

definition leg_floats :: "LegResult \<Rightarrow> float64 list" where
  "leg_floats l = concat (map (\<lambda>m. [mv_Time m, mv_Length m]) (lg_Maneuvers l)) @ summary_floats (lg_Summary l) @
     lg_Elevation l @ (case lg_ElevationInterval l of None \<Rightarrow> [] | Some x \<Rightarrow> [x])"

definition result_floats :: "RouteResult \<Rightarrow> float64 list" where
  "result_floats r = concat (map (\<lambda>l. [lo_Lat l, lo_Lon l]) (tr_Locations (rr_Trip r))) @
     concat (map leg_floats (tr_Legs (rr_Trip r))) @ summary_floats (tr_Summary (rr_Trip r))"

definition not_finite :: "float64 \<Rightarrow> bool" where
  "not_finite v = (case v of Finite s m e \<Rightarrow> False | _ \<Rightarrow> True)"

definition written :: "json option \<Rightarrow> bool" where
  "written v = (case v of Some j \<Rightarrow> wf_json j | None \<Rightarrow> False)"

named_theorems enc_json

lemma enc_f64_None [enc_json]: "enc_f64 v = None \<longleftrightarrow> not_finite v"
  by (simp add: enc_f64_def show_f64_def not_finite_def split: float64.split)

lemma enc_basic_None [enc_json]: "enc_int i \<noteq> None" "enc_string s \<noteq> None" "enc_bool b \<noteq> None"
  by (simp_all add: enc_int_def enc_string_def enc_bool_def)

lemma enc_obj_None [enc_json]: "enc_obj ms = None \<longleftrightarrow> list_ex (\<lambda>m. snd m = None) ms"
  by (force simp: enc_obj_def those_None image_iff list_ex_iff)

lemma enc_list_None [enc_json]: "enc_list e xs = None \<longleftrightarrow> list_ex (\<lambda>x. e x = None) xs"
  by (force simp: enc_list_def those_None image_iff list_ex_iff)

lemma enc_slice_None [enc_json]: "enc_slice e xs = None \<longleftrightarrow> list_ex (\<lambda>x. e x = None) xs"
  by (simp add: enc_slice_def enc_list_None)

lemma member_None [enc_json]:
  "list_ex (\<lambda>m. snd m = None) (opt_member k e p) \<longleftrightarrow> (case p of None \<Rightarrow> False | Some x \<Rightarrow> e x = None)"
  "list_ex (\<lambda>m. snd m = None) (list_member k e xs) \<longleftrightarrow> list_ex (\<lambda>x. e x = None) xs"
  "list_ex (\<lambda>m. snd m = None) (text_member k s) \<longleftrightarrow> False"
  by (auto simp: omit_def opt_member_def list_member_def text_member_def enc_list_None enc_string_def split: option.split)

lemma written_basic [enc_json]:
  "written (enc_string s)" "written (enc_bool b)" "written (enc_int i)"
  "finite64 v \<Longrightarrow> written (enc_f64 v)"
  using f64_codec.read_written[of v] parse_int_text[of i i i]
  by (auto simp: written_def enc_string_def enc_bool_def enc_int_def)

lemma written_obj [enc_json]: "written (enc_obj ms) \<longleftrightarrow> list_all (\<lambda>m. written (snd m)) ms"
proof (induction ms)
  case (Cons m ms)
  have "written (enc_obj (m # ms)) \<longleftrightarrow> written (snd m) \<and> written (enc_obj ms)"
    by (cases m) (auto simp: written_def enc_obj_def split: option.split)
  with Cons show ?case by simp
qed (simp add: written_def)

lemma written_list [enc_json]: "written (enc_list e xs) \<longleftrightarrow> list_all (\<lambda>x. written (e x)) xs"
proof (induction xs)
  case (Cons x xs)
  have "written (enc_list e (x # xs)) \<longleftrightarrow> written (e x) \<and> written (enc_list e xs)"
    by (auto simp: written_def enc_list_def split: option.split)
  with Cons show ?case by simp
qed (simp add: written_def enc_list_def)

lemma written_slice [enc_json]: "written (enc_slice e xs) \<longleftrightarrow> list_all (\<lambda>x. written (e x)) xs"
  by (auto simp: enc_slice_def written_list) (simp add: written_def)

lemma written_member [enc_json]:
  "list_all (\<lambda>m. written (snd m)) (opt_member k e p) \<longleftrightarrow> (case p of None \<Rightarrow> True | Some x \<Rightarrow> written (e x))"
  "list_all (\<lambda>m. written (snd m)) (list_member k e xs) \<longleftrightarrow> list_all (\<lambda>x. written (e x)) xs"
  "list_all (\<lambda>m. written (snd m)) (text_member k s) \<longleftrightarrow> True"
  by (auto simp: omit_def opt_member_def list_member_def text_member_def written_list written_basic split: option.split)

lemma list_constant [enc_json]: "list_all (\<lambda>x. True) xs \<longleftrightarrow> True" "list_ex (\<lambda>x. False) xs \<longleftrightarrow> False"
  "(case p of None \<Rightarrow> True | Some x \<Rightarrow> True) \<longleftrightarrow> True" "(case p of None \<Rightarrow> False | Some x \<Rightarrow> False) \<longleftrightarrow> False"
  by (simp_all add: list_all_iff list_ex_iff split: option.split)

text \<open>Structs are rewritten into conditions on their fields, nothing else unfolded.\<close>

lemmas enc_parts = enc_json list_all_append list_ex_append list.pred_inject list_ex_Nil_iff list_ex_Cons_iff append.simps snd_conv
  simp_thms option.distinct

text \<open>Every part is written when its numbers are finite, and fails when one is not.\<close>

lemma summary_json:
  "enc_summary s = None \<longleftrightarrow> list_ex not_finite (summary_floats s)"
  "list_all finite64 (summary_floats s) \<Longrightarrow> written (enc_summary s)"
  unfolding enc_summary_def enc_bbox_def summary_floats_def
  by (cases "su_BoundingBox s"; simp only: enc_parts option.case)+

lemma location_json:
  "enc_location l = None \<longleftrightarrow> not_finite (lo_Lat l) \<or> not_finite (lo_Lon l)"
  "finite64 (lo_Lat l) \<Longrightarrow> finite64 (lo_Lon l) \<Longrightarrow> written (enc_location l)"
  unfolding enc_location_def by (simp_all only: enc_parts)

lemma sign_json [enc_json]: "enc_sign s \<noteq> None" "written (enc_sign s)"
  unfolding enc_sign_def enc_sign_element_def by (simp_all only: enc_parts)

lemma lane_json [enc_json]: "enc_lane s \<noteq> None" "written (enc_lane s)"
  unfolding enc_lane_def by (simp_all only: enc_parts)

lemmas enc_parts' = enc_parts sign_json lane_json

lemma maneuver_json:
  "enc_maneuver m = None \<longleftrightarrow> not_finite (mv_Time m) \<or> not_finite (mv_Length m)"
  "finite64 (mv_Time m) \<Longrightarrow> finite64 (mv_Length m) \<Longrightarrow> written (enc_maneuver m)"
  unfolding enc_maneuver_def by (simp_all only: enc_parts')

lemma leg_json:
  "enc_leg l = None \<longleftrightarrow> list_ex not_finite (leg_floats l)"
  "list_all finite64 (leg_floats l) \<Longrightarrow> written (enc_leg l)"
proof -
  show "enc_leg l = None \<longleftrightarrow> list_ex not_finite (leg_floats l)"
    unfolding enc_leg_def leg_floats_def
    by (simp only: enc_parts summary_json(1) maneuver_json(1)) (auto simp: list_ex_iff split: option.split)
  show "written (enc_leg l)" if "list_all finite64 (leg_floats l)"
    using that unfolding enc_leg_def leg_floats_def
    by (simp only: enc_parts)
       (auto simp: list_all_iff intro!: summary_json(2) maneuver_json(2) written_basic(4) split: option.splits)
qed

lemma route_result_None: "enc_route_result r = None \<longleftrightarrow> list_ex not_finite (result_floats r)"
  unfolding enc_route_result_def enc_trip_def result_floats_def
  by (simp only: enc_parts summary_json(1) leg_json(1) location_json(1)) (auto simp: list_ex_iff)

text \<open>
  The JSON of a result fails to be written exactly when one of its numbers is a \<open>NaN\<close>
  or an infinity, and is a valid document when all are finite, whatever texts, pointers and
  lists the router sent.
\<close>

theorem result_is_written_iff_finite:
  "(enc_route_result r = None \<longleftrightarrow> list_ex not_finite (result_floats r)) \<and>
   (list_all finite64 (result_floats r) \<longrightarrow> (\<exists>j. enc_route_result r = Some j \<and> wf_json j))"
proof -
  note route_result_None[of r]
  moreover have "written (enc_route_result r)" if "list_all finite64 (result_floats r)"
    using that unfolding enc_route_result_def enc_trip_def result_floats_def
    by (simp only: enc_parts) (auto simp: list_all_iff intro!: summary_json(2) leg_json(2) location_json(2))
  ultimately show ?thesis by (auto simp: written_def split: option.splits)
qed

definition demo_result :: RouteResult where
  "demo_result = \<lparr>rr_Trip = \<lparr>tr_Status = 0, tr_StatusMessage = [CHR 0x22, CHR 0x0A], tr_Units = ''kilometers'',
     tr_Language = ''nl-BE'',
     tr_Locations = [\<lparr>lo_Lat = f64_int 51, lo_Lon = f64_zero, lo_Type = ''break'', lo_Heading = Some 90,
       lo_SideOfStreet = [], lo_DateTime = [], lo_OriginalIndex = None, lo_TimeZoneOffset = None,
       lo_TimeZoneName = None\<rparr>],
     tr_Legs = [],
     tr_Summary = \<lparr>su_Time = f64_int 12, su_Length = f64_int 1, su_HasToll = False, su_HasHighway = True,
       su_HasFerry = False, su_BoundingBox = None\<rparr>\<rparr>\<rparr>"

theorem result_is_written_iff_finite_witness:
  "\<exists>j. enc_route_result demo_result = Some j \<and> wf_json j"
proof -
  have "list_all finite64 (result_floats demo_result)" by code_simp
  then show ?thesis using result_is_written_iff_finite[of demo_result] by blast
qed

end
