(* ===== verification/Route_Worker.thy ===== *)
theory Route_Worker
  imports Reroute_Checks Route_Results Circuit_Breaker Stream_Jobs
begin

text \<open>
  The handlers and the workers of routes: the decoding and marshalling the handlers of
  \<open>route.go\<close> and \<open>reroute.go\<close> do, the queries built from a request, and the process
  functions behind the breaker.  The router client is a record of its two calls, which take
  the outgoing metadata and the service token; an answer is the trip, possibly nil.  A panic
  is \<open>None\<close>: no worker recovers from one.
\<close>

section \<open>Queries\<close>

record Waypoint =
  wp_Coordinate :: Coordinate
  wp_Type :: string

record RouteQuery =
  qu_From :: Coordinate
  qu_To :: Coordinate
  qu_Waypoints :: "Waypoint list"
  qu_Vehicle :: string
  qu_Unit :: string
  qu_Language :: string
  qu_StandardRoutingOptions :: RouteOptions
  qu_FromHeading :: "int option"
  qu_FromHeadingTolerance :: "int option"
  qu_ExcludePolygons :: "Coordinate list list"

definition coordinate :: "RouteCoord \<Rightarrow> Coordinate" where
  "coordinate c = \<lparr>co_Latitude = rc_Lat c, co_Longitude = rc_Lon c\<rparr>"

definition waypoint :: "RouteWaypoint \<Rightarrow> Waypoint" where
  "waypoint p = \<lparr>wp_Coordinate = \<lparr>co_Latitude = rw_Lat p, co_Longitude = rw_Lon p\<rparr>, wp_Type = rw_Type p\<rparr>"

text \<open>The options of the client have the fields of the request's, set one by one.\<close>

definition routing_options :: "RouteOptions \<Rightarrow> RouteOptions" where
  "routing_options p =
     \<lparr>ro_AvoidTollRoads = ro_AvoidTollRoads p, ro_AvoidHighways = ro_AvoidHighways p,
      ro_AvoidFerries = ro_AvoidFerries p, ro_ScenicPreference = ro_ScenicPreference p,
      ro_HighwayAvoidance = ro_HighwayAvoidance p, ro_TollAvoidance = ro_TollAvoidance p,
      ro_UnpavedHandling = ro_UnpavedHandling p\<rparr>"

definition route_query :: "RouteRequest \<Rightarrow> RouteQuery" where
  "route_query r =
     \<lparr>qu_From = coordinate (rq_From r), qu_To = coordinate (rq_To r), qu_Waypoints = map waypoint (rq_Waypoints r),
      qu_Vehicle = rq_Vehicle r, qu_Unit = rq_Unit r, qu_Language = rq_Language r,
      qu_StandardRoutingOptions = routing_options (rq_Options r),
      qu_FromHeading = None, qu_FromHeadingTolerance = None, qu_ExcludePolygons = []\<rparr>"

definition defaultFromHeadingTolerance :: int where "defaultFromHeadingTolerance = 45"

definition routeQuery :: "RerouteRequest \<Rightarrow> RouteQuery" where
  "routeQuery r =
     (let query = \<lparr>qu_From = coordinate (rq_From r), qu_To = coordinate (rq_To r),
                   qu_Waypoints = map waypoint (rq_Waypoints r),
                   qu_Vehicle = rq_Vehicle r, qu_Unit = rq_Unit r, qu_Language = rq_Language r,
                   qu_StandardRoutingOptions = routing_options (rq_Options r),
                   qu_FromHeading = None, qu_FromHeadingTolerance = None, qu_ExcludePolygons = []\<rparr>;
          query = (case rr_FromHeading r of
                     None \<Rightarrow> query
                   | Some heading \<Rightarrow>
                       query\<lparr>qu_FromHeading := Some heading,
                         qu_FromHeadingTolerance :=
                           Some (case rr_FromHeadingTolerance r of Some t \<Rightarrow> t | None \<Rightarrow> defaultFromHeadingTolerance)\<rparr>)
      in query\<lparr>qu_ExcludePolygons := map (map coordinate) (rr_Exclusions r)\<rparr>)"

section \<open>The workers\<close>

type_synonym 'w router_call =
  "(string \<times> string) list \<Rightarrow> string \<Rightarrow> RouteQuery \<Rightarrow> 'w \<Rightarrow> (go_error + pb_trip option) \<times> 'w"

record 'w router =
  rt_RouteRaw :: "'w router_call"
  rt_RerouteRaw :: "'w router_call"

text \<open>What the closure leaves in its captured variable.\<close>

datatype 'r captured = Unset | Assigned 'r | Panicked

definition router_closure ::
  "(int \<Rightarrow> string) \<Rightarrow> ('w \<Rightarrow> (go_error + pb_trip option) \<times> 'w) \<Rightarrow> (go_error, 'w \<times> RouteResult captured) call" where
  "router_closure rfc3339 ask = (\<lambda>(w, v).
     (case ask w of
        (Inl err, w') \<Rightarrow> (Some err, w', v)
      | (Inr trip, w') \<Rightarrow>
          (case toRouteResult rfc3339 trip of
             None \<Rightarrow> (None, w', Panicked)
           | Some r \<Rightarrow> (None, w', Assigned r))))"

definition zero_summary :: SummaryResult where
  "zero_summary = \<lparr>su_Time = f64_zero, su_Length = f64_zero, su_HasToll = False, su_HasHighway = False,
     su_HasFerry = False, su_BoundingBox = None\<rparr>"

definition zero_result :: RouteResult where
  "zero_result = \<lparr>rr_Trip = \<lparr>tr_Status = 0, tr_StatusMessage = [], tr_Units = [], tr_Language = [],
     tr_Locations = [], tr_Legs = [], tr_Summary = zero_summary\<rparr>\<rparr>"

text \<open>The texts of the errors of \<open>encoding/json\<close> are an argument; nothing depends on them.\<close>

definition run_router ::
  "('b, go_error) gobreaker \<Rightarrow> (int \<Rightarrow> string) \<Rightarrow> string \<Rightarrow> ('w \<Rightarrow> (go_error + pb_trip option) \<times> 'w) \<Rightarrow>
     'b registry \<times> 'w \<Rightarrow> ((go_error + json) \<times> 'b registry \<times> 'w) option" where
  "run_router gb rfc3339 json_error ask = (\<lambda>(reg, w).
     (case Execute gb ''routerservice'' (router_closure rfc3339 ask) (reg, w, Unset) of
        (err, reg', w', v) \<Rightarrow>
          if v = Panicked then None
          else
            (case err of
               Some e \<Rightarrow> Some (Inl e, reg', w')
             | None \<Rightarrow>
                 Some (case enc_route_result (case v of Assigned r \<Rightarrow> r | _ \<Rightarrow> zero_result) of
                         Some j \<Rightarrow> Inr j | None \<Rightarrow> Inl (PlainError json_error), reg', w'))))"

definition NewRouteProcessFn ::
  "'w router \<Rightarrow> ('w \<Rightarrow> string) \<Rightarrow> ('b, go_error) gobreaker \<Rightarrow> (int \<Rightarrow> string) \<Rightarrow> string \<Rightarrow> Job \<Rightarrow> 'b registry \<times> 'w \<Rightarrow>
     ((go_error + json) \<times> 'b registry \<times> 'w) option" where
  "NewRouteProcessFn rt token gb rfc3339 json_error job s =
     (case unmarshal dec_route zero_route (Payload job) of
        None \<Rightarrow> Some (Inl (PlainError json_error), s)
      | Some req \<Rightarrow>
          run_router gb rfc3339 json_error
            (\<lambda>w. rt_RouteRaw rt (UserMetadataCtx job) (token w) (route_query req) w) s)"

definition NewRerouteProcessFn ::
  "'w router \<Rightarrow> ('w \<Rightarrow> string) \<Rightarrow> ('b, go_error) gobreaker \<Rightarrow> (int \<Rightarrow> string) \<Rightarrow> string \<Rightarrow> Job \<Rightarrow> 'b registry \<times> 'w \<Rightarrow>
     ((go_error + json) \<times> 'b registry \<times> 'w) option" where
  "NewRerouteProcessFn rt token gb rfc3339 json_error job s =
     (case unmarshal dec_reroute zero_reroute (Payload job) of
        None \<Rightarrow> Some (Inl (PlainError json_error), s)
      | Some req \<Rightarrow>
          run_router gb rfc3339 json_error
            (\<lambda>w. rt_RerouteRaw rt (UserMetadataCtx job) (token w) (routeQuery req) w) s)"

section \<open>The handlers on their request types\<close>

text \<open>\<open>Decode\<close> into a type: a value of another shape is an error of the decoder.\<close>

definition scan_as :: "'q decoder \<Rightarrow> 'q \<Rightarrow> (string \<Rightarrow> json scanned) \<Rightarrow> string \<Rightarrow> 'q scanned" where
  "scan_as d zero scan t =
     (case scan t of
        Complete v \<Rightarrow> (case d v zero of Some q \<Rightarrow> Complete q | None \<Rightarrow> Malformed)
      | Malformed \<Rightarrow> Malformed | Incomplete \<Rightarrow> Incomplete)"

definition Route :: "swlib \<Rightarrow> 'r stream_env \<Rightarrow> (string \<Rightarrow> json scanned) \<Rightarrow> 'r handler" where
  "Route lib env scan = Route_handler lib env (scan_as dec_route zero_route scan) (marshal enc_route)"

definition Reroute :: "swlib \<Rightarrow> 'r stream_env \<Rightarrow> go_math \<Rightarrow> (string \<Rightarrow> json scanned) \<Rightarrow> 'r handler" where
  "Reroute lib env mt scan =
     Reroute_handler lib env (scan_as dec_reroute zero_reroute scan) (validate mt) (marshal enc_reroute)"

section \<open>Lemmas\<close>

lemma decoded_scan:
  assumes "typed_decoder d zero ok" and "decode_body (scan_as d zero scan) b = Decoded q"
  shows "ok q"
  using assms(2) typed_decoder.read_ok[OF assms(1)] typed_decoder.zero_ok[OF assms(1)]
  by (auto simp: decode_body_def scan_as_def Let_def split: option.splits scanned.splits if_splits)

text \<open>The breaker rejects the call, or the router is asked once and its answer converted.\<close>

lemma run_router_cases:
  "run_router gb rfc3339 je ask (reg, w) =
     (case registry_rejects gb ''routerservice'' reg of
        Some e \<Rightarrow> Some (Inl e, registry_books gb ''routerservice'' reg False, w)
      | None \<Rightarrow>
          (case ask w of
             (Inl err, w') \<Rightarrow> Some (Inl err, registry_books gb ''routerservice'' reg False, w')
           | (Inr trip, w') \<Rightarrow>
               (case toRouteResult rfc3339 trip of
                  None \<Rightarrow> None
                | Some r \<Rightarrow>
                    Some (case enc_route_result r of Some j \<Rightarrow> Inr j | None \<Rightarrow> Inl (PlainError je),
                          registry_books gb ''routerservice'' reg True, w'))))"
proof (cases "registry_rejects gb ''routerservice'' reg")
  case None
  show ?thesis
    by (simp add: run_router_def registry.accepted None router_closure_def split: prod.split sum.split option.split)
qed (simp add: run_router_def registry.rejected)

text \<open>Without heading and exclusions a reroute asks for what a route would.\<close>

lemma routeQuery_plain:
  "rr_FromHeading r = None \<Longrightarrow> rr_Exclusions r = [] \<Longrightarrow> routeQuery r = route_query (RouteRequest.truncate r)"
  by (simp add: routeQuery_def route_query_def RouteRequest.truncate_def)

section \<open>Properties\<close>

text \<open>
  (C6) The router is asked for exactly what the client's body says: for a body that decodes
  to a request, the handler enqueues a payload (marshalling never fails), and the worker that
  reads any job with this payload unmarshals the very same request from it, so its call is
  the query of that request, under the job's user metadata and the gateway's token.  The same
  holds for a reroute request that passes its checks.
\<close>

theorem worker_asks_what_was_requested:
  "(case decode_body (scan_as dec_route zero_route scan) (r_body r) of
      Decoded q \<Rightarrow>
        (case marshal enc_route q of
           None \<Rightarrow> False
         | Some payload \<Rightarrow>
             Route lib env scan r w s =
               (case handler_claims lib r of
                  None \<Rightarrow> (http_error w ''unauthorized'' 401, s)
                | Some c \<Rightarrow> enqueue_and_wait env StreamRouting c payload w s) \<and>
             NewRouteProcessFn rt token gb rfc3339 je (job\<lparr>Payload := payload\<rparr>) v =
               run_router gb rfc3339 je (\<lambda>x. rt_RouteRaw rt (UserMetadataCtx job) (token x) (route_query q) x) v)
    | _ \<Rightarrow> True) \<and>
   (case decode_body (scan_as dec_reroute zero_reroute scan) (r_body r) of
      Decoded q \<Rightarrow>
        (case marshal enc_reroute q of
           None \<Rightarrow> False
         | Some payload \<Rightarrow>
             Reroute lib env mt scan r w s =
               (case handler_claims lib r of
                  None \<Rightarrow> (http_error w ''unauthorized'' 401, s)
                | Some c \<Rightarrow>
                    (case validate mt q of
                       Some e \<Rightarrow> (http_error w e 400, s)
                     | None \<Rightarrow> enqueue_and_wait env StreamRerouting c payload w s)) \<and>
             NewRerouteProcessFn rt token gb rfc3339 je (job\<lparr>Payload := payload\<rparr>) v =
               run_router gb rfc3339 je (\<lambda>x. rt_RerouteRaw rt (UserMetadataCtx job) (token x) (routeQuery q) x) v)
    | _ \<Rightarrow> True)"
proof -
  have m: "UserMetadataCtx (job\<lparr>Payload := p\<rparr>) = UserMetadataCtx job" for p
    by (simp add: UserMetadataCtx_def)
  obtain co ok where c: "getClaims lib (r_ctx r) = (co, ok)" by fastforce
  have "\<exists>t. marshal enc_route q = Some t \<and> unmarshal dec_route zero_route t = Some q"
    if "decode_body (scan_as dec_route zero_route scan) (r_body r) = Decoded q" for q
    using route_codec.payload decoded_scan[OF route_codec.typed_decoder_axioms that] by blast
  moreover have "\<exists>t. marshal enc_reroute q = Some t \<and> unmarshal dec_reroute zero_reroute t = Some q"
    if "decode_body (scan_as dec_reroute zero_reroute scan) (r_body r) = Decoded q" for q
    using reroute_codec.payload decoded_scan[OF reroute_codec.typed_decoder_axioms that] by blast
  ultimately show ?thesis
    by (cases co; cases ok)
      (fastforce simp: Route_def Route_handler_def Reroute_def Reroute_handler_def streamJob_def handler_claims_def c
         decodeBody_def NewRouteProcessFn_def NewRerouteProcessFn_def m split: decoded.split option.split)+
qed

text \<open>
  (C12) When a route worker dies and what it reports otherwise: it panics exactly when the
  breaker lets the call through and the router answers a trip that is not complete; a
  rejection and an error of the router are the job's error, a payload that does not decode
  is one without the router being asked, and a complete trip is reported as its JSON, or as
  an error when one of its numbers is not finite.
\<close>

theorem route_worker_outcomes:
  "NewRouteProcessFn rt token gb rfc3339 je job (reg, w) =
     (case unmarshal dec_route zero_route (Payload job) of
        None \<Rightarrow> Some (Inl (PlainError je), reg, w)
      | Some req \<Rightarrow>
          (case registry_rejects gb ''routerservice'' reg of
             Some e \<Rightarrow> Some (Inl e, registry_books gb ''routerservice'' reg False, w)
           | None \<Rightarrow>
               (case rt_RouteRaw rt (UserMetadataCtx job) (token w) (route_query req) w of
                  (Inl err, w') \<Rightarrow> Some (Inl err, registry_books gb ''routerservice'' reg False, w')
                | (Inr trip, w') \<Rightarrow>
                    if \<not> complete_trip trip then None
                    else
                      (case toRouteResult rfc3339 trip of
                         None \<Rightarrow> None
                       | Some r \<Rightarrow>
                           Some (if list_ex not_finite (result_floats r) then Inl (PlainError je)
                                 else Inr (the (enc_route_result r)),
                                 registry_books gb ''routerservice'' reg True, w')))))"
proof -
  have t: "complete_trip trip \<longleftrightarrow> toRouteResult rfc3339 trip \<noteq> None" for trip
    by (simp add: toRouteResult_def trip_None)
  have e: "enc_route_result r = None \<longleftrightarrow> list_ex not_finite (result_floats r)" for r
    by (rule route_result_None)
  have c: "(case enc_route_result r of Some j \<Rightarrow> Inr j | None \<Rightarrow> Inl (PlainError je)) =
      (if list_ex not_finite (result_floats r) then Inl (PlainError je) else Inr (the (enc_route_result r)))" for r
    using e[of r] by (cases "enc_route_result r") auto
  show ?thesis
    by (auto simp: NewRouteProcessFn_def run_router_cases c t split: option.split sum.split prod.split)
qed

end
