(* ===== verification/Search_Jobs.thy ===== *)
theory Search_Jobs
  imports Route_Worker
begin

text \<open>
  \<open>internal/handlers/search.go\<close>: the request types and their JSON, the search and reverse
  geocoding handlers, the worker that tells their jobs apart by the kind in the payload, the
  autocomplete endpoint, and the items a client gets.  The search client is a record of its
  three calls; it hands each result over through \<open>newSearchResult\<close>.
\<close>

section \<open>Requests\<close>

record SearchCoord =
  sd_Lat :: float64
  sd_Lon :: float64

record SearchBBox =
  sb_BottomLeft :: SearchCoord
  sb_TopRight :: SearchCoord

record SearchRequest =
  sq_Text :: string
  sq_Viewport :: SearchBBox
  sq_FocusPoint :: "SearchCoord option"
  sq_Size :: int
  sq_Language :: string

record ReverseGeocodeRequest =
  gq_Lat :: float64
  gq_Lon :: float64
  gq_Size :: int
  gq_Language :: string

record AutocompleteRequest =
  aq_Text :: string
  aq_FocusPoint :: SearchCoord
  aq_Size :: int
  aq_Language :: string
  aq_TargetHousenumber :: string

definition zero_scoord :: SearchCoord where
  "zero_scoord = \<lparr>sd_Lat = f64_zero, sd_Lon = f64_zero\<rparr>"

definition zero_bbox :: SearchBBox where
  "zero_bbox = \<lparr>sb_BottomLeft = zero_scoord, sb_TopRight = zero_scoord\<rparr>"

definition zero_search :: SearchRequest where
  "zero_search = \<lparr>sq_Text = [], sq_Viewport = zero_bbox, sq_FocusPoint = None, sq_Size = 0, sq_Language = []\<rparr>"

definition zero_reverse :: ReverseGeocodeRequest where
  "zero_reverse = \<lparr>gq_Lat = f64_zero, gq_Lon = f64_zero, gq_Size = 0, gq_Language = []\<rparr>"

definition zero_autocomplete :: AutocompleteRequest where
  "zero_autocomplete = \<lparr>aq_Text = [], aq_FocusPoint = zero_scoord, aq_Size = 0, aq_Language = [],
     aq_TargetHousenumber = []\<rparr>"

abbreviation dec_int32 :: "int decoder" where "dec_int32 \<equiv> dec_int int32_min int32_max"

definition scoord_fields :: "SearchCoord struct" where
  "scoord_fields = [fld ''lat'' sd_Lat sd_Lat_update dec_f64, fld ''lon'' sd_Lon sd_Lon_update dec_f64]"

definition bbox_fields :: "SearchBBox struct" where
  "bbox_fields =
     [fld ''bottomLeft'' sb_BottomLeft sb_BottomLeft_update (dec_struct scoord_fields),
      fld ''topRight'' sb_TopRight sb_TopRight_update (dec_struct scoord_fields)]"

definition search_fields :: "SearchRequest struct" where
  "search_fields =
     [fld ''text'' sq_Text sq_Text_update dec_string,
      fld ''viewport'' sq_Viewport sq_Viewport_update (dec_struct bbox_fields),
      fld ''focusPoint'' sq_FocusPoint sq_FocusPoint_update (dec_ptr (dec_struct scoord_fields) zero_scoord),
      fld ''size'' sq_Size sq_Size_update dec_int32,
      fld ''language'' sq_Language sq_Language_update dec_string]"

definition reverse_fields :: "ReverseGeocodeRequest struct" where
  "reverse_fields =
     [fld ''lat'' gq_Lat gq_Lat_update dec_f64, fld ''lon'' gq_Lon gq_Lon_update dec_f64,
      fld ''size'' gq_Size gq_Size_update dec_int32, fld ''language'' gq_Language gq_Language_update dec_string]"

definition autocomplete_fields :: "AutocompleteRequest struct" where
  "autocomplete_fields =
     [fld ''text'' aq_Text aq_Text_update dec_string,
      fld ''focusPoint'' aq_FocusPoint aq_FocusPoint_update (dec_struct scoord_fields),
      fld ''size'' aq_Size aq_Size_update dec_int32, fld ''language'' aq_Language aq_Language_update dec_string,
      fld ''targetHousenumber'' aq_TargetHousenumber aq_TargetHousenumber_update dec_string]"

definition enc_scoord :: "SearchCoord encoder" where
  "enc_scoord c = enc_obj [(''lat'', enc_f64 (sd_Lat c)), (''lon'', enc_f64 (sd_Lon c))]"

definition enc_box :: "SearchBBox encoder" where
  "enc_box b = enc_obj [(''bottomLeft'', enc_scoord (sb_BottomLeft b)), (''topRight'', enc_scoord (sb_TopRight b))]"

definition enc_search :: "SearchRequest encoder" where
  "enc_search q = enc_obj (
     [(''text'', enc_string (sq_Text q)), (''viewport'', enc_box (sq_Viewport q))] @
     opt_member ''focusPoint'' enc_scoord (sq_FocusPoint q) @
     [(''size'', enc_int (sq_Size q)), (''language'', enc_string (sq_Language q))])"

definition enc_reverse :: "ReverseGeocodeRequest encoder" where
  "enc_reverse q = enc_obj
     [(''lat'', enc_f64 (gq_Lat q)), (''lon'', enc_f64 (gq_Lon q)), (''size'', enc_int (gq_Size q)),
      (''language'', enc_string (gq_Language q))]"

abbreviation dec_search :: "SearchRequest decoder" where "dec_search \<equiv> dec_struct search_fields"
abbreviation dec_reverse :: "ReverseGeocodeRequest decoder" where "dec_reverse \<equiv> dec_struct reverse_fields"
abbreviation dec_autocomplete :: "AutocompleteRequest decoder" where "dec_autocomplete \<equiv> dec_struct autocomplete_fields"

section \<open>The payload\<close>

text \<open>The kind beside the request.  A raw message takes whatever value is there.\<close>

record search_envelope =
  ev_Kind :: string
  ev_Req :: "json option"

definition dec_raw :: "json option decoder" where "dec_raw v x = Some (Some v)"

definition envelope_fields :: "search_envelope struct" where
  "envelope_fields =
     [fld ''kind'' ev_Kind ev_Kind_update dec_string, fld ''req'' ev_Req ev_Req_update dec_raw]"

definition zero_envelope :: search_envelope where
  "zero_envelope = \<lparr>ev_Kind = [], ev_Req = None\<rparr>"

definition enc_payload :: "string \<Rightarrow> 'q encoder \<Rightarrow> 'q encoder" where
  "enc_payload kind e q = enc_obj [(''kind'', enc_string kind), (''req'', e q)]"

definition Search :: "swlib \<Rightarrow> 'r stream_env \<Rightarrow> (string \<Rightarrow> json scanned) \<Rightarrow> 'r handler" where
  "Search lib env scan =
     enqueueAndStream lib env StreamSearch (scan_as dec_search zero_search scan)
       (marshal (enc_payload ''search'' enc_search))"

definition ReverseGeocode :: "swlib \<Rightarrow> 'r stream_env \<Rightarrow> (string \<Rightarrow> json scanned) \<Rightarrow> 'r handler" where
  "ReverseGeocode lib env scan =
     enqueueAndStream lib env StreamSearch (scan_as dec_reverse zero_reverse scan)
       (marshal (enc_payload ''reverse'' enc_reverse))"

section \<open>The search service\<close>

record BoundingBox =
  bo_BottomLeft :: Coordinate
  bo_TopRight :: Coordinate

record SearchQuery =
  sy_Text :: string
  sy_Viewport :: BoundingBox
  sy_FocusPoint :: "Coordinate option"
  sy_Size :: int
  sy_Language :: string

record ReverseGeocodeQuery =
  gy_Point :: Coordinate
  gy_Size :: int
  gy_Language :: string

record AutocompleteQuery =
  ay_Text :: string
  ay_FocusPoint :: Coordinate
  ay_Size :: int
  ay_Language :: string
  ay_TargetHousenumber :: string

text \<open>\<open>searchResultImpl\<close> and the item made of it, \<open>SearchItem\<close>, have the same fields.\<close>

record searchResultImpl =
  si_label :: string
  si_locality :: string
  si_region :: string
  si_country :: string
  si_confidence :: float64
  si_layer :: string
  si_lat :: float64
  si_lon :: float64
  si_street :: string
  si_houseNumber :: string
  si_id :: string
  si_localAdmin :: string
  si_countryCode :: string
  si_name :: string

record SearchItem =
  it_Label :: string
  it_Locality :: string
  it_Region :: string
  it_Country :: string
  it_Confidence :: float64
  it_Layer :: string
  it_Lat :: float64
  it_Lon :: float64
  it_Street :: string
  it_HouseNumber :: string
  it_Id :: string
  it_LocalAdmin :: string
  it_CountryCode :: string
  it_Name :: string

definition toSearchItem :: "searchResultImpl \<Rightarrow> SearchItem" where
  "toSearchItem r =
     \<lparr>it_Label = si_label r, it_Locality = si_locality r, it_Region = si_region r, it_Country = si_country r,
      it_Confidence = si_confidence r, it_Layer = si_layer r, it_Lat = si_lat r, it_Lon = si_lon r,
      it_Street = si_street r, it_HouseNumber = si_houseNumber r, it_Id = si_id r,
      it_LocalAdmin = si_localAdmin r, it_CountryCode = si_countryCode r, it_Name = si_name r\<rparr>"

definition toSearchItems :: "searchResultImpl list \<Rightarrow> SearchItem list" where
  "toSearchItems results = map toSearchItem results"

definition enc_item :: "SearchItem encoder" where
  "enc_item i = enc_obj (
     [(''label'', enc_string (it_Label i)), (''locality'', enc_string (it_Locality i)),
      (''region'', enc_string (it_Region i)), (''country'', enc_string (it_Country i)),
      (''confidence'', enc_f64 (it_Confidence i)), (''layer'', enc_string (it_Layer i)),
      (''lat'', enc_f64 (it_Lat i)), (''lon'', enc_f64 (it_Lon i))] @
     text_member ''street'' (it_Street i) @ text_member ''houseNumber'' (it_HouseNumber i) @
     text_member ''id'' (it_Id i) @ text_member ''localAdmin'' (it_LocalAdmin i) @
     text_member ''countryCode'' (it_CountryCode i) @ text_member ''name'' (it_Name i))"

type_synonym ('q, 'w) search_call =
  "(string \<times> string) list \<Rightarrow> string \<Rightarrow> 'q \<Rightarrow> 'w \<Rightarrow> (go_error + searchResultImpl list) \<times> 'w"

record 'w searcher =
  sh_Search :: "(SearchQuery, 'w) search_call"
  sh_ReverseGeocode :: "(ReverseGeocodeQuery, 'w) search_call"
  sh_Autocomplete :: "(AutocompleteQuery, 'w) search_call"

definition point :: "SearchCoord \<Rightarrow> Coordinate" where
  "point c = \<lparr>co_Latitude = sd_Lat c, co_Longitude = sd_Lon c\<rparr>"

definition search_query :: "SearchRequest \<Rightarrow> SearchQuery" where
  "search_query q =
     \<lparr>sy_Text = sq_Text q,
      sy_Viewport = \<lparr>bo_BottomLeft = point (sb_BottomLeft (sq_Viewport q)), bo_TopRight = point (sb_TopRight (sq_Viewport q))\<rparr>,
      sy_FocusPoint = map_option point (sq_FocusPoint q), sy_Size = sq_Size q, sy_Language = sq_Language q\<rparr>"

definition reverse_query :: "ReverseGeocodeRequest \<Rightarrow> ReverseGeocodeQuery" where
  "reverse_query q =
     \<lparr>gy_Point = \<lparr>co_Latitude = gq_Lat q, co_Longitude = gq_Lon q\<rparr>, gy_Size = gq_Size q, gy_Language = gq_Language q\<rparr>"

definition autocomplete_query :: "AutocompleteRequest \<Rightarrow> AutocompleteQuery" where
  "autocomplete_query q =
     \<lparr>ay_Text = aq_Text q, ay_FocusPoint = point (aq_FocusPoint q), ay_Size = aq_Size q, ay_Language = aq_Language q,
      ay_TargetHousenumber = aq_TargetHousenumber q\<rparr>"

section \<open>Calls behind the breaker\<close>

definition search_closure ::
  "('w \<Rightarrow> (go_error + searchResultImpl list) \<times> 'w) \<Rightarrow> (go_error, 'w \<times> SearchItem list option) call" where
  "search_closure ask = (\<lambda>(w, items).
     (case ask w of
        (Inl err, w') \<Rightarrow> (Some err, w', items)
      | (Inr results, w') \<Rightarrow> (None, w', Some (toSearchItems results))))"

text \<open>The error of the guarded call, or the items; a variable never assigned is the nil slice.\<close>

definition guarded_search ::
  "('b, go_error) gobreaker \<Rightarrow> ('w \<Rightarrow> (go_error + searchResultImpl list) \<times> 'w) \<Rightarrow> 'b registry \<times> 'w \<Rightarrow>
     (go_error + SearchItem list option) \<times> 'b registry \<times> 'w" where
  "guarded_search gb ask = (\<lambda>(reg, w).
     (case Execute gb ''searchservice'' (search_closure ask) (reg, w, None) of
        (err, reg', w', items) \<Rightarrow>
          (case err of Some e \<Rightarrow> Inl e | None \<Rightarrow> Inr items, reg', w')))"

definition enc_items :: "SearchItem list option \<Rightarrow> json option" where
  "enc_items items = (case items of None \<Rightarrow> Some JNull | Some xs \<Rightarrow> enc_list enc_item xs)"

definition run_search ::
  "('b, go_error) gobreaker \<Rightarrow> string \<Rightarrow> ('w \<Rightarrow> (go_error + searchResultImpl list) \<times> 'w) \<Rightarrow> 'b registry \<times> 'w \<Rightarrow>
     (go_error + json) \<times> 'b registry \<times> 'w" where
  "run_search gb json_error ask s =
     (case guarded_search gb ask s of
        (Inl e, s') \<Rightarrow> (Inl e, s')
      | (Inr items, s') \<Rightarrow> (case enc_items items of Some j \<Rightarrow> Inr j | None \<Rightarrow> Inl (PlainError json_error), s'))"

definition runSearch where
  "runSearch gb je sh meta token req =
     run_search gb je (\<lambda>w. sh_Search sh meta (token w) (search_query req) w)"

definition runReverseGeocode where
  "runReverseGeocode gb je sh meta token req =
     run_search gb je (\<lambda>w. sh_ReverseGeocode sh meta (token w) (reverse_query req) w)"

text \<open>\<open>json.Unmarshal\<close> of the raw request; without one there is no JSON to decode.\<close>

definition dec_req :: "'q decoder \<Rightarrow> 'q \<Rightarrow> json option \<Rightarrow> 'q option" where
  "dec_req d zero raw = (case raw of None \<Rightarrow> None | Some v \<Rightarrow> d v zero)"

definition NewSearchProcessFn ::
  "'w searcher \<Rightarrow> ('w \<Rightarrow> string) \<Rightarrow> ('b, go_error) gobreaker \<Rightarrow> string \<Rightarrow> Job \<Rightarrow> 'b registry \<times> 'w \<Rightarrow>
     (go_error + json) \<times> 'b registry \<times> 'w" where
  "NewSearchProcessFn sh token gb je job s =
     (case unmarshal (dec_struct envelope_fields) zero_envelope (Payload job) of
        None \<Rightarrow> (Inl (PlainError je), s)
      | Some ev \<Rightarrow>
          if ev_Kind ev = ''search'' then
            (case dec_req dec_search zero_search (ev_Req ev) of
               None \<Rightarrow> (Inl (PlainError je), s)
             | Some req \<Rightarrow> runSearch gb je sh (UserMetadataCtx job) token req s)
          else if ev_Kind ev = ''reverse'' then
            (case dec_req dec_reverse zero_reverse (ev_Req ev) of
               None \<Rightarrow> (Inl (PlainError je), s)
             | Some req \<Rightarrow> runReverseGeocode gb je sh (UserMetadataCtx job) token req s)
          else (Inl (PlainError (''unknown search kind: '' @ ev_Kind ev)), s))"

section \<open>Autocomplete\<close>

text \<open>\<open>Encode\<close> writes the text and a line feed, or nothing when the value cannot be written.\<close>

definition encode_body :: "response \<Rightarrow> json option \<Rightarrow> response" where
  "encode_body w v = (case v of Some j \<Rightarrow> write_body w (print_json j @ [CHR 0x0A]) | None \<Rightarrow> w)"

definition Autocomplete ::
  "swlib \<Rightarrow> 'w searcher \<Rightarrow> ('w \<Rightarrow> string) \<Rightarrow> ('b, go_error) gobreaker \<Rightarrow> (string \<Rightarrow> json scanned) \<Rightarrow>
     ('b registry \<times> 'w) handler" where
  "Autocomplete lib sh token gb scan r w s =
     (case getClaims lib (r_ctx r) of
        (Some c, True) \<Rightarrow>
          (case decode_body (scan_as dec_autocomplete zero_autocomplete scan) (r_body r) of
             Decoded req \<Rightarrow>
               (case guarded_search gb (\<lambda>x. sh_Autocomplete sh [] (token x) (autocomplete_query req) x) s of
                  (Inl e, s') \<Rightarrow> (http_error w ''internal error'' 500, s')
                | (Inr items, s') \<Rightarrow>
                    (encode_body (set_header w ''Content-Type'' ''application/json'') (enc_items items), s'))
           | _ \<Rightarrow> (http_error w ''invalid request body'' 400, s))
      | _ \<Rightarrow> (http_error w ''unauthorized'' 401, s))"

section \<open>What decoding yields\<close>

definition int32_ok :: "int \<Rightarrow> bool" where "int32_ok i \<longleftrightarrow> int32_min \<le> i \<and> i \<le> int32_max"

definition scoord_ok :: "SearchCoord \<Rightarrow> bool" where
  "scoord_ok c \<longleftrightarrow> finite64 (sd_Lat c) \<and> finite64 (sd_Lon c)"

definition bbox_ok :: "SearchBBox \<Rightarrow> bool" where
  "bbox_ok b \<longleftrightarrow> scoord_ok (sb_BottomLeft b) \<and> scoord_ok (sb_TopRight b)"

definition search_ok :: "SearchRequest \<Rightarrow> bool" where
  "search_ok q \<longleftrightarrow> bbox_ok (sq_Viewport q) \<and> pred_option scoord_ok (sq_FocusPoint q) \<and> int32_ok (sq_Size q)"

definition reverse_ok :: "ReverseGeocodeRequest \<Rightarrow> bool" where
  "reverse_ok q \<longleftrightarrow> finite64 (gq_Lat q) \<and> finite64 (gq_Lon q) \<and> int32_ok (gq_Size q)"

definition autocomplete_ok :: "AutocompleteRequest \<Rightarrow> bool" where
  "autocomplete_ok q \<longleftrightarrow> scoord_ok (aq_FocusPoint q) \<and> int32_ok (aq_Size q)"

lemma int32_range: "int32_min \<le> i \<and> i \<le> int32_max \<longleftrightarrow> int32_ok i"
  by (simp add: int32_ok_def)

interpretation int32: codec dec_int32 0 int32_ok enc_int
  using int32_codec.codec_axioms unfolding int32_range .

interpretation scoord_codec: codec "dec_struct scoord_fields" zero_scoord scoord_ok enc_scoord
proof unfold_locales
  show "scoord_ok y" if "dec_struct scoord_fields v x = Some y" "scoord_ok x" for v x y
    using that by (rule struct_ok[rotated]) (auto simp: scoord_fields_def fld_def scoord_ok_def dest: dec_f64_ok)
  show "\<exists>j. enc_scoord x = Some j \<and> wf_json j \<and> j \<noteq> JNull \<and> dec_struct scoord_fields j zero_scoord = Some x"
    if "scoord_ok x" for x
    using that f64_codec.read_written[of "sd_Lat x"] f64_codec.read_written[of "sd_Lon x"]
    by (auto simp: scoord_ok_def enc_scoord_def dec_struct_def scoord_fields_def fld_def find_field_def zero_scoord_def)
qed (simp add: scoord_ok_def zero_scoord_def)

interpretation bbox_codec: codec "dec_struct bbox_fields" zero_bbox bbox_ok enc_box
proof unfold_locales
  show "bbox_ok y" if "dec_struct bbox_fields v x = Some y" "bbox_ok x" for v x y
    using that by (rule struct_ok[rotated]) (auto simp: bbox_fields_def fld_def bbox_ok_def dest: scoord_codec.read_ok)
  show "\<exists>j. enc_box x = Some j \<and> wf_json j \<and> j \<noteq> JNull \<and> dec_struct bbox_fields j zero_bbox = Some x"
    if "bbox_ok x" for x
    using that scoord_codec.read_written[of "sb_BottomLeft x"] scoord_codec.read_written[of "sb_TopRight x"]
    by (auto simp: bbox_ok_def enc_box_def dec_struct_obj bbox_fields_def fld_def find_field_def zero_bbox_def)
qed (simp add: bbox_ok_def zero_bbox_def scoord_codec.zero_ok)

interpretation reverse_codec: codec dec_reverse zero_reverse reverse_ok enc_reverse
proof unfold_locales
  show "reverse_ok y" if "dec_reverse v x = Some y" "reverse_ok x" for v x y
    using that
    by (rule struct_ok[rotated]) (auto simp: reverse_fields_def fld_def reverse_ok_def dest: dec_f64_ok int32.read_ok)
  show "\<exists>j. enc_reverse x = Some j \<and> wf_json j \<and> j \<noteq> JNull \<and> dec_reverse j zero_reverse = Some x"
    if "reverse_ok x" for x
    using that f64_codec.read_written[of "gq_Lat x"] f64_codec.read_written[of "gq_Lon x"] int32.read_written[of "gq_Size x"]
    by (auto simp: reverse_ok_def enc_reverse_def dec_struct_def reverse_fields_def fld_def find_field_def
        zero_reverse_def enc_string_def)
qed (simp add: reverse_ok_def zero_reverse_def int32.zero_ok)

lemma search_names:
  "map_of search_fields ''text'' = Some (snd (fld ''text'' sq_Text sq_Text_update dec_string))"
  "map_of search_fields ''viewport'' = Some (snd (fld ''viewport'' sq_Viewport sq_Viewport_update (dec_struct bbox_fields)))"
  "map_of search_fields ''focusPoint'' = Some (snd (fld ''focusPoint'' sq_FocusPoint sq_FocusPoint_update
     (dec_ptr (dec_struct scoord_fields) zero_scoord)))"
  "map_of search_fields ''size'' = Some (snd (fld ''size'' sq_Size sq_Size_update dec_int32))"
  "map_of search_fields ''language'' = Some (snd (fld ''language'' sq_Language sq_Language_update dec_string))"
  by (simp_all add: search_fields_def fld_def)

interpretation search_codec: codec dec_search zero_search search_ok enc_search
proof unfold_locales
  show "search_ok y" if "dec_search v x = Some y" "search_ok x" for v x y
    using that
    by (rule struct_ok[rotated])
      (auto simp: search_fields_def fld_def search_ok_def dest: bbox_codec.read_ok int32.read_ok scoord_codec.ptr_ok)
  show "\<exists>j. enc_search x = Some j \<and> wf_json j \<and> j \<noteq> JNull \<and> dec_search j zero_search = Some x" if "search_ok x" for x
  proof -
    have ok: "bbox_ok (sq_Viewport x)" "pred_option scoord_ok (sq_FocusPoint x)" "int32_ok (sq_Size x)"
      using that by (auto simp: search_ok_def)
    let ?z1 = "zero_search\<lparr>sq_Text := sq_Text x\<rparr>"
    let ?z2 = "?z1\<lparr>sq_Viewport := sq_Viewport x\<rparr>"
    let ?z3 = "?z2\<lparr>sq_FocusPoint := sq_FocusPoint x\<rparr>"
    let ?z4 = "?z3\<lparr>sq_Size := sq_Size x\<rparr>"
    let ?z5 = "?z4\<lparr>sq_Language := sq_Language x\<rparr>"
    have a: "reads search_fields [(''text'', enc_string (sq_Text x))] zero_search ?z1"
      by (intro reads_field[OF search_names(1)]) (simp add: enc_string_def)
    have b: "reads search_fields [(''viewport'', enc_box (sq_Viewport x))] ?z1 ?z2"
      using bbox_codec.read_written[OF ok(1)] by (intro reads_field[OF search_names(2)]) (simp add: zero_search_def)
    have c: "reads search_fields (opt_member ''focusPoint'' enc_scoord (sq_FocusPoint x)) ?z2 ?z3"
    proof (cases "sq_FocusPoint x")
      case None
      then show ?thesis by (simp add: opt_member_def reads_nil zero_search_def)
    next
      case (Some p)
      then have "scoord_ok p" using ok(2) by simp
      from scoord_codec.ptr_written[OF this] Some
      have "reads search_fields [(''focusPoint'', enc_scoord p)] ?z2 (?z2\<lparr>sq_FocusPoint := Some p\<rparr>)"
        by (intro reads_field[OF search_names(3)]) (simp add: zero_search_def)
      then show ?thesis using Some by (simp add: opt_member_def)
    qed
    have d: "reads search_fields [(''size'', enc_int (sq_Size x))] ?z3 ?z4"
      using int32.read_written[OF ok(3)] by (intro reads_field[OF search_names(4)]) (simp add: zero_search_def)
    have e: "reads search_fields [(''language'', enc_string (sq_Language x))] ?z4 ?z5"
      by (intro reads_field[OF search_names(5)]) (simp add: enc_string_def)
    have z: "?z5 = x" by (simp add: zero_search_def)
    show ?thesis
      using reads_obj[OF reads_append[OF a reads_append[OF b reads_append[OF c reads_append[OF d e[unfolded z]]]]]]
      unfolding enc_search_def by simp
  qed
qed (simp add: search_ok_def zero_search_def bbox_codec.zero_ok int32.zero_ok)

interpretation autocomplete_decoder: typed_decoder dec_autocomplete zero_autocomplete autocomplete_ok
proof unfold_locales
  show "autocomplete_ok y" if "dec_autocomplete v x = Some y" "autocomplete_ok x" for v x y
    using that
    by (rule struct_ok[rotated])
      (auto simp: autocomplete_fields_def fld_def autocomplete_ok_def dest: scoord_codec.read_ok int32.read_ok)
qed (simp add: autocomplete_ok_def zero_autocomplete_def scoord_codec.zero_ok int32.zero_ok)

lemma payload_read:
  assumes "codec d zero ok e" and "ok q"
  shows "\<exists>t j. marshal (enc_payload kind e) q = Some t \<and> d j zero = Some q \<and>
    unmarshal (dec_struct envelope_fields) zero_envelope t = Some \<lparr>ev_Kind = kind, ev_Req = Some j\<rparr>"
proof -
  from codec.read_written[OF assms] obtain j where j: "e q = Some j" "wf_json j" "d j zero = Some q" by blast
  then have p: "enc_payload kind e q = Some (JObj [(''kind'', JStr kind), (''req'', j)])"
    by (simp add: enc_payload_def enc_string_def)
  have "wf_json (JObj [(''kind'', JStr kind), (''req'', j)])" using j by simp
  from parse_print_json[OF this] p j show ?thesis
    by (simp add: marshal_def unmarshal_def dec_struct_def envelope_fields_def fld_def find_field_def zero_envelope_def
        dec_raw_def)
qed

lemma guarded_search_cases:
  "guarded_search gb ask (reg, w) =
     (case registry_rejects gb ''searchservice'' reg of
        Some e \<Rightarrow> (Inl e, registry_books gb ''searchservice'' reg False, w)
      | None \<Rightarrow>
          (case ask w of
             (Inl err, w') \<Rightarrow> (Inl err, registry_books gb ''searchservice'' reg False, w')
           | (Inr results, w') \<Rightarrow> (Inr (Some (toSearchItems results)), registry_books gb ''searchservice'' reg True, w')))"
proof (cases "registry_rejects gb ''searchservice'' reg")
  case None
  show ?thesis
    by (simp add: guarded_search_def registry.accepted None search_closure_def split: prod.split sum.split)
qed (simp add: guarded_search_def registry.rejected)

lemma enc_items_None:
  "enc_items (Some items) = None \<longleftrightarrow>
     list_ex (\<lambda>i. not_finite (it_Confidence i) \<or> not_finite (it_Lat i) \<or> not_finite (it_Lon i)) items"
proof -
  have "enc_item i = None \<longleftrightarrow> not_finite (it_Confidence i) \<or> not_finite (it_Lat i) \<or> not_finite (it_Lon i)" for i
    unfolding enc_item_def by (simp only: enc_parts)
  then show ?thesis by (simp add: enc_items_def enc_list_None)
qed

section \<open>Properties\<close>

text \<open>
  (C7) The search service is asked for exactly what the client's body says, by the right one
  of its calls although both kinds of jobs share a stream: a body that decodes to a search
  is enqueued with a payload that the worker, whatever job carries it, turns into the search
  of that very request under the job's user metadata and the gateway's token, and likewise
  for reverse geocoding; a payload of any other kind is an error that asks nothing.
\<close>

theorem search_worker_asks_what_was_requested:
  "(case decode_body (scan_as dec_search zero_search scan) (r_body r) of
      Decoded q \<Rightarrow>
        (case marshal (enc_payload ''search'' enc_search) q of
           None \<Rightarrow> False
         | Some payload \<Rightarrow>
             Search lib env scan r w s =
               (case handler_claims lib r of
                  None \<Rightarrow> (http_error w ''unauthorized'' 401, s)
                | Some c \<Rightarrow> enqueue_and_wait env StreamSearch c payload w s) \<and>
             NewSearchProcessFn sh token gb je (job\<lparr>Payload := payload\<rparr>) v =
               run_search gb je (\<lambda>x. sh_Search sh (UserMetadataCtx job) (token x) (search_query q) x) v)
    | _ \<Rightarrow> True) \<and>
   (case decode_body (scan_as dec_reverse zero_reverse scan) (r_body r) of
      Decoded q \<Rightarrow>
        (case marshal (enc_payload ''reverse'' enc_reverse) q of
           None \<Rightarrow> False
         | Some payload \<Rightarrow>
             ReverseGeocode lib env scan r w s =
               (case handler_claims lib r of
                  None \<Rightarrow> (http_error w ''unauthorized'' 401, s)
                | Some c \<Rightarrow> enqueue_and_wait env StreamSearch c payload w s) \<and>
             NewSearchProcessFn sh token gb je (job\<lparr>Payload := payload\<rparr>) v =
               run_search gb je (\<lambda>x. sh_ReverseGeocode sh (UserMetadataCtx job) (token x) (reverse_query q) x) v)
    | _ \<Rightarrow> True) \<and>
   (case unmarshal (dec_struct envelope_fields) zero_envelope (Payload job) of
      None \<Rightarrow> NewSearchProcessFn sh token gb je job v = (Inl (PlainError je), v)
    | Some ev \<Rightarrow>
        ev_Kind ev \<in> {''search'', ''reverse''} \<or>
        NewSearchProcessFn sh token gb je job v = (Inl (PlainError (''unknown search kind: '' @ ev_Kind ev)), v))"
proof -
  have m: "UserMetadataCtx (job\<lparr>Payload := p\<rparr>) = UserMetadataCtx job" for p
    by (simp add: UserMetadataCtx_def)
  obtain co ok where c: "getClaims lib (r_ctx r) = (co, ok)" by fastforce
  have s: "\<exists>t j. marshal (enc_payload ''search'' enc_search) q = Some t \<and> dec_search j zero_search = Some q \<and>
      unmarshal (dec_struct envelope_fields) zero_envelope t = Some \<lparr>ev_Kind = ''search'', ev_Req = Some j\<rparr>"
    if "decode_body (scan_as dec_search zero_search scan) (r_body r) = Decoded q" for q
    using payload_read[OF search_codec.codec_axioms] decoded_scan[OF search_codec.typed_decoder_axioms that] by blast
  have g: "\<exists>t j. marshal (enc_payload ''reverse'' enc_reverse) q = Some t \<and> dec_reverse j zero_reverse = Some q \<and>
      unmarshal (dec_struct envelope_fields) zero_envelope t = Some \<lparr>ev_Kind = ''reverse'', ev_Req = Some j\<rparr>"
    if "decode_body (scan_as dec_reverse zero_reverse scan) (r_body r) = Decoded q" for q
    using payload_read[OF reverse_codec.codec_axioms] decoded_scan[OF reverse_codec.typed_decoder_axioms that] by blast
  have h: "(case decode_body (scan_as dec_search zero_search scan) (r_body r) of
      Decoded q \<Rightarrow>
        (case marshal (enc_payload ''search'' enc_search) q of
           None \<Rightarrow> False
         | Some payload \<Rightarrow>
             Search lib env scan r w s =
               (case handler_claims lib r of
                  None \<Rightarrow> (http_error w ''unauthorized'' 401, s)
                | Some c \<Rightarrow> enqueue_and_wait env StreamSearch c payload w s) \<and>
             NewSearchProcessFn sh token gb je (job\<lparr>Payload := payload\<rparr>) v =
               run_search gb je (\<lambda>x. sh_Search sh (UserMetadataCtx job) (token x) (search_query q) x) v)
    | _ \<Rightarrow> True)"
    using s by (cases co; cases ok)
      (fastforce simp: Search_def enqueueAndStream_def handler_claims_def c NewSearchProcessFn_def m runSearch_def
         dec_req_def split: decoded.split option.split)+
  have "(case decode_body (scan_as dec_reverse zero_reverse scan) (r_body r) of
      Decoded q \<Rightarrow>
        (case marshal (enc_payload ''reverse'' enc_reverse) q of
           None \<Rightarrow> False
         | Some payload \<Rightarrow>
             ReverseGeocode lib env scan r w s =
               (case handler_claims lib r of
                  None \<Rightarrow> (http_error w ''unauthorized'' 401, s)
                | Some c \<Rightarrow> enqueue_and_wait env StreamSearch c payload w s) \<and>
             NewSearchProcessFn sh token gb je (job\<lparr>Payload := payload\<rparr>) v =
               run_search gb je (\<lambda>x. sh_ReverseGeocode sh (UserMetadataCtx job) (token x) (reverse_query q) x) v)
    | _ \<Rightarrow> True)"
    using g by (cases co; cases ok)
      (fastforce simp: ReverseGeocode_def enqueueAndStream_def handler_claims_def c NewSearchProcessFn_def m
         runReverseGeocode_def dec_req_def split: decoded.split option.split)+
  then show ?thesis
    using h by (auto simp: NewSearchProcessFn_def split: option.split)
qed

text \<open>
  Every answer of the autocomplete endpoint: 401 without claims, 400 for a body that does
  not decode, one that is too large included, 500 for an error of the service or a rejection
  by its breaker, which leaves the service unasked, and otherwise the service's results as one
  JSON array; results with a number that is not finite leave the body empty.
\<close>

theorem autocomplete_answers:
  "Autocomplete lib sh token gb scan r w (reg, x) =
     (case handler_claims lib r of
        None \<Rightarrow> (http_error w ''unauthorized'' 401, reg, x)
      | Some c \<Rightarrow>
          (case decode_body (scan_as dec_autocomplete zero_autocomplete scan) (r_body r) of
             Decoded q \<Rightarrow>
               (case registry_rejects gb ''searchservice'' reg of
                  Some e \<Rightarrow> (http_error w ''internal error'' 500, registry_books gb ''searchservice'' reg False, x)
                | None \<Rightarrow>
                    (case sh_Autocomplete sh [] (token x) (autocomplete_query q) x of
                       (Inl err, x') \<Rightarrow> (http_error w ''internal error'' 500, registry_books gb ''searchservice'' reg False, x')
                     | (Inr results, x') \<Rightarrow>
                         (if list_ex (\<lambda>s. not_finite (si_confidence s) \<or> not_finite (si_lat s) \<or> not_finite (si_lon s)) results
                          then set_header w ''Content-Type'' ''application/json''
                          else write_body (set_header w ''Content-Type'' ''application/json'')
                                 (print_json (the (enc_list enc_item (map toSearchItem results))) @ [CHR 0x0A]),
                          registry_books gb ''searchservice'' reg True, x')))
           | TooLarge \<Rightarrow> (http_error w ''invalid request body'' 400, reg, x)
           | Invalid \<Rightarrow> (http_error w ''invalid request body'' 400, reg, x)))"
proof -
  obtain co ok where c: "getClaims lib (r_ctx r) = (co, ok)" by fastforce
  have e: "encode_body w' (enc_items (Some (toSearchItems results))) =
      (if list_ex (\<lambda>s. not_finite (si_confidence s) \<or> not_finite (si_lat s) \<or> not_finite (si_lon s)) results then w'
       else write_body w' (print_json (the (enc_list enc_item (map toSearchItem results))) @ [CHR 0x0A]))" for w' results
  proof -
    have "list_ex (\<lambda>i. not_finite (it_Confidence i) \<or> not_finite (it_Lat i) \<or> not_finite (it_Lon i)) (toSearchItems results) =
        list_ex (\<lambda>s. not_finite (si_confidence s) \<or> not_finite (si_lat s) \<or> not_finite (si_lon s)) results"
      by (simp add: toSearchItems_def list_ex_iff toSearchItem_def)
    then show ?thesis
      using enc_items_None[of "toSearchItems results"]
      by (cases "enc_items (Some (toSearchItems results))") (auto simp: encode_body_def enc_items_def toSearchItems_def)
  qed
  show ?thesis
    by (cases co; cases ok)
      (simp_all add: Autocomplete_def handler_claims_def c guarded_search_cases e split: decoded.split option.split
         prod.split sum.split)
qed

end
