(* ===== verification/Region_Handlers.thy ===== *)
theory Region_Handlers
  imports Route_Requests Auth_Handlers
begin

text \<open>
  The region endpoints of \<open>internal/handlers/region.go\<close>.  The region client is a record of the
  methods of \<open>RegionClient\<close>; regions and crossings are the client's types and come as their
  JSON.  The anonymous coordinate structs have the fields of \<open>RouteCoord\<close>.
\<close>

section \<open>The client\<close>

datatype crossing_config =
    BorderCrossingSimpleConfig "string list" float64 float64
  | BorderCrossingAdvancedConfig "(string list \<times> float64 \<times> float64) list"

record region_box =
  gb_BottomLeft :: Coordinate
  gb_TopRight :: Coordinate

record 'w RegionClient =
  rg_SearchPoint :: "string \<Rightarrow> Coordinate \<Rightarrow> bool \<Rightarrow> 'w \<Rightarrow> (go_error + json) \<times> 'w"
  rg_SearchBox :: "string \<Rightarrow> region_box \<Rightarrow> bool \<Rightarrow> 'w \<Rightarrow> (go_error + json) \<times> 'w"
  rg_SearchRadius :: "string \<Rightarrow> Coordinate \<Rightarrow> float64 \<Rightarrow> bool \<Rightarrow> 'w \<Rightarrow> (go_error + json) \<times> 'w"
  rg_FindCrossingLocations ::
    "string \<Rightarrow> string \<Rightarrow> string \<Rightarrow> Coordinate \<Rightarrow> Coordinate \<Rightarrow> crossing_config \<Rightarrow> int \<Rightarrow> 'w \<Rightarrow> (go_error + json) \<times> 'w"
  rg_FindRegionPath :: "string \<Rightarrow> string \<Rightarrow> string \<Rightarrow> 'w \<Rightarrow> (go_error + string list option) \<times> 'w"
  rg_FindRouteRegionPaths ::
    "string \<Rightarrow> Coordinate list \<Rightarrow> float64 \<Rightarrow> 'w \<Rightarrow> (go_error + string list option list option) \<times> 'w"

definition geo :: "RouteCoord \<Rightarrow> Coordinate" where
  "geo c = \<lparr>co_Latitude = rc_Lat c, co_Longitude = rc_Lon c\<rparr>"

section \<open>Requests\<close>

record point_request =
  pq_Location :: RouteCoord
  pq_IncludeExtended :: bool

record box_corners =
  bc_BottomLeft :: RouteCoord
  bc_TopRight :: RouteCoord

record box_request =
  bq_Box :: box_corners
  bq_IncludeExtended :: bool

record radius_request =
  dq_Location :: RouteCoord
  dq_RadiusKm :: float64
  dq_IncludeExtended :: bool

record crossing_options =
  xo_Type :: string
  xo_RoadTypeOrder :: "string list"
  xo_RoadTypeDelta :: float64
  xo_DropDistance :: float64

record crossing_request =
  xq_FromRegion :: string
  xq_ToRegion :: string
  xq_FromLoc :: RouteCoord
  xq_ToLoc :: RouteCoord
  xq_Limit :: int
  xq_Config :: crossing_options

record paths_request =
  hq_Waypoints :: "RouteCoord list"
  hq_WidthKm :: float64

definition dec_point :: "point_request decoder" where
  "dec_point = dec_struct
     [fld ''location'' pq_Location pq_Location_update (dec_struct coord_fields),
      fld ''include_extended'' pq_IncludeExtended pq_IncludeExtended_update dec_bool]"

definition dec_corners :: "box_corners decoder" where
  "dec_corners = dec_struct
     [fld ''bottom_left'' bc_BottomLeft bc_BottomLeft_update (dec_struct coord_fields),
      fld ''top_right'' bc_TopRight bc_TopRight_update (dec_struct coord_fields)]"

definition dec_box :: "box_request decoder" where
  "dec_box = dec_struct
     [fld ''box'' bq_Box bq_Box_update dec_corners,
      fld ''include_extended'' bq_IncludeExtended bq_IncludeExtended_update dec_bool]"

definition dec_radius :: "radius_request decoder" where
  "dec_radius = dec_struct
     [fld ''location'' dq_Location dq_Location_update (dec_struct coord_fields),
      fld ''radius_km'' dq_RadiusKm dq_RadiusKm_update dec_f64,
      fld ''include_extended'' dq_IncludeExtended dq_IncludeExtended_update dec_bool]"

definition dec_crossing_options :: "crossing_options decoder" where
  "dec_crossing_options = dec_struct
     [fld ''type'' xo_Type xo_Type_update dec_string,
      fld ''road_type_order'' xo_RoadTypeOrder xo_RoadTypeOrder_update (dec_slice dec_string []),
      fld ''road_type_delta'' xo_RoadTypeDelta xo_RoadTypeDelta_update dec_f64,
      fld ''drop_distance'' xo_DropDistance xo_DropDistance_update dec_f64]"

definition dec_crossing :: "crossing_request decoder" where
  "dec_crossing = dec_struct
     [fld ''from_region'' xq_FromRegion xq_FromRegion_update dec_string,
      fld ''to_region'' xq_ToRegion xq_ToRegion_update dec_string,
      fld ''from_location'' xq_FromLoc xq_FromLoc_update (dec_struct coord_fields),
      fld ''to_location'' xq_ToLoc xq_ToLoc_update (dec_struct coord_fields),
      fld ''limit'' xq_Limit xq_Limit_update dec_int64,
      fld ''config'' xq_Config xq_Config_update dec_crossing_options]"

definition dec_paths :: "paths_request decoder" where
  "dec_paths = dec_struct
     [fld ''waypoints'' hq_Waypoints hq_Waypoints_update (dec_slice (dec_struct coord_fields) zero_coord),
      fld ''width_km'' hq_WidthKm hq_WidthKm_update dec_f64]"

definition zero_point :: point_request where
  "zero_point = \<lparr>pq_Location = zero_coord, pq_IncludeExtended = False\<rparr>"

definition zero_box :: box_request where
  "zero_box = \<lparr>bq_Box = \<lparr>bc_BottomLeft = zero_coord, bc_TopRight = zero_coord\<rparr>, bq_IncludeExtended = False\<rparr>"

definition zero_radius :: radius_request where
  "zero_radius = \<lparr>dq_Location = zero_coord, dq_RadiusKm = f64_zero, dq_IncludeExtended = False\<rparr>"

definition zero_crossing :: crossing_request where
  "zero_crossing = \<lparr>xq_FromRegion = [], xq_ToRegion = [], xq_FromLoc = zero_coord, xq_ToLoc = zero_coord, xq_Limit = 0,
     xq_Config = \<lparr>xo_Type = [], xo_RoadTypeOrder = [], xo_RoadTypeDelta = f64_zero, xo_DropDistance = f64_zero\<rparr>\<rparr>"

definition zero_paths :: paths_request where
  "zero_paths = \<lparr>hq_Waypoints = [], hq_WidthKm = f64_zero\<rparr>"

section \<open>The handlers\<close>

text \<open>\<open>decodeBody\<close> into the handler's own struct.\<close>

definition with_request ::
  "(string \<Rightarrow> json scanned) \<Rightarrow> 'q decoder \<Rightarrow> 'q \<Rightarrow> request \<Rightarrow> response \<Rightarrow> 's \<Rightarrow> ('q \<Rightarrow> 's outcome) \<Rightarrow> 's outcome" where
  "with_request scan d zero = with_body scan (\<lambda>v. d v zero)"

definition SearchPoint :: "'w RegionClient \<Rightarrow> ('w \<Rightarrow> string) \<Rightarrow> (string \<Rightarrow> json scanned) \<Rightarrow> 'w handler" where
  "SearchPoint c token scan r w s =
     with_request scan dec_point zero_point r w s (\<lambda>req.
       with_call w (rg_SearchPoint c (token s) (geo (pq_Location req)) (pq_IncludeExtended req) s) (writeJSON w 200))"

definition SearchBox :: "'w RegionClient \<Rightarrow> ('w \<Rightarrow> string) \<Rightarrow> (string \<Rightarrow> json scanned) \<Rightarrow> 'w handler" where
  "SearchBox c token scan r w s =
     with_request scan dec_box zero_box r w s (\<lambda>req.
       with_call w
         (rg_SearchBox c (token s)
            \<lparr>gb_BottomLeft = geo (bc_BottomLeft (bq_Box req)), gb_TopRight = geo (bc_TopRight (bq_Box req))\<rparr>
            (bq_IncludeExtended req) s)
         (writeJSON w 200))"

definition SearchRadius :: "'w RegionClient \<Rightarrow> ('w \<Rightarrow> string) \<Rightarrow> (string \<Rightarrow> json scanned) \<Rightarrow> 'w handler" where
  "SearchRadius c token scan r w s =
     with_request scan dec_radius zero_radius r w s (\<lambda>req.
       with_call w
         (rg_SearchRadius c (token s) (geo (dq_Location req)) (dq_RadiusKm req) (dq_IncludeExtended req) s)
         (writeJSON w 200))"

definition buildCrossingConfig :: "string \<Rightarrow> string list \<Rightarrow> float64 \<Rightarrow> float64 \<Rightarrow> crossing_config" where
  "buildCrossingConfig typ roadTypes delta dropDist =
     (let rts = map to_lower roadTypes
      in if typ = ''advanced'' then BorderCrossingAdvancedConfig [(rts, delta, dropDist)]
         else BorderCrossingSimpleConfig rts delta dropDist)"

definition FindCrossingLocations :: "'w RegionClient \<Rightarrow> ('w \<Rightarrow> string) \<Rightarrow> (string \<Rightarrow> json scanned) \<Rightarrow> 'w handler" where
  "FindCrossingLocations c token scan r w s =
     with_request scan dec_crossing zero_crossing r w s (\<lambda>req.
       let cfg = buildCrossingConfig (xo_Type (xq_Config req)) (xo_RoadTypeOrder (xq_Config req))
                   (xo_RoadTypeDelta (xq_Config req)) (xo_DropDistance (xq_Config req))
       in with_call w
            (rg_FindCrossingLocations c (token s) (xq_FromRegion req) (xq_ToRegion req) (geo (xq_FromLoc req))
               (geo (xq_ToLoc req)) cfg (xq_Limit req) s)
            (writeJSON w 200))"

definition FindRegionPath :: "'w RegionClient \<Rightarrow> ('w \<Rightarrow> string) \<Rightarrow> (string \<Rightarrow> json scanned) \<Rightarrow> 'w handler" where
  "FindRegionPath c token scan r w s =
     with_body scan (str_fields [''from_region'', ''to_region'']) r w s (\<lambda>f.
       with_call w (rg_FindRegionPath c (token s) (f ! 0) (f ! 1) s)
         (\<lambda>path. writeJSON w 200 (JObj [(''path'', strings_json path)])))"

definition paths_json :: "string list option list option \<Rightarrow> json" where
  "paths_json paths = (case paths of None \<Rightarrow> JNull | Some ps \<Rightarrow> JArr (map strings_json ps))"

definition FindRouteRegionPaths :: "'w RegionClient \<Rightarrow> ('w \<Rightarrow> string) \<Rightarrow> (string \<Rightarrow> json scanned) \<Rightarrow> 'w handler" where
  "FindRouteRegionPaths c token scan r w s =
     with_request scan dec_paths zero_paths r w s (\<lambda>req.
       with_call w
         (rg_FindRouteRegionPaths c (token s) (map geo (hq_Waypoints req)) (hq_WidthKm req) s)
         (\<lambda>paths. writeJSON w 200 (JObj [(''paths'', paths_json paths)])))"

definition region_handlers :: "'w RegionClient \<Rightarrow> ('w \<Rightarrow> string) \<Rightarrow> (string \<Rightarrow> json scanned) \<Rightarrow> 'w handler list" where
  "region_handlers c token scan =
     [SearchPoint c token scan, SearchBox c token scan, SearchRadius c token scan,
      FindCrossingLocations c token scan, FindRegionPath c token scan, FindRouteRegionPaths c token scan]"

section \<open>Properties\<close>

lemma lower_char_twice: "lower_char (lower_char c) = lower_char c"
  by (simp add: lower_char_def Let_def)

lemma to_lower_twice: "to_lower (to_lower s) = to_lower s"
  by (simp add: to_lower_def lower_char_twice)

text \<open>A configuration as the handler writes it: one definition at most, its road types in lower case.\<close>

fun plain_config :: "crossing_config \<Rightarrow> bool" where
  "plain_config (BorderCrossingSimpleConfig rts x y) = (map to_lower rts = rts)"
| "plain_config (BorderCrossingAdvancedConfig [(rts, x, y)]) = (map to_lower rts = rts)"
| "plain_config (BorderCrossingAdvancedConfig ds) = False"

lemma buildCrossingConfig_plain: "plain_config (buildCrossingConfig typ rts d x)"
  by (simp add: buildCrossingConfig_def Let_def to_lower_twice)

text \<open>Two region services that answer alike what is asked under a token.\<close>

definition region_agree :: "string \<Rightarrow> 'w RegionClient \<Rightarrow> 'w RegionClient \<Rightarrow> bool" where
  "region_agree t c c' \<longleftrightarrow>
     rg_SearchPoint c t = rg_SearchPoint c' t \<and> rg_SearchBox c t = rg_SearchBox c' t \<and>
     rg_SearchRadius c t = rg_SearchRadius c' t \<and>
     (\<forall>f u p q cfg. plain_config cfg \<longrightarrow>
        rg_FindCrossingLocations c t f u p q cfg = rg_FindCrossingLocations c' t f u p q cfg) \<and>
     rg_FindRegionPath c t = rg_FindRegionPath c' t \<and> rg_FindRouteRegionPaths c t = rg_FindRouteRegionPaths c' t"

lemma with_body_same: "r_body r = r_body r' \<Longrightarrow> with_body scan d r w s k = with_body scan d r' w s k"
  by (simp add: with_body_def decodeBody_def)

lemma region_handler_uses_token:
  assumes "region_agree (token s) c c'" and "r_body r = r_body r'" and "n < length (region_handlers c token scan)"
  shows "(region_handlers c token scan ! n) r w s = (region_handlers c' token scan ! n) r' w s"
proof -
  note body = with_body_same[OF assms(2)]
  have "SearchPoint c token scan r w s = SearchPoint c' token scan r' w s"
    "SearchBox c token scan r w s = SearchBox c' token scan r' w s"
    "SearchRadius c token scan r w s = SearchRadius c' token scan r' w s"
    "FindRegionPath c token scan r w s = FindRegionPath c' token scan r' w s"
    "FindRouteRegionPaths c token scan r w s = FindRouteRegionPaths c' token scan r' w s"
    using assms(1)
    by (simp_all add: SearchPoint_def SearchBox_def SearchRadius_def FindRegionPath_def FindRouteRegionPaths_def
        with_request_def region_agree_def body)
  moreover have "FindCrossingLocations c token scan r w s = FindCrossingLocations c' token scan r' w s"
    using assms(1) buildCrossingConfig_plain
    by (simp add: FindCrossingLocations_def with_request_def region_agree_def Let_def body)
  ultimately show ?thesis
    using assms(3) by (auto simp: region_handlers_def less_Suc_eq nth_Cons')
qed

text \<open>
  (C19) The region endpoints behind the authentication and the guard for verified users:
  without a verified user's token nothing is asked of the service; with one, the service is
  asked under the gateway's own token and with what the body says only.  Any other request
  with that body gets the same answer, and so does a service that merely agrees under the
  gateway's token and on crossing configurations with one definition and lower-case road types.
\<close>

theorem region_asks_under_the_gateway_token:
  assumes "n < length (region_handlers c token scan)" and "swlib_context lib"
    and "ctx_value (r_ctx r) ClaimsKey = None"
    and "region_agree (token s) c c'" and "r_body r = r_body r'"
  shows "Auth lib verify trusted (RequireVerifiedUser lib (region_handlers c token scan ! n)) r w s =
    (case proved_claims lib verify r of
       None \<Rightarrow> (http_error w ''unauthorized'' 401, s)
     | Some u \<Rightarrow>
         if verified_email u then (region_handlers c' token scan ! n) r' w s
         else (http_error w ''forbidden: email not verified'' 403, s))"
proof -
  have "(region_handlers c token scan ! n) (with_context r x) w s = (region_handlers c' token scan ! n) r' w s" for x
    using assms(1,4,5) by (intro region_handler_uses_token) (simp_all add: with_context_def)
  then show ?thesis
    by (auto simp: auth_verified.chain.mw_decide decide_then_def auth_decide_def guard_decide_def
        claims_after_auth[OF assms(2,3)] split: option.split)
qed

definition demo_regions :: "string \<Rightarrow> string list RegionClient" where
  "demo_regions other = \<lparr>
     rg_SearchPoint = (\<lambda>t p b n. (Inr JNull, t # n)), rg_SearchBox = (\<lambda>t x b n. (Inr JNull, t # n)),
     rg_SearchRadius = (\<lambda>t p d b n. (Inr JNull, t # n)),
     rg_FindCrossingLocations = (\<lambda>t f g p q cfg k n. (Inr (JArr []), t # n)),
     rg_FindRegionPath = (\<lambda>t f g n. (Inr (Some [f, if t = ''svc'' then g else other]), t # n)),
     rg_FindRouteRegionPaths = (\<lambda>t ps d n. (Inr None, t # n))\<rparr>"

theorem region_asks_under_the_gateway_token_witness:
  "Auth plain_swlib demo_verify demo_trusted (RequireVerifiedUser plain_swlib
     (FindRegionPath (demo_regions ''x'') (\<lambda>s. ''svc'')
        (\<lambda>t. Complete (JObj [(''from_region'', JStr ''be''), (''to_region'', JStr ''nl'')]))))
     (demo_peer ''203.0.113.9:4000'' [(''Authorization'', [''Bearer good''])]) fresh_response [] =
   (writeJSON fresh_response 200 (JObj [(''path'', JArr [JStr ''be'', JStr ''nl''])]), [''svc''])"
proof -
  let ?r = "demo_peer ''203.0.113.9:4000'' [(''Authorization'', [''Bearer good''])]"
  let ?scan = "\<lambda>t. Complete (JObj [(''from_region'', JStr ''be''), (''to_region'', JStr ''nl'')])"
  let ?hs = "\<lambda>c. region_handlers (demo_regions c) (\<lambda>s. ''svc'') ?scan"
  have n: "4 < length (?hs ''x'')" and f: "ctx_value (r_ctx ?r) ClaimsKey = None"
    by (simp_all add: region_handlers_def demo_peer_def ctx_value_def)
  have a: "region_agree ''svc'' (demo_regions ''x'') (demo_regions ''y'')"
    by (simp add: region_agree_def demo_regions_def)
  have p: "case proved_claims plain_swlib demo_verify ?r of Some u \<Rightarrow> verified_email u | None \<Rightarrow> False"
    by code_simp
  have "(?hs ''y'' ! 4) ?r fresh_response [] =
      (writeJSON fresh_response 200 (JObj [(''path'', JArr [JStr ''be'', JStr ''nl''])]), [''svc''])"
    by code_simp
  then show ?thesis
    using p region_asks_under_the_gateway_token[OF n plain_swlib_context f a refl, where verify = demo_verify
        and trusted = demo_trusted and w = fresh_response]
    by (auto simp: region_handlers_def split: option.splits)
qed

end
