(* ===== verification/Configuration.thy ===== *)
theory Configuration
  imports Go_Time
begin

text \<open>
  \<open>internal/config/config.go\<close>: the configuration record and its loading from the
  environment.  The readers of \<open>swlib/env\<close> are an argument; durations are nanoseconds, and
  the product of seconds wraps as Go's 64-bit integers do.
\<close>

record go_env =
  ev_Get :: "string \<Rightarrow> string \<Rightarrow> string"
  ev_GetAsInt :: "string \<Rightarrow> int \<Rightarrow> int"
  ev_GetAsStringArr :: "string \<Rightarrow> string \<Rightarrow> string list"

record Config =
  cf_HTTPPort :: int
  cf_LogLevel :: string
  cf_AuthServiceHost :: string
  cf_AuthServicePort :: int
  cf_AuthServiceWebPort :: int
  cf_AuthServiceWebPathPrefix :: string
  cf_RouterServiceHost :: string
  cf_RouterServicePort :: int
  cf_SearchServiceHost :: string
  cf_SearchServicePort :: int
  cf_RegionServiceHost :: string
  cf_RegionServicePort :: int
  cf_TilesServiceHost :: string
  cf_TilesServicePort :: int
  cf_RedisHost :: string
  cf_RedisPort :: int
  cf_ClientID :: string
  cf_ClientSecret :: string
  cf_RouteWorkerCount :: int
  cf_RerouteWorkerCount :: int
  cf_RerouteQueueMaxDepth :: int
  cf_SearchWorkerCount :: int
  cf_QueueMaxDepth :: int
  cf_ResultTTLSeconds :: int
  cf_RateLimitIPAuth :: int
  cf_RateLimitIPPublic :: int
  cf_RateLimitIPAPI :: int
  cf_RateLimitUserAPI :: int
  cf_RateLimitUserExpensive :: int
  cf_RateLimitUserReroute :: int
  cf_RateLimitUserTiles :: int
  cf_RateLimitDegradeMode :: string
  cf_RateLimitDegradeThreshold :: int
  cf_RateLimitProbeSeconds :: int
  cf_CORSAllowedOrigins :: "string list"
  cf_TrustedProxies :: "string list"
  cf_CookieNamespace :: string
  cf_MaxBodyBytes :: int
  cf_ExtensionRoutesFile :: string
  cf_ServiceTokenRefreshTimeout :: int
  cf_JWTKeysFetchTimeout :: int
  cf_JWTKeysRefreshInterval :: int

definition seconds :: "int \<Rightarrow> int" where
  "seconds n = wrap64 (n * time_second)"

definition Config_Load :: "go_env \<Rightarrow> Config" where
  "Config_Load env = \<lparr>
     cf_HTTPPort = ev_GetAsInt env ''HTTP_PORT'' 8080,
     cf_LogLevel = ev_Get env ''LOG_LEVEL'' ''info'',
     cf_AuthServiceHost = ev_Get env ''AUTHSERVICE_HOST'' ''localhost'',
     cf_AuthServicePort = ev_GetAsInt env ''AUTHSERVICE_PORT'' 8081,
     cf_AuthServiceWebPort = ev_GetAsInt env ''AUTHSERVICE_WEB_PORT'' 8000,
     cf_AuthServiceWebPathPrefix = ev_Get env ''AUTHSERVICE_WEB_PATH_PREFIX'' ''/web'',
     cf_RouterServiceHost = ev_Get env ''ROUTERSERVICE_HOST'' ''localhost'',
     cf_RouterServicePort = ev_GetAsInt env ''ROUTERSERVICE_PORT'' 8081,
     cf_SearchServiceHost = ev_Get env ''SEARCHSERVICE_HOST'' ''localhost'',
     cf_SearchServicePort = ev_GetAsInt env ''SEARCHSERVICE_PORT'' 8081,
     cf_RegionServiceHost = ev_Get env ''REGIONSERVICE_HOST'' ''localhost'',
     cf_RegionServicePort = ev_GetAsInt env ''REGIONSERVICE_PORT'' 8081,
     cf_TilesServiceHost = ev_Get env ''TILESSERVICE_HOST'' ''localhost'',
     cf_TilesServicePort = ev_GetAsInt env ''TILESSERVICE_PORT'' 8080,
     cf_RedisHost = ev_Get env ''REDIS_HOST'' ''localhost'',
     cf_RedisPort = ev_GetAsInt env ''REDIS_PORT'' 6379,
     cf_ClientID = ev_Get env ''SWAYRIDER_API_CLIENT_ID'' '''',
     cf_ClientSecret = ev_Get env ''SWAYRIDER_API_CLIENT_SECRET'' '''',
     cf_RouteWorkerCount = ev_GetAsInt env ''ROUTE_WORKER_COUNT'' 5,
     cf_RerouteWorkerCount = ev_GetAsInt env ''REROUTE_WORKERS'' 2,
     cf_RerouteQueueMaxDepth = ev_GetAsInt env ''REROUTE_QUEUE_MAX_DEPTH'' 100,
     cf_SearchWorkerCount = ev_GetAsInt env ''SEARCH_WORKER_COUNT'' 10,
     cf_QueueMaxDepth = ev_GetAsInt env ''QUEUE_MAX_DEPTH'' 500,
     cf_ResultTTLSeconds = ev_GetAsInt env ''RESULT_TTL_SECONDS'' 300,
     cf_RateLimitIPAuth = ev_GetAsInt env ''RATE_LIMIT_IP_AUTH'' 10,
     cf_RateLimitIPPublic = ev_GetAsInt env ''RATE_LIMIT_IP_PUBLIC'' 600,
     cf_RateLimitIPAPI = ev_GetAsInt env ''RATE_LIMIT_IP_API'' 60,
     cf_RateLimitUserAPI = ev_GetAsInt env ''RATE_LIMIT_USER_API'' 300,
     cf_RateLimitUserExpensive = ev_GetAsInt env ''RATE_LIMIT_USER_EXPENSIVE'' 20,
     cf_RateLimitUserReroute = ev_GetAsInt env ''RATE_LIMIT_USER_REROUTE'' 12,
     cf_RateLimitUserTiles = ev_GetAsInt env ''RATE_LIMIT_USER_TILES'' 3000,
     cf_RateLimitDegradeMode = ev_Get env ''RATE_LIMIT_DEGRADE_MODE'' ''memory'',
     cf_RateLimitDegradeThreshold = ev_GetAsInt env ''RATE_LIMIT_DEGRADE_THRESHOLD'' 3,
     cf_RateLimitProbeSeconds = ev_GetAsInt env ''RATE_LIMIT_REDIS_PROBE_SECONDS'' 15,
     cf_CORSAllowedOrigins = ev_GetAsStringArr env ''CORS_ALLOWED_ORIGINS'' ''http://localhost:5173'',
     cf_TrustedProxies = ev_GetAsStringArr env ''TRUSTED_PROXIES'' '''',
     cf_CookieNamespace = ev_Get env ''COOKIE_NAMESPACE'' ''com.hevanto-it.swayrider'',
     cf_MaxBodyBytes = ev_GetAsInt env ''MAX_BODY_BYTES'' 1048576,
     cf_ExtensionRoutesFile = ev_Get env ''EXTENSION_ROUTES_FILE'' '''',
     cf_ServiceTokenRefreshTimeout = seconds (ev_GetAsInt env ''SERVICE_TOKEN_REFRESH_TIMEOUT'' 15),
     cf_JWTKeysFetchTimeout = seconds (ev_GetAsInt env ''JWT_KEYS_REFRESH_TIMEOUT'' 15),
     cf_JWTKeysRefreshInterval = seconds (ev_GetAsInt env ''JWT_KEYS_REFRESH_INTERVAL'' 300)\<rparr>"

end
