(* ===== verification/Gateway_Start.thy ===== *)
theory Gateway_Start
  imports Configuration Search_Jobs Region_Handlers Admin_Handlers Cookie_Proxy Server_Chain Redis_Limiter Service_Token
begin

text \<open>
  What \<open>cmd/swayrider-api/main.go\<close> and \<open>Server.Run\<close> put together before the gateway listens:
  the extension routes, the breakers, the worker pools and the handler chain, and the endpoints
  behind the names of the route table.  Fatal errors are values.  Reading files, YAML and URLs,
  \<open>mux.Handle\<close> and the CORS library are arguments; connecting, listening and shutting down are
  left out.
\<close>

section \<open>Parts of the configuration\<close>

record redis_options =
  ro_Addr :: string
  ro_DialTimeout :: int
  ro_ReadTimeout :: int
  ro_WriteTimeout :: int
  ro_MaxRetries :: int

definition redis_client_options :: "Config \<Rightarrow> redis_options" where
  "redis_client_options cfg =
     \<lparr>ro_Addr = cf_RedisHost cfg @ '':'' @ show_int (cf_RedisPort cfg), ro_DialTimeout = 2 * time_second,
      ro_ReadTimeout = 1 * time_second, ro_WriteTimeout = 1 * time_second, ro_MaxRetries = 1\<rparr>"

definition token_scopes :: "string list" where
  "token_scopes = [''region:query'', ''routing:execute'', ''search:execute'', ''tiles:serve'']"

definition limiter_config :: "Config \<Rightarrow> limiter_options" where
  "limiter_config cfg =
     \<lparr>DegradeMode = cf_RateLimitDegradeMode cfg, DegradeThreshold = cf_RateLimitDegradeThreshold cfg,
      ProbeInterval = seconds (cf_RateLimitProbeSeconds cfg), MaxMemoryKeys = 0\<rparr>"

definition rate_config :: "Config \<Rightarrow> route_set option \<Rightarrow> RateLimitConfig" where
  "rate_config cfg ext =
     \<lparr>Extension = Some (RateClass ext), IPAuth = cf_RateLimitIPAuth cfg, IPPublic = cf_RateLimitIPPublic cfg,
      IPAPI = cf_RateLimitIPAPI cfg, UserAPI = cf_RateLimitUserAPI cfg, UserExpensive = cf_RateLimitUserExpensive cfg,
      UserReroute = cf_RateLimitUserReroute cfg, UserTiles = cf_RateLimitUserTiles cfg\<rparr>"

section \<open>Extension routes and breakers\<close>

datatype start_error =
    BadExtensionFile load_error
  | BadExtensionSet route_error
  | BadExtensionRoute string
  | BadCorsOrigins cors_error

definition extension_routes ::
  "(string \<Rightarrow> string option) \<Rightarrow> (string \<Rightarrow> Route list option) \<Rightarrow> (string \<Rightarrow> url option) \<Rightarrow> Config \<Rightarrow>
     load_error + Route list" where
  "extension_routes read_file decode parse cfg =
     (if cf_ExtensionRoutesFile cfg \<noteq> '''' then Load read_file decode parse (cf_ExtensionRoutesFile cfg) else Inr [])"

definition breakerNames :: "Route list \<Rightarrow> string list" where
  "breakerNames extRoutes =
     [''authservice'', ''routerservice'', ''searchservice'', ''regionservice''] @ map rt_Name extRoutes"

definition prepare ::
  "(string \<Rightarrow> string option) \<Rightarrow> (string \<Rightarrow> Route list option) \<Rightarrow> (string \<Rightarrow> url option) \<Rightarrow>
     ('b, go_error) gobreaker \<Rightarrow> Config \<Rightarrow> start_error + route_set \<times> 'b registry" where
  "prepare read_file decode parse gb cfg =
     (case extension_routes read_file decode parse cfg of
        Inl e \<Rightarrow> Inl (BadExtensionFile e)
      | Inr extRoutes \<Rightarrow>
          (let registry = New gb (breakerNames extRoutes)
           in case NewSet parse extRoutes True of
                Inl e \<Rightarrow> Inl (BadExtensionSet e)
              | Inr extSet \<Rightarrow> Inr (extSet, registry)))"

section \<open>Worker pools\<close>

text \<open>A process function that panics is \<open>None\<close>: the pool's goroutine does not recover, so
  neither does the gateway.\<close>

record 'v pool =
  po_Stream :: string
  po_Count :: int
  po_Process :: "Job \<Rightarrow> 'v \<Rightarrow> ((go_error + json) \<times> 'v) option"
  po_ResultTTL :: int

definition worker_pools ::
  "Config \<Rightarrow> 'w router \<Rightarrow> 'w searcher \<Rightarrow> ('w \<Rightarrow> string) \<Rightarrow> ('b, go_error) gobreaker \<Rightarrow> (int \<Rightarrow> string) \<Rightarrow> string \<Rightarrow>
     ('b registry \<times> 'w) pool list" where
  "worker_pools cfg rt sh tok gb rfc3339 json_error =
     (let resultTTL = seconds (cf_ResultTTLSeconds cfg)
      in [\<lparr>po_Stream = StreamRouting, po_Count = cf_RouteWorkerCount cfg,
           po_Process = NewRouteProcessFn rt tok gb rfc3339 json_error, po_ResultTTL = resultTTL\<rparr>,
          \<lparr>po_Stream = StreamRerouting, po_Count = cf_RerouteWorkerCount cfg,
           po_Process = NewRerouteProcessFn rt tok gb rfc3339 json_error, po_ResultTTL = resultTTL\<rparr>,
          \<lparr>po_Stream = StreamSearch, po_Count = cf_SearchWorkerCount cfg,
           po_Process = (\<lambda>job v. Some (NewSearchProcessFn sh tok gb json_error job v)), po_ResultTTL = resultTTL\<rparr>])"

text \<open>\<open>Start\<close> names its goroutines from 0 on.\<close>

definition worker_names :: "'v pool \<Rightarrow> string list" where
  "worker_names p = map (\<lambda>i. ''worker-'' @ show_nat i) [0..<nat (po_Count p)]"

text \<open>\<open>processMessage\<close> with a process function that may panic.\<close>

definition pool_message :: "'r redis_api \<Rightarrow> 'v pool \<Rightarrow> string \<times> fields \<Rightarrow> 'r \<times> 'v \<Rightarrow> ('r \<times> 'v) option" where
  "pool_message api p msg = (\<lambda>(r, v).
     (case po_Process p (parseJob (snd msg)) v of
        None \<Rightarrow> None
      | Some done \<Rightarrow>
          Some (processMessage
            \<lparr>wc_api = api, wc_Stream = po_Stream p, wc_Count = nat (po_Count p), wc_Process = (\<lambda>job v. done),
             wc_ResultTTL = po_ResultTTL p\<rparr> msg (r, v))))"

section \<open>The endpoints\<close>

text \<open>
  What the handlers of one request are built on: the libraries, the clients over one world,
  what a streamed job meets, the transports of the proxies.
\<close>

record ('o, 'w) parts =
  pa_lib :: swlib
  pa_cookies :: "'o cookie_lib"
  pa_scan :: "string \<Rightarrow> json scanned"
  pa_query :: "request \<Rightarrow> string \<Rightarrow> string"
  pa_show_time :: "int \<Rightarrow> string"
  pa_math :: go_math
  pa_auth :: "'w auth_client"
  pa_admin :: "'w admin_client"
  pa_keys :: "string list option"
  pa_region :: "'w RegionClient"
  pa_search :: "'w searcher"
  pa_token :: "'w \<Rightarrow> string"
  pa_jobs :: "'w stream_env"
  pa_tiles :: "'w handler"
  pa_web :: "'w handler"
  pa_spec :: string

definition Health :: "'s handler" where
  "Health r w s =
     (encode_body (set_header w ''Content-Type'' ''application/json'')
        (Some (JObj [(''service'', JStr ''swayrider-api''), (''status'', JStr ''ok'')])), s)"

definition OpenAPISpec :: "string \<Rightarrow> 's handler" where
  "OpenAPISpec spec r w s = (write_body (set_header w ''Content-Type'' ''application/yaml'') spec, s)"

text \<open>A handler that leaves the breakers alone.\<close>

definition beside_breakers :: "'w handler \<Rightarrow> ('b \<times> 'w) handler" where
  "beside_breakers h r w = (\<lambda>(b, s). (case h r w s of (w', s') \<Rightarrow> (w', b, s')))"

definition auth_endpoints :: "Config \<Rightarrow> ('o, 'w) parts \<Rightarrow> (string \<times> 'w handler) list" where
  "auth_endpoints cfg pa =
     (let lib = pa_lib pa; ck = pa_cookies pa; c = pa_auth pa; scan = pa_scan pa
      in [(''Login'', Login lib ck c scan), (''Register'', Register_handler c scan),
          (''Refresh'', Refresh lib ck c scan), (''Logout'', Logout lib ck c scan),
          (''RequestPasswordReset'', RequestPasswordReset c scan), (''ResetPassword'', ResetPassword c scan),
          (''VerifyEmail'', VerifyEmail c scan), (''ChangePassword'', ChangePassword lib c scan),
          (''CheckPasswordStrength'', CheckPasswordStrength c scan), (''PublicKeys'', PublicKeys (pa_keys pa)),
          (''WhoAmI'', WhoAmI lib c), (''Me'', Me lib), (''MfaSetup'', MfaSetup lib c),
          (''MfaEnable'', MfaEnable lib c scan), (''MfaDisable'', MfaDisable lib c scan),
          (''MfaStatus'', MfaStatus lib c), (''MfaVerify'', MfaVerify lib ck c scan),
          (''MfaBackupCodes'', MfaBackupCodes lib c scan), (''RequestMfaReset'', RequestMfaReset c scan)])"

definition admin_endpoints :: "('o, 'w) parts \<Rightarrow> (string \<times> 'w handler) list" where
  "admin_endpoints pa =
     (let lib = pa_lib pa; c = pa_admin pa; scan = pa_scan pa
      in [(''CreateAdmin'', CreateAdmin lib c scan), (''ChangeAccountType'', ChangeAccountType lib c scan),
          (''WhoIs'', WhoIs lib c scan), (''CreateServiceClient'', CreateServiceClient lib c scan),
          (''DeleteServiceClient'', DeleteServiceClient lib c scan),
          (''ListServiceClients'', ListServiceClients lib c (pa_query pa)), (''InviteUser'', InviteUser lib c scan),
          (''RevokeInvite'', RevokeInvite lib c scan),
          (''ListInvites'', ListInvites lib c (pa_query pa) (pa_show_time pa))])"

definition region_endpoints :: "('o, 'w) parts \<Rightarrow> (string \<times> 'w handler) list" where
  "region_endpoints pa =
     zip [''SearchPoint'', ''SearchBox'', ''SearchRadius'', ''FindCrossingLocations'', ''FindRegionPath'',
          ''FindRouteRegionPaths'']
       (region_handlers (pa_region pa) (pa_token pa) (pa_scan pa))"

text \<open>
  Reroutes have a producer of their own, with its own depth limit.  The tile proxy asks for
  the gateway's token when it rewrites the request.
\<close>

definition job_endpoints :: "Config \<Rightarrow> ('o, 'w) parts \<Rightarrow> (string \<times> 'w handler) list" where
  "job_endpoints cfg pa =
     (let lib = pa_lib pa; scan = pa_scan pa;
          producer = (pa_jobs pa)\<lparr>se_maxDepth := cf_QueueMaxDepth cfg\<rparr>;
          rerouteProducer = (pa_jobs pa)\<lparr>se_maxDepth := cf_RerouteQueueMaxDepth cfg\<rparr>
      in [(''Route'', Route lib producer scan), (''Reroute'', Reroute lib rerouteProducer (pa_math pa) scan),
          (''Search'', Search lib producer scan), (''ReverseGeocode'', ReverseGeocode lib producer scan),
          (''Tiles'', \<lambda>r w s. NewTilesProxy (pa_tiles pa) (\<lambda>_. pa_token pa s) r w s),
          (''Web'', NewWebProxy (pa_web pa) lib (cf_AuthServiceWebPathPrefix cfg)),
          (''Health'', Health), (''OpenAPISpec'', OpenAPISpec (pa_spec pa))])"

definition endpoints :: "Config \<Rightarrow> ('b, go_error) gobreaker \<Rightarrow> ('o, 'w) parts \<Rightarrow> (string \<times> ('b registry \<times> 'w) handler) list" where
  "endpoints cfg gb pa =
     (''Autocomplete'', Autocomplete (pa_lib pa) (pa_search pa) (pa_token pa) gb (pa_scan pa)) #
     map (\<lambda>(n, h). (n, beside_breakers h))
       (auth_endpoints cfg pa @ admin_endpoints pa @ region_endpoints pa @ job_endpoints cfg pa)"

definition endpoint :: "Config \<Rightarrow> ('b, go_error) gobreaker \<Rightarrow> ('o, 'w) parts \<Rightarrow> string \<Rightarrow> ('b registry \<times> 'w) handler option" where
  "endpoint cfg gb pa n = map_of (endpoints cfg gb pa) n"

section \<open>Starting\<close>

text \<open>A name the table uses and no handler has would be an endpoint that does nothing.\<close>

definition gateway_backends ::
  "Config \<Rightarrow> ('b, go_error) gobreaker \<Rightarrow> ('o, 'w) parts \<Rightarrow> (Route \<Rightarrow> ('b registry \<times> 'w) handler) \<Rightarrow>
     (request \<Rightarrow> bool) \<Rightarrow> (request \<Rightarrow> response \<Rightarrow> response) \<Rightarrow> ('b registry \<times> 'w) backends" where
  "gateway_backends cfg gb pa ext unclean fallthrough =
     \<lparr>be_endpoint = (\<lambda>n. case endpoint cfg gb pa n of Some h \<Rightarrow> h | None \<Rightarrow> (\<lambda>r w s. (w, s))),
      be_extension = ext, be_unclean = unclean, be_fallback = fallthrough\<rparr>"

definition Run ::
  "swlib \<Rightarrow> (string \<Rightarrow> claims option) \<Rightarrow> (string \<Rightarrow> int \<Rightarrow> 'l \<Rightarrow> (bool \<times> 'e option) \<times> 'l) \<Rightarrow>
     ('m \<Rightarrow> string \<Rightarrow> 's handler \<Rightarrow> 'm option) \<Rightarrow> 'm \<Rightarrow>
     (string list \<Rightarrow> (('l \<times> 's) \<times> log_line list) handler \<Rightarrow> (('l \<times> 's) \<times> log_line list) handler) \<Rightarrow>
     Config \<Rightarrow> route_set \<Rightarrow> 's backends \<Rightarrow> start_error + (('l \<times> 's) \<times> log_line list) handler" where
  "Run lib verify allow handle mux cors cfg ext be =
     (case Register handle (\<lambda>_. be_extension be) (Some ext) mux of
        (Some name, _) \<Rightarrow> Inl (BadExtensionRoute name)
      | (None, _) \<Rightarrow>
          (let rateCfg = rate_config cfg (Some ext);
               handler = gateway lib verify (parseTrustedProxies (cf_TrustedProxies cfg)) allow rateCfg
                           (cf_MaxBodyBytes cfg) (Some ext) be
           in case normalizeCORSOrigins (cf_CORSAllowedOrigins cfg) of
                Inl e \<Rightarrow> Inl (BadCorsOrigins e)
              | Inr allowedOrigins \<Rightarrow> Inr (cors allowedOrigins handler)))"

text \<open>\<open>main\<close>: the extension set and the breakers first, then the server with its backends.\<close>

definition start where
  "start read_file decode parse gb lib verify allow handle mux cors cfg be =
     (case prepare read_file decode parse gb cfg of
        Inl e \<Rightarrow> Inl e
      | Inr (ext, registry) \<Rightarrow>
          (case Run lib verify allow handle mux cors cfg ext (be ext) of
             Inl e \<Rightarrow> Inl e
           | Inr h \<Rightarrow> Inr (ext, registry, h)))"

section \<open>What a start takes\<close>

text \<open>The routes a configuration asks for: none without a file, else those of the file.\<close>

definition configured_routes ::
  "(string \<Rightarrow> string option) \<Rightarrow> (string \<Rightarrow> Route list option) \<Rightarrow> Config \<Rightarrow> Route list option" where
  "configured_routes read_file decode cfg =
     (if cf_ExtensionRoutesFile cfg = '''' then Some []
      else map_option (map (\<lambda>r. if rt_Timeout r = 0 then r\<lparr>rt_Timeout := defaultTimeout\<rparr> else r))
             (Option.bind (read_file (cf_ExtensionRoutesFile cfg)) decode))"

lemma Validate_valid: "Validate parse rs = None \<longleftrightarrow> valid_routes parse rs"
  by (simp add: Validate_def validate_loop_iff valid_routes_def)

lemma Validate_invalid: "(\<exists>e. Validate parse rs = Some e) \<longleftrightarrow> \<not> valid_routes parse rs"
  by (metis Validate_valid not_Some_eq)

lemma valid_no_routes [simp]: "valid_routes parse []"
  by (simp add: valid_routes_def)

lemma extension_routes_Inr:
  "extension_routes read_file decode parse cfg = Inr rs \<longleftrightarrow>
     configured_routes read_file decode cfg = Some rs \<and> valid_routes parse rs"
  using Validate_valid[of parse] Validate_invalid[of parse]
  by (auto simp: extension_routes_def configured_routes_def Load_def Let_def split: option.splits)

lemma prepare_Inr:
  "prepare read_file decode parse gb cfg = Inr (ext, reg) \<longleftrightarrow>
     configured_routes read_file decode cfg = Some (routes ext) \<and> valid_routes parse (routes ext) \<and>
     route_set.breakers ext \<and> reg = New gb (breakerNames (routes ext))"
proof (cases "extension_routes read_file decode parse cfg")
  case (Inl e)
  then show ?thesis using extension_routes_Inr[of read_file decode parse cfg "routes ext"]
    by (auto simp: prepare_def)
next
  case (Inr rs)
  then have v: "Validate parse rs = None" and c: "configured_routes read_file decode cfg = Some rs"
    and w: "valid_routes parse rs"
    using extension_routes_Inr Validate_valid by auto
  have "(\<lparr>routes = rs, breakers = True\<rparr> = ext) \<longleftrightarrow> (routes ext = rs \<and> route_set.breakers ext)"
    by (cases ext) auto
  then show ?thesis using c w by (auto simp: prepare_def Inr NewSet_def Let_def v)
qed

lemma origins_accepted:
  "normalizeCORSOrigins origins = Inr ys \<longleftrightarrow>
     ys = map trim_space origins \<and> list_all (\<lambda>y. trim_space y \<noteq> '''' \<and> trim_space y \<noteq> ''*'') origins"
  by (auto simp: normalizeCORSOrigins_def normalize_origins_iff list_all_iff)

lemma served_origins:
  "(case normalizeCORSOrigins origins of Inl e \<Rightarrow> Inl (BadCorsOrigins e) | Inr ys \<Rightarrow> Inr (cors ys g)) = Inr h \<longleftrightarrow>
     list_all (\<lambda>y. trim_space y \<noteq> '''' \<and> trim_space y \<noteq> ''*'') origins \<and> h = cors (map trim_space origins) g"
proof (cases "normalizeCORSOrigins origins")
  case (Inl e)
  then show ?thesis using origins_accepted[of origins "map trim_space origins"] by auto
next
  case (Inr ys)
  then show ?thesis using origins_accepted[of origins ys] by auto
qed

text \<open>
  (C9) The gateway starts exactly when its configuration can be served, and then with what the
  configuration says: the extension file, if one is named, is readable, decodes and describes
  valid routes (with the default timeout filled in) that the mux takes beside the gateway's
  own, and no CORS origin is empty or a bare wildcard once trimmed.  The breakers are those of
  the four services and of every extension route, the origins are the trimmed ones, the
  trusted networks and limits those configured; every other configuration is an error.
\<close>

theorem gateway_starts_exactly_when_configured:
  "start read_file decode parse gb lib verify allow handle mux cors cfg be = Inr (ext, registry, h) \<longleftrightarrow>
     configured_routes read_file decode cfg = Some (routes ext) \<and> valid_routes parse (routes ext) \<and>
     route_set.breakers ext \<and> registry = New gb (breakerNames (routes ext)) \<and>
     fst (Register handle (\<lambda>_. be_extension (be ext)) (Some ext) mux) = None \<and>
     list_all (\<lambda>y. trim_space y \<noteq> '''' \<and> trim_space y \<noteq> ''*'') (cf_CORSAllowedOrigins cfg) \<and>
     h = cors (map trim_space (cf_CORSAllowedOrigins cfg))
           (gateway lib verify (parseTrustedProxies (cf_TrustedProxies cfg)) allow (rate_config cfg (Some ext))
              (cf_MaxBodyBytes cfg) (Some ext) (be ext))"
proof -
  have run: "Run lib verify allow handle mux cors cfg ext (be ext) = Inr h \<longleftrightarrow>
     fst (Register handle (\<lambda>_. be_extension (be ext)) (Some ext) mux) = None \<and>
     list_all (\<lambda>y. trim_space y \<noteq> '''' \<and> trim_space y \<noteq> ''*'') (cf_CORSAllowedOrigins cfg) \<and>
     h = cors (map trim_space (cf_CORSAllowedOrigins cfg))
           (gateway lib verify (parseTrustedProxies (cf_TrustedProxies cfg)) allow (rate_config cfg (Some ext))
              (cf_MaxBodyBytes cfg) (Some ext) (be ext))"
    by (cases "Register handle (\<lambda>_. be_extension (be ext)) (Some ext) mux")
       (simp add: Run_def Let_def served_origins split: option.split)
  show ?thesis
    using prepare_Inr[of read_file decode parse gb cfg ext registry] run
    by (cases "prepare read_file decode parse gb cfg") (auto simp: start_def split: sum.splits)
qed

section \<open>The running gateway\<close>

text \<open>
  What changes the breakers and the world while the gateway runs: an endpoint, with any of the
  parts a request may meet, or an extension route serves a request, or a pool's worker runs
  the process function of a job.
\<close>

inductive gateway_step ::
  "Config \<Rightarrow> ('b, go_error) gobreaker \<Rightarrow> ('b, route_call_error) gobreaker \<Rightarrow> route_set \<Rightarrow> ('o, 'w) parts set \<Rightarrow>
     'b registry \<times> 'w \<Rightarrow> 'b registry \<times> 'w \<Rightarrow> bool"
  for cfg gb gbx ext pas where
  request: "pa \<in> pas \<Longrightarrow> endpoint cfg gb pa n = Some h \<Longrightarrow> h r w s = (w', s') \<Longrightarrow>
    gateway_step cfg gb gbx ext pas s s'"
| extension: "route \<in> set (routes ext) \<Longrightarrow> ext_handler lib hop transport gbx ext route r w s = (w', s') \<Longrightarrow>
    gateway_step cfg gb gbx ext pas s s'"
| work: "p \<in> set (worker_pools cfg rt sh tok gb rfc3339 je) \<Longrightarrow> po_Process p job s = Some (res, s') \<Longrightarrow>
    gateway_step cfg gb gbx ext pas s s'"

inductive gateway_reachable ::
  "Config \<Rightarrow> ('b, go_error) gobreaker \<Rightarrow> ('b, route_call_error) gobreaker \<Rightarrow> route_set \<Rightarrow> ('o, 'w) parts set \<Rightarrow>
     'b registry \<times> 'w \<Rightarrow> 'b registry \<times> 'w \<Rightarrow> bool"
  for cfg gb gbx ext pas s0 where
  initially: "gateway_reachable cfg gb gbx ext pas s0 s0"
| later: "gateway_reachable cfg gb gbx ext pas s0 s \<Longrightarrow> gateway_step cfg gb gbx ext pas s s' \<Longrightarrow>
    gateway_reachable cfg gb gbx ext pas s0 s'"

definition guarded_names :: "'b registry \<Rightarrow> string set" where
  "guarded_names reg = fst ` set reg"

lemma update_names: "guarded_names (AList.update n b reg) = insert n (guarded_names reg)"
  by (induction reg) (auto simp: guarded_names_def)

lemma New_names: "guarded_names (New gb ns) = set ns"
proof -
  have "guarded_names (foldl (\<lambda>r n. AList.update n (newCircuitBreaker gb (breaker_settings n)) r) r0 ns) =
      guarded_names r0 \<union> set ns" for r0
    by (induction ns arbitrary: r0) (simp_all add: update_names)
  from this[of "[]"] show ?thesis by (simp add: New_def guarded_names_def)
qed

lemma Execute_names:
  assumes "Execute gb n f (reg, x) = (err, reg', x')"
  shows "guarded_names reg' = guarded_names reg"
proof (cases "map_of reg n")
  case None
  then show ?thesis using assms by (simp add: Execute_def split: prod.splits)
next
  case (Some cb)
  then have "n \<in> guarded_names reg" by (force simp: guarded_names_def dest: map_of_SomeD)
  then show ?thesis using assms Some by (auto simp: Execute_def update_names split: prod.splits)
qed

lemma guarded_search_names:
  "guarded_search gb ask (reg, x) = (res, reg', x') \<Longrightarrow> guarded_names reg' = guarded_names reg"
  by (auto simp: guarded_search_def split: prod.splits dest: Execute_names)

lemma run_search_names:
  "run_search gb je ask (reg, x) = (res, reg', x') \<Longrightarrow> guarded_names reg' = guarded_names reg"
  by (auto simp: run_search_def split: prod.splits sum.splits dest: guarded_search_names)

lemma run_router_names:
  "run_router gb rfc je ask (reg, x) = Some (res, reg', x') \<Longrightarrow> guarded_names reg' = guarded_names reg"
  by (auto simp: run_router_def split: prod.splits option.splits if_splits dest: Execute_names)

lemma ext_handler_names:
  assumes "ext_handler lib hop transport gbx ext route r w (reg, x) = (w', reg', x')"
  shows "guarded_names reg' = guarded_names reg"
proof -
  have serve: "guarded_names (fst (snd (route_serve hop transport gbx ext route q w (reg, x)))) = guarded_names reg" for q
    by (auto simp: route_serve_def split: prod.split dest: Execute_names)
  have "ext_handler lib hop transport gbx ext route r w (reg, x) = route_serve hop transport gbx ext route r w (reg, x) \<or>
      fst (snd (ext_handler lib hop transport gbx ext route r w (reg, x))) = reg"
    by (simp add: ext_handler_def Let_def verified.mw_decide admin.mw_decide decide_then_def guard_decide_def
        split: option.split bool.split prod.split)
  with assms serve[of r] show ?thesis by (elim disjE) simp_all
qed

lemma endpoint_keeps_names:
  assumes "endpoint cfg gb pa n = Some h" and "h r w (reg, x) = (w', reg', x')"
  shows "guarded_names reg' = guarded_names reg"
proof -
  from assms(1) consider "h = Autocomplete (pa_lib pa) (pa_search pa) (pa_token pa) gb (pa_scan pa)"
    | h0 where "h = beside_breakers h0"
    by (auto simp: endpoint_def endpoints_def dest!: map_of_SomeD split: if_splits)
  then show ?thesis
  proof cases
    case 1
    then show ?thesis using assms(2)
      by (auto simp: Autocomplete_def split: prod.splits option.splits bool.splits decoded.splits sum.splits
          dest: guarded_search_names)
  next
    case 2
    then show ?thesis using assms(2) by (simp add: beside_breakers_def split: prod.splits)
  qed
qed

lemma process_names:
  assumes "p \<in> set (worker_pools cfg rt sh tok gb rfc3339 je)" and "po_Process p job (reg, x) = Some (res, reg', x')"
  shows "guarded_names reg' = guarded_names reg"
  using assms
  by (auto simp: worker_pools_def Let_def NewRouteProcessFn_def NewRerouteProcessFn_def NewSearchProcessFn_def
      runSearch_def runReverseGeocode_def split: option.splits if_splits dest: run_router_names run_search_names
      del: equalityI subsetI)

lemma gateway_step_names: "gateway_step cfg gb gbx ext pas s s' \<Longrightarrow> guarded_names (fst s') = guarded_names (fst s)"
  by (cases s; cases s'; erule gateway_step.cases) (auto dest: endpoint_keeps_names ext_handler_names process_names)

definition endpoint_names :: "string list" where
  "endpoint_names =
    [''Autocomplete'', ''Login'', ''Register'', ''Refresh'', ''Logout'', ''RequestPasswordReset'',
     ''ResetPassword'', ''VerifyEmail'', ''ChangePassword'', ''CheckPasswordStrength'',
     ''PublicKeys'', ''WhoAmI'', ''Me'', ''MfaSetup'', ''MfaEnable'', ''MfaDisable'', ''MfaStatus'',
     ''MfaVerify'', ''MfaBackupCodes'', ''RequestMfaReset'', ''CreateAdmin'', ''ChangeAccountType'',
     ''WhoIs'', ''CreateServiceClient'', ''DeleteServiceClient'', ''ListServiceClients'',
     ''InviteUser'', ''RevokeInvite'', ''ListInvites'', ''SearchPoint'', ''SearchBox'',
     ''SearchRadius'', ''FindCrossingLocations'', ''FindRegionPath'', ''FindRouteRegionPaths'',
     ''Route'', ''Reroute'', ''Search'', ''ReverseGeocode'', ''Tiles'', ''Web'', ''Health'',
     ''OpenAPISpec'']"

lemma names_of_endpoints: "map fst (endpoints cfg gb pa) = endpoint_names"
  by (simp add: endpoint_names_def endpoints_def auth_endpoints_def admin_endpoints_def region_endpoints_def
      region_handlers_def job_endpoints_def Let_def)

lemma table_has_names: "list_all (\<lambda>t. List.member endpoint_names (tr_endpoint t)) registerRoutes"
  by code_simp

lemma table_has_endpoints: "list_all (\<lambda>t. map_of (endpoints cfg gb pa) (tr_endpoint t) \<noteq> None) registerRoutes"
proof -
  have "map_of (endpoints cfg gb pa) n \<noteq> None \<longleftrightarrow> List.member endpoint_names n" for n
    by (simp add: map_of_eq_None_iff arg_cong[OF names_of_endpoints, of set, simplified])
  with table_has_names show ?thesis by presburger
qed

text \<open>What a refusing breaker spares: the router, the search service, an upstream.\<close>

lemma refused_router:
  assumes "registry_rejects gb ''routerservice'' reg = Some e" and "p \<in> set (take 2 (worker_pools cfg rt sh tok gb rfc je))"
  shows "\<exists>out reg'. po_Process p job (reg, y) = Some (out, reg', y)"
  using assms
  by (auto simp: worker_pools_def Let_def NewRouteProcessFn_def NewRerouteProcessFn_def run_router_cases split: option.split)

lemma refused_router_same:
  assumes "registry_rejects gb ''routerservice'' reg = Some e"
  shows "map (\<lambda>p. po_Process p job (reg, y)) (worker_pools cfg rt sh tok gb rfc je) =
    map (\<lambda>p. po_Process p job (reg, y)) (worker_pools cfg rt' sh tok gb rfc je)"
  using assms
  by (simp add: worker_pools_def Let_def NewRouteProcessFn_def NewRerouteProcessFn_def run_router_cases split: option.split)

lemma refused_search:
  assumes "registry_rejects gb ''searchservice'' reg = Some e" and "p \<in> set (drop 2 (worker_pools cfg rt sh tok gb rfc je))"
  shows "\<exists>out reg'. po_Process p job (reg, y) = Some (out, reg', y)"
  using assms
  by (auto simp: worker_pools_def Let_def NewSearchProcessFn_def runSearch_def runReverseGeocode_def run_search_def
      guarded_search_cases split: option.split)

lemma refused_search_same:
  assumes "registry_rejects gb ''searchservice'' reg = Some e"
  shows "map (\<lambda>p. po_Process p job (reg, y)) (worker_pools cfg rt sh tok gb rfc je) =
    map (\<lambda>p. po_Process p job (reg, y)) (worker_pools cfg rt sh' tok gb rfc je)"
  using assms
  by (simp add: worker_pools_def Let_def NewSearchProcessFn_def runSearch_def runReverseGeocode_def run_search_def
      guarded_search_cases split: option.split)

lemma refused_autocomplete:
  assumes "registry_rejects gb ''searchservice'' reg = Some e"
  shows "Autocomplete lib sh tok gb scan r w (reg, y) = Autocomplete lib sh' tok gb scan r w (reg, y)"
  using assms
  by (auto simp: Autocomplete_def guarded_search_cases split: prod.split option.split bool.split decoded.split)

lemma refused_endpoint:
  assumes "registry_rejects gb ''searchservice'' reg = Some e"
  shows "map_option (\<lambda>h. h r w (reg, y)) (endpoint cfg gb pa n) =
    map_option (\<lambda>h. h r w (reg, y)) (endpoint cfg gb (pa\<lparr>pa_search := sh'\<rparr>) n)"
proof -
  have "auth_endpoints cfg (pa\<lparr>pa_search := sh'\<rparr>) = auth_endpoints cfg pa"
    "admin_endpoints (pa\<lparr>pa_search := sh'\<rparr>) = admin_endpoints pa"
    "region_endpoints (pa\<lparr>pa_search := sh'\<rparr>) = region_endpoints pa"
    "job_endpoints cfg (pa\<lparr>pa_search := sh'\<rparr>) = job_endpoints cfg pa"
    by (simp_all add: auth_endpoints_def admin_endpoints_def region_endpoints_def job_endpoints_def Let_def)
  then obtain rest where
    "endpoints cfg gb (pa\<lparr>pa_search := sh'\<rparr>) =
      (''Autocomplete'', Autocomplete (pa_lib pa) sh' (pa_token pa) gb (pa_scan pa)) # rest"
    "endpoints cfg gb pa =
      (''Autocomplete'', Autocomplete (pa_lib pa) (pa_search pa) (pa_token pa) gb (pa_scan pa)) # rest"
    by (simp add: endpoints_def)
  then show ?thesis
    using refused_autocomplete[OF assms, where sh = "pa_search pa" and sh' = sh'] by (simp add: endpoint_def)
qed

lemma refused_extension:
  assumes "route_set.breakers ext" and "registry_rejects gbx (rt_Name route) reg = Some e"
  shows "ext_handler lib hop transport gbx ext route r w (reg, y) = ext_handler lib hop transport' gbx ext route r w (reg, y)"
proof -
  have same: "route_serve hop transport gbx ext route q w' (reg, y) = route_serve hop transport' gbx ext route q w' (reg, y)" for q w'
    using assms by (simp add: route_serve_def registry.rejected)
  show ?thesis
    by (simp add: ext_handler_def Let_def verified.mw_decide admin.mw_decide decide_then_def guard_decide_def same
        split: option.split bool.split prod.split)
qed

text \<open>
  (C8) Every call to the router, the search service and an extension route's upstream runs
  through the breaker registered under its name.  Whatever requests and jobs the started gateway
  has served, in any order, its registry holds exactly the breakers of the four services and of
  the extension routes; and while one of them refuses, the service behind it cannot matter:
  routing and rerouting jobs end the same with any other router, searches, reverse geocodings
  and every endpoint with any other search service, and an extension route with any other
  upstream transport, the outside world of a job untouched.  Every route of the table has an
  endpoint.
\<close>

theorem guarded_calls_keep_their_breakers:
  assumes "start read_file decode parse gb lib verify allow handle mux cors cfg be = Inr (ext, registry, h)"
    and "gateway_reachable cfg gb gbx ext pas (registry, x) (reg, y)"
  shows "guarded_names reg = set (breakerNames (routes ext)) \<and>
    list_all (\<lambda>n. map_of reg n \<noteq> None) ([''routerservice'', ''searchservice''] @ map rt_Name (routes ext)) \<and>
    (registry_rejects gb ''routerservice'' reg \<noteq> None \<longrightarrow>
       map (\<lambda>p. po_Process p job (reg, y)) (worker_pools cfg rt sh tok gb rfc3339 je) =
         map (\<lambda>p. po_Process p job (reg, y)) (worker_pools cfg rt' sh tok gb rfc3339 je) \<and>
       (\<forall>p \<in> set (take 2 (worker_pools cfg rt sh tok gb rfc3339 je)).
          \<exists>out reg'. po_Process p job (reg, y) = Some (out, reg', y))) \<and>
    (registry_rejects gb ''searchservice'' reg \<noteq> None \<longrightarrow>
       map (\<lambda>p. po_Process p job (reg, y)) (worker_pools cfg rt sh tok gb rfc3339 je) =
         map (\<lambda>p. po_Process p job (reg, y)) (worker_pools cfg rt sh' tok gb rfc3339 je) \<and>
       (\<forall>p \<in> set (drop 2 (worker_pools cfg rt sh tok gb rfc3339 je)).
          \<exists>out reg'. po_Process p job (reg, y) = Some (out, reg', y)) \<and>
       map_option (\<lambda>h. h r w (reg, y)) (endpoint cfg gb pa n) =
         map_option (\<lambda>h. h r w (reg, y)) (endpoint cfg gb (pa\<lparr>pa_search := sh'\<rparr>) n)) \<and>
    (\<forall>route \<in> set (routes ext). registry_rejects gbx (rt_Name route) reg \<noteq> None \<longrightarrow>
       ext_handler lib hop transport gbx ext route r w (reg, y) =
         ext_handler lib hop transport' gbx ext route r w (reg, y)) \<and>
    list_all (\<lambda>t. endpoint cfg gb pa (tr_endpoint t) \<noteq> None) registerRoutes"
proof -
  have "guarded_names (fst (reg, y)) = guarded_names registry"
    using assms(2) by (induction rule: gateway_reachable.induct) (auto dest: gateway_step_names)
  moreover have reg0: "registry = New gb (breakerNames (routes ext))" and ext: "route_set.breakers ext"
    using assms(1) prepare_Inr[of read_file decode parse gb cfg ext registry]
    by (auto simp: start_def split: sum.splits)
  ultimately have n: "guarded_names reg = set (breakerNames (routes ext))" by (simp add: New_names)
  have "map_of reg n \<noteq> None \<longleftrightarrow> n \<in> guarded_names reg" for n
    by (simp add: guarded_names_def map_of_eq_None_iff)
  then have "list_all (\<lambda>n. map_of reg n \<noteq> None) ns \<longleftrightarrow> set ns \<subseteq> guarded_names reg" for ns
    by (auto simp: list_all_iff)
  then have "list_all (\<lambda>n. map_of reg n \<noteq> None) ([''routerservice'', ''searchservice''] @ map rt_Name (routes ext))"
    by (auto simp: n breakerNames_def)
  moreover have "list_all (\<lambda>t. endpoint cfg gb pa (tr_endpoint t) \<noteq> None) registerRoutes"
    unfolding endpoint_def by (rule table_has_endpoints)
  moreover have "map (\<lambda>p. po_Process p job (reg, y)) (worker_pools cfg rt sh tok gb rfc3339 je) =
        map (\<lambda>p. po_Process p job (reg, y)) (worker_pools cfg rt' sh tok gb rfc3339 je) \<and>
      (\<forall>p \<in> set (take 2 (worker_pools cfg rt sh tok gb rfc3339 je)).
         \<exists>out reg'. po_Process p job (reg, y) = Some (out, reg', y))"
    if refused: "registry_rejects gb ''routerservice'' reg \<noteq> None"
    using refused refused_router_same refused_router by (metis not_None_eq)
  moreover have "map (\<lambda>p. po_Process p job (reg, y)) (worker_pools cfg rt sh tok gb rfc3339 je) =
        map (\<lambda>p. po_Process p job (reg, y)) (worker_pools cfg rt sh' tok gb rfc3339 je) \<and>
      (\<forall>p \<in> set (drop 2 (worker_pools cfg rt sh tok gb rfc3339 je)).
         \<exists>out reg'. po_Process p job (reg, y) = Some (out, reg', y)) \<and>
      map_option (\<lambda>h. h r w (reg, y)) (endpoint cfg gb pa n) =
        map_option (\<lambda>h. h r w (reg, y)) (endpoint cfg gb (pa\<lparr>pa_search := sh'\<rparr>) n)"
    if refused: "registry_rejects gb ''searchservice'' reg \<noteq> None"
    using refused refused_search_same refused_search refused_endpoint by (metis not_None_eq)
  moreover have "ext_handler lib hop transport gbx ext route r w (reg, y) =
      ext_handler lib hop transport' gbx ext route r w (reg, y)"
    if refused: "registry_rejects gbx (rt_Name route) reg \<noteq> None" for route
    using refused refused_extension[OF ext] by (metis not_None_eq)
  ultimately show ?thesis using n by (intro conjI impI ballI) simp_all
qed

definition default_env :: go_env where
  "default_env = \<lparr>ev_Get = (\<lambda>k d. d), ev_GetAsInt = (\<lambda>k d. d), ev_GetAsStringArr = (\<lambda>k d. [d])\<rparr>"

definition idle_backends :: "route_set \<Rightarrow> (nat registry \<times> unit) backends" where
  "idle_backends ext = \<lparr>be_endpoint = (\<lambda>n r w s. (w, s)), be_extension = (\<lambda>x r w s. (w, s)),
     be_unclean = (\<lambda>r. False), be_fallback = (\<lambda>r w. w)\<rparr>"

text \<open>A breaker that refuses every call after its first.\<close>

definition counting_breaker :: "(nat, go_error) gobreaker" where
  "counting_breaker = \<lparr>newCircuitBreaker = (\<lambda>st. 0),
     accept = (\<lambda>n. (if n = 0 then None else Some (PlainError ''circuit breaker is open''), n)), account = (\<lambda>n ok. Suc n)\<rparr>"

definition idle_breaker :: "(nat, route_call_error) gobreaker" where
  "idle_breaker = \<lparr>newCircuitBreaker = (\<lambda>st. 0), accept = (\<lambda>n. (None, n)), account = (\<lambda>n ok. n)\<rparr>"

lemma default_start:
  "\<exists>h. start (\<lambda>p. None) (\<lambda>d. None) (\<lambda>u. None) counting_breaker plain_swlib (\<lambda>t. None) (\<lambda>k n l. ((True, None :: unit option), l))
     (\<lambda>m p h. Some m) () (\<lambda>os h. h) (Config_Load default_env) idle_backends =
   Inr (\<lparr>routes = [], breakers = True\<rparr>, New counting_breaker (breakerNames []), h :: ((unit \<times> nat registry \<times> unit) \<times> log_line list) handler)"
proof -
  have c: "normalizeCORSOrigins (cf_CORSAllowedOrigins (Config_Load default_env)) = Inr [''http://localhost:5173'']"
    by code_simp
  have p: "prepare (\<lambda>p. None) (\<lambda>d. None) (\<lambda>u. None) counting_breaker (Config_Load default_env) =
      Inr (\<lparr>routes = [], breakers = True\<rparr>, New counting_breaker (breakerNames []))"
    by (simp add: prepare_Inr configured_routes_def Config_Load_def default_env_def)
  show ?thesis by (simp add: start_def p Run_def c Register_def Let_def)
qed

definition silent_search :: "unit searcher" where
  "silent_search = \<lparr>sh_Search = (\<lambda>m t q w. (Inr [], w)), sh_ReverseGeocode = (\<lambda>m t q w. (Inr [], w)),
     sh_Autocomplete = (\<lambda>m t q w. (Inr [], w))\<rparr>"

definition failing_search :: "unit searcher" where
  "failing_search = \<lparr>sh_Search = (\<lambda>m t q w. (Inl (PlainError ''down''), w)),
     sh_ReverseGeocode = (\<lambda>m t q w. (Inl (PlainError ''down''), w)),
     sh_Autocomplete = (\<lambda>m t q w. (Inl (PlainError ''down''), w))\<rparr>"

definition silent_router :: "unit router" where
  "silent_router = \<lparr>rt_RouteRaw = (\<lambda>m t q w. (Inr None, w)), rt_RerouteRaw = (\<lambda>m t q w. (Inr None, w))\<rparr>"

definition reverse_job :: Job where
  "reverse_job = \<lparr>JobID = ''1'', Payload = print_json (JObj [(''kind'', JStr ''reverse''), (''req'', JObj [])]),
     UserID = ''u'', AccountLevel = ''free'', IsAdmin = ''false'', UserVerified = ''true''\<rparr>"

definition searched_once :: "nat registry" where
  "searched_once = [(''authservice'', 0), (''routerservice'', 0), (''searchservice'', 1), (''regionservice'', 0)]"

text \<open>The witness runs one reverse geocoding job, which the breaker of the search service counts;
  after it the breaker refuses, and a failing search service makes no difference.\<close>

lemma reverse_job_runs:
  "po_Process (worker_pools (Config_Load default_env) silent_router silent_search (\<lambda>w. []) counting_breaker (\<lambda>t. []) [] ! 2)
     reverse_job (New counting_breaker (breakerNames []), ()) = Some (Inr (JArr []), searched_once, ())"
  by code_simp

theorem guarded_calls_keep_their_breakers_witness:
  "let jobs = (\<lambda>sh. map (\<lambda>p. po_Process p reverse_job (searched_once, ()))
       (worker_pools (Config_Load default_env) silent_router sh (\<lambda>w. []) counting_breaker (\<lambda>t. []) []))
   in guarded_names searched_once = set (breakerNames []) \<and> jobs silent_search = jobs failing_search"
proof -
  obtain h where h: "start (\<lambda>p. None) (\<lambda>d. None) (\<lambda>u. None) counting_breaker plain_swlib (\<lambda>t. None)
     (\<lambda>k n l. ((True, None :: unit option), l)) (\<lambda>m p h. Some m) () (\<lambda>os h. h) (Config_Load default_env) idle_backends =
     Inr (\<lparr>routes = [], breakers = True\<rparr>, New counting_breaker (breakerNames []), h :: ((unit \<times> nat registry \<times> unit) \<times> log_line list) handler)"
    using default_start by blast
  let ?pools = "worker_pools (Config_Load default_env) silent_router silent_search (\<lambda>w. []) counting_breaker (\<lambda>t. []) []"
  let ?reach = "gateway_reachable (Config_Load default_env) counting_breaker idle_breaker \<lparr>routes = [], breakers = True\<rparr>
      ({} :: (unit, unit) parts set) (New counting_breaker (breakerNames []), ())"
  have "?pools ! 2 \<in> set ?pools" by (intro nth_mem) (simp add: worker_pools_def Let_def)
  from gateway_step.work[OF this reverse_job_runs] gateway_reachable.initially
  have "?reach (searched_once, ())" by (rule gateway_reachable.later[rotated])
  note g = guarded_calls_keep_their_breakers[OF h this, where rt = silent_router and sh = silent_search
      and sh' = failing_search and tok = "\<lambda>w. []" and je = "[]" and job = reverse_job and ?rfc3339.0 = "\<lambda>t. []"]
  have refuses: "registry_rejects counting_breaker ''searchservice'' searched_once \<noteq> None"
    by (simp add: registry_rejects_def counting_breaker_def searched_once_def)
  from g[THEN conjunct1] g[THEN conjunct2, THEN conjunct2, THEN conjunct2, THEN conjunct1, THEN mp, OF refuses, THEN conjunct1]
  show ?thesis unfolding Let_def by (intro conjI) simp_all
qed

end
