(* ===== verification/Limiter_Interleaving.thy ===== *)
theory Limiter_Interleaving
  imports Redis_Limiter
begin

text \<open>
  Concurrent calls of \<open>Limiter.Allow\<close> (\<open>internal/ratelimit/limiter.go\<close>).  A call is cut at
  what other calls can observe: the sections under the mutex, the pipeline, the ping and the
  fallback limiter's own critical section are one step each.  A step takes what the call meets
  there (the clock, Redis' answers, an iteration order) as its input; a schedule is a list of
  call numbers with inputs, and every interleaving is one.
\<close>

section \<open>Steps\<close>

datatype phase =
    Entered
  | Sending
  | Failed
  | Probing
  | Pinging
  | Recovering
  | FallingBack
  | Answered bool "limiter_error option"

record limited_call =
  lc_key :: string
  lc_limit :: int
  lc_window :: int

text \<open>\<open>in_now2\<close> is the second reading of the clock in \<open>tryProbe\<close>'s first section.\<close>

record step_input =
  in_now :: int
  in_now2 :: int
  in_reply :: "int list option"
  in_ping :: bool
  in_order :: range_fun

fun call_step :: "limited_call \<Rightarrow> step_input \<Rightarrow> phase \<times> limiter \<Rightarrow> phase \<times> limiter" where
  "call_step c i (Entered, l) = (if degraded l then Probing else Sending, l)"
| "call_step c i (Sending, l) =
     (case in_reply i of None \<Rightarrow> (Failed, l) | Some rs \<Rightarrow> (Answered (reply_val rs 2 \<le> lc_limit c) None, l))"
| "call_step c i (Failed, l) =
     (let n = consecutiveFailures l + 1
      in if threshold l \<le> n then (Probing, l\<lparr>consecutiveFailures := 0, degraded := True\<rparr>)
         else (Answered True None, l\<lparr>consecutiveFailures := n\<rparr>))"
| "call_step c i (Probing, l) =
     (if time_sub (in_now i) (lastProbe l) < probeInterval l then (FallingBack, l)
      else (Pinging, l\<lparr>lastProbe := in_now2 i\<rparr>))"
| "call_step c i (Pinging, l) = (if in_ping i then Recovering else FallingBack, l)"
| "call_step c i (Recovering, l) = (Sending, l\<lparr>degraded := False, consecutiveFailures := 0\<rparr>)"
| "call_step c i (FallingBack, l) =
     (if mode l = DegradeModeDeny then (Answered False (Some ErrDegraded), l)
      else (let (ok, m) = memory_Allow (in_order i) (unix_milli (in_now i)) (lc_key c) (lc_limit c) (lc_window c) (fallback l)
            in (Answered ok None, l\<lparr>fallback := m\<rparr>)))"
| "call_step c i (Answered ok e, l) = (Answered ok e, l)"

section \<open>One call alone\<close>

text \<open>The input of the next step of a call, drawn from the environment of \<open>Redis_Limiter\<close> as
  the code draws it.\<close>

definition no_input :: step_input where
  "no_input = \<lparr>in_now = 0, in_now2 = 0, in_reply = None, in_ping = False, in_order = id\<rparr>"

fun draw :: "('r, 'x) redis_env_scheme \<Rightarrow> limited_call \<Rightarrow> phase \<times> limiter \<Rightarrow> 'r \<Rightarrow> step_input \<times> 'r" where
  "draw env c (Sending, l) r =
     (let (reply, r1) = redis_attempt env (lc_key c) (lc_window c) r in (no_input\<lparr>in_reply := reply\<rparr>, r1))"
| "draw env c (Probing, l) r =
     (let (now, r1) = time_now env r
      in if time_sub now (lastProbe l) < probeInterval l then (no_input\<lparr>in_now := now\<rparr>, r1)
         else (let (now2, r2) = time_now env r1 in (no_input\<lparr>in_now := now, in_now2 := now2\<rparr>, r2)))"
| "draw env c (Pinging, l) r = (let (ok, r1) = ping env r in (no_input\<lparr>in_ping := ok\<rparr>, r1))"
| "draw env c (FallingBack, l) r =
     (if mode l = DegradeModeDeny then (no_input, r)
      else (let (now, r1) = time_now env r in (no_input\<lparr>in_now := now, in_order := map_range env r1\<rparr>, r1)))"
| "draw env c (_, l) r = (no_input, r)"

fun alone :: "('r, 'x) redis_env_scheme \<Rightarrow> nat \<Rightarrow> limited_call \<Rightarrow> phase \<times> limiter \<Rightarrow> 'r \<Rightarrow> (phase \<times> limiter) \<times> 'r" where
  "alone env 0 c s r = (s, r)"
| "alone env (Suc n) c s r = (let (i, r1) = draw env c s r in alone env n c (call_step c i s) r1)"

lemma alone_add: "alone env (m + n) c s r = (let (s1, r1) = alone env m c s r in alone env n c s1 r1)"
  by (induction m arbitrary: s r) (auto split: prod.split)

lemma alone_answered [simp]: "alone env n c (Answered ok e, l) r = ((Answered ok e, l), r)"
  by (induction n) simp_all

text \<open>A call comes to an answer when some number of its own steps leads there.\<close>

definition answers ::
  "('r, 'x) redis_env_scheme \<Rightarrow> limited_call \<Rightarrow> phase \<times> limiter \<Rightarrow> 'r \<Rightarrow> (bool \<times> limiter_error option) \<times> limiter \<times> 'r \<Rightarrow> bool" where
  "answers env c s r res \<longleftrightarrow>
     (case res of ((ok, e), l', r') \<Rightarrow> \<exists>n. alone env n c s r = ((Answered ok e, l'), r'))"

lemma answers_now: "answers env c (Answered ok e, l) r ((ok, e), l, r)"
  unfolding answers_def by (auto intro: exI[of _ 0])

lemma answers_step:
  assumes "draw env c s r = (i, r1)" and "answers env c (call_step c i s) r1 res"
  shows "answers env c s r res"
proof -
  obtain ok e l' r' where res: "res = ((ok, e), l', r')" by (metis prod.exhaust)
  with assms(2) obtain n where "alone env n c (call_step c i s) r1 = ((Answered ok e, l'), r')"
    by (auto simp: answers_def)
  with assms(1) have "alone env (Suc n) c s r = ((Answered ok e, l'), r')" by simp
  then show ?thesis unfolding answers_def res by blast
qed

lemma degraded_alone:
  assumes again: "\<And>l1 r1 res. again l1 r1 = Some res \<Longrightarrow> answers env c (Sending, l1) r1 res"
    and "degradedAllow env again (lc_key c) (lc_limit c) (lc_window c) l r = Some res"
  shows "answers env c (Probing, l) r res"
proof -
  obtain now r1 where t: "time_now env r = (now, r1)" by fastforce
  have fall: "answers env c (FallingBack, l2) r2 res"
    if "(if mode l2 = DegradeModeDeny then Some ((False, Some ErrDegraded), l2, r2)
         else (let (now, r3) = time_now env r2;
                   (ok, m) = memory_Allow (map_range env r3) (unix_milli now) (lc_key c) (lc_limit c) (lc_window c) (fallback l2)
               in Some ((ok, None), l2\<lparr>fallback := m\<rparr>, r3))) = Some res" for l2 r2
  proof (cases "mode l2 = DegradeModeDeny")
    case True
    then have d: "draw env c (FallingBack, l2) r2 = (no_input, r2)" by simp
    from True that have "res = ((False, Some ErrDegraded), l2, r2)" by simp
    with True show ?thesis by (intro answers_step[OF d]) (simp add: answers_now)
  next
    case False
    obtain now' r3 where t': "time_now env r2 = (now', r3)" by fastforce
    from False t' have d: "draw env c (FallingBack, l2) r2 = (no_input\<lparr>in_now := now', in_order := map_range env r3\<rparr>, r3)"
      by simp
    obtain ok m where m: "memory_Allow (map_range env r3) (unix_milli now') (lc_key c) (lc_limit c) (lc_window c) (fallback l2) = (ok, m)"
      by fastforce
    from False that t' m have "res = ((ok, None), l2\<lparr>fallback := m\<rparr>, r3)" by simp
    with False m show ?thesis by (intro answers_step[OF d]) (simp add: answers_now)
  qed
  have no: "draw env c (Recovering, l2) r2 = (no_input, r2)" for l2 r2 by simp
  show ?thesis
  proof (cases "time_sub now (lastProbe l) < probeInterval l")
    case True
    then have p: "tryProbe env l r = (False, l, r1)" by (simp add: tryProbe_def t)
    from True t have d: "draw env c (Probing, l) r = (no_input\<lparr>in_now := now\<rparr>, r1)"
      by simp
    from assms(2) have "answers env c (FallingBack, l) r1 res"
      by (intro fall) (simp add: degradedAllow_def p)
    then show ?thesis by (intro answers_step[OF d]) (simp add: True)
  next
    case False
    obtain now2 r2 where t2: "time_now env r1 = (now2, r2)" by fastforce
    obtain ok r3 where g: "ping env r2 = (ok, r3)" by fastforce
    let ?l1 = "l\<lparr>lastProbe := now2\<rparr>"
    from False t t2 have d: "draw env c (Probing, l) r = (no_input\<lparr>in_now := now, in_now2 := now2\<rparr>, r2)"
      by simp
    from g have d2: "draw env c (Pinging, ?l1) r2 = (no_input\<lparr>in_ping := ok\<rparr>, r3)"
      by simp
    have "answers env c (Pinging, ?l1) r2 res"
    proof (cases ok)
      case True
      let ?l2 = "?l1\<lparr>degraded := False, consecutiveFailures := 0\<rparr>"
      from False t t2 g True have "tryProbe env l r = (True, ?l2, r3)" by (simp add: tryProbe_def Let_def)
      with assms(2) have "again ?l2 r3 = Some res" by (simp add: degradedAllow_def)
      from again[OF this] have "answers env c (Recovering, ?l1) r3 res"
        by (intro answers_step[OF no]) simp
      then show ?thesis by (intro answers_step[OF d2]) (simp add: True)
    next
      case nok: False
      from False t t2 g nok have "tryProbe env l r = (False, ?l1, r3)" by (simp add: tryProbe_def Let_def)
      with assms(2) have "answers env c (FallingBack, ?l1) r3 res"
        by (intro fall) (simp add: degradedAllow_def)
      then show ?thesis by (intro answers_step[OF d2]) (simp add: nok)
    qed
    then show ?thesis by (intro answers_step[OF d]) (simp add: False)
  qed
qed

lemma sending_alone:
  "redisAllow env fuel (lc_key c) (lc_limit c) (lc_window c) l r = Some res \<Longrightarrow> answers env c (Sending, l) r res"
proof (induction fuel arbitrary: l r res)
  case (Suc fuel)
  obtain reply r3 where a: "redis_attempt env (lc_key c) (lc_window c) r = (reply, r3)" by fastforce
  then have d: "draw env c (Sending, l) r = (no_input\<lparr>in_reply := reply\<rparr>, r3)" by simp
  have no: "draw env c (Failed, l) r3 = (no_input, r3)" by simp
  show ?case
  proof (cases reply)
    case (Some rs)
    with Suc.prems a have "res = ((reply_val rs 2 \<le> lc_limit c, None), l, r3)" by (simp add: redisAllow_Suc)
    with Some show ?thesis by (intro answers_step[OF d]) (simp add: answers_now)
  next
    case None
    let ?n = "consecutiveFailures l + 1"
    have "answers env c (Failed, l) r3 res"
    proof (cases "threshold l \<le> ?n")
      case True
      let ?l1 = "l\<lparr>consecutiveFailures := 0, degraded := True\<rparr>"
      from Suc.prems a None True have "degradedAllow env (redisAllow env fuel (lc_key c) (lc_limit c) (lc_window c))
          (lc_key c) (lc_limit c) (lc_window c) ?l1 r3 = Some res"
        by (simp add: redisAllow_Suc onRedisError_def)
      then have "answers env c (Probing, ?l1) r3 res" by (rule degraded_alone[rotated]) (rule Suc.IH)
      then show ?thesis by (intro answers_step[OF no]) (simp add: True)
    next
      case False
      with Suc.prems a None have "res = ((True, None), l\<lparr>consecutiveFailures := ?n\<rparr>, r3)"
        by (simp add: redisAllow_Suc onRedisError_def Let_def)
      with False show ?thesis by (intro answers_step[OF no]) (simp add: answers_now)
    qed
    with None show ?thesis by (intro answers_step[OF d]) simp
  qed
qed simp

text \<open>
  The steps refine the methods: whenever \<open>Limiter.Allow\<close> comes to an answer, a call that
  takes its steps without interruption, with inputs drawn in the order in which the code asks
  for them, comes to the same answer, the same limiter and the same outside world.
\<close>

lemma limiter_call_alone:
  assumes "Limiter_Allow env fuel key limit window l r = Some res"
  shows "answers env \<lparr>lc_key = key, lc_limit = limit, lc_window = window\<rparr> (Entered, l) r res"
proof -
  let ?c = "\<lparr>lc_key = key, lc_limit = limit, lc_window = window\<rparr>"
  have d: "draw env ?c (Entered, l) r = (no_input, r)" by simp
  show ?thesis
  proof (cases "degraded l")
    case True
    with assms have "degradedAllow env (redisAllow env fuel key limit window) key limit window l r = Some res"
      by (simp add: Limiter_Allow_def isDegraded_def)
    then have "answers env ?c (Probing, l) r res"
      by (intro degraded_alone[where again = "redisAllow env fuel key limit window"] sending_alone) simp_all
    then show ?thesis by (intro answers_step[OF d]) (simp add: True)
  next
    case False
    with assms have "answers env ?c (Sending, l) r res"
      by (intro sending_alone[of env fuel ?c]) (simp add: Limiter_Allow_def isDegraded_def)
    then show ?thesis by (intro answers_step[OF d]) (simp add: False)
  qed
qed

definition deny_limiter :: limiter where
  "deny_limiter = newLimiter \<lparr>DegradeMode = DegradeModeDeny, DegradeThreshold = 2, ProbeInterval = 0, MaxMemoryKeys = 0\<rparr>"

section \<open>Schedules\<close>

text \<open>
  A system is the limiter and the phase of every call; a schedule names the call that steps
  next and what it meets.  A run records its transitions, each with what the call met and the
  phase and the limiter before and after, and nothing else: what a request was answered, and on
  what grounds, is read off them.
\<close>

type_synonym limiter_system = "limiter \<times> (nat \<Rightarrow> phase)"
type_synonym limiter_schedule = "(nat \<times> step_input) list"

record transition =
  t_call :: nat
  t_input :: step_input
  t_phase :: phase
  t_limiter :: limiter
  t_next :: phase
  t_result :: limiter

fun limiter_schedule_run ::
  "(nat \<Rightarrow> limited_call) \<Rightarrow> limiter_schedule \<Rightarrow> limiter_system \<Rightarrow> transition list \<times> limiter_system" where
  "limiter_schedule_run calls [] s = ([], s)"
| "limiter_schedule_run calls ((c, i) # sch) (l, ph) =
     (let (p, l1) = call_step (calls c) i (ph c, l);
          (ts, s') = limiter_schedule_run calls sch (l1, ph(c := p))
      in (\<lparr>t_call = c, t_input = i, t_phase = ph c, t_limiter = l, t_next = p, t_result = l1\<rparr> # ts, s'))"

lemma run_Cons:
  assumes "limiter_schedule_run calls (x # sch) (l, ph) = (ts, s')"
  obtains c i p l1 ts' where "x = (c, i)" and "call_step (calls c) i (ph c, l) = (p, l1)"
    and "limiter_schedule_run calls sch (l1, ph(c := p)) = (ts', s')"
    and "ts = \<lparr>t_call = c, t_input = i, t_phase = ph c, t_limiter = l, t_next = p, t_result = l1\<rparr> # ts'"
  using assms by (cases x) (auto split: prod.splits)

text \<open>A new limiter and calls that have all yet to begin.\<close>

definition all_entered :: "nat \<Rightarrow> phase" where "all_entered c = Entered"

definition new_system :: "limiter_options \<Rightarrow> limiter_system" where
  "new_system opts = (newLimiter opts, all_entered)"

fun is_answer :: "phase \<Rightarrow> bool" where
  "is_answer (Answered ok e) = True"
| "is_answer p = False"

fun is_pass :: "phase \<Rightarrow> bool" where
  "is_pass (Answered ok e) = ok"
| "is_pass p = False"

definition answers_now :: "transition \<Rightarrow> bool" where
  "answers_now t \<longleftrightarrow> \<not> is_answer (t_phase t) \<and> is_answer (t_next t)"

text \<open>
  The two grounds on which a request may pass: the count Redis returned for its pipeline is
  within its limit, or the in-process limiter admits it, and has recorded it.
\<close>

definition fallback_verdict :: "limited_call \<Rightarrow> transition \<Rightarrow> bool \<times> memoryLimiter" where
  "fallback_verdict c t =
     (let i = t_input t in
      memory_Allow (in_order i) (unix_milli (in_now i)) (lc_key c) (lc_limit c) (lc_window c) (fallback (t_limiter t)))"

definition checked :: "limited_call \<Rightarrow> transition \<Rightarrow> bool" where
  "checked c t \<longleftrightarrow>
     t_phase t = Sending \<and>
       (case in_reply (t_input t) of None \<Rightarrow> False | Some rs \<Rightarrow> reply_val rs 2 \<le> lc_limit c) \<or>
     t_phase t = FallingBack \<and> fallback_verdict c t = (True, fallback (t_result t))"

definition slips_through :: "(nat \<Rightarrow> limited_call) \<Rightarrow> transition \<Rightarrow> bool" where
  "slips_through calls t \<longleftrightarrow>
     \<not> is_answer (t_phase t) \<and> is_pass (t_next t) \<and> \<not> checked (calls (t_call t)) t"

text \<open>A failed pipeline that degrades the limiter, its own call not being let through; a ping
  that Redis answers.\<close>

definition trips :: "transition \<Rightarrow> bool" where
  "trips t \<longleftrightarrow> t_phase t = Failed \<and> \<not> is_answer (t_next t) \<and> degraded (t_result t)"

definition ping_answered :: "transition \<Rightarrow> bool" where
  "ping_answered t \<longleftrightarrow> t_phase t = Pinging \<and> in_ping (t_input t)"

definition recovers :: "transition \<Rightarrow> bool" where
  "recovers t \<longleftrightarrow> t_phase t = Recovering"

definition tally :: "(transition \<Rightarrow> bool) \<Rightarrow> transition list \<Rightarrow> int" where
  "tally P ts = int (length (filter P ts))"

lemma tally_simps [simp]:
  "tally P [] = 0"
  "tally P (t # ts) = (if P t then 1 else 0) + tally P ts"
  by (simp_all add: tally_def)

lemmas transition_defs = answers_now_def checked_def slips_through_def trips_def ping_answered_def
  recovers_def fallback_verdict_def

text \<open>What one step leaves alone.\<close>

lemma call_step_frame:
  assumes "call_step c i (p, l) = (p', l')"
  shows "threshold l' = threshold l" "probeInterval l' = probeInterval l" "mode l' = mode l"
  using assms by (cases p; auto simp: Let_def split: if_splits option.splits prod.splits)+

section \<open>Requests let through unchecked\<close>

text \<open>Each unchecked pass is in the failure counter until a trip or a recovery clears it.\<close>

lemma step_account:
  assumes "call_step (calls c) i (p, l) = (p', l')" and "consecutiveFailures l < threshold l" and "0 \<le> consecutiveFailures l"
    and "t = \<lparr>t_call = c, t_input = i, t_phase = p, t_limiter = l, t_next = p', t_result = l'\<rparr>"
  shows "consecutiveFailures l' < threshold l" "0 \<le> consecutiveFailures l'"
    "tally (slips_through calls) [t] + consecutiveFailures l
       \<le> (threshold l - 1) * (tally trips [t] + tally recovers [t]) + consecutiveFailures l'"
  using assms
  by (cases p; auto simp: transition_defs Let_def split: if_splits option.splits prod.splits)+

lemma run_account:
  assumes "limiter_schedule_run calls sch (l, ph) = (ts, l', ph')"
    and "consecutiveFailures l < threshold l" and "0 \<le> consecutiveFailures l"
  shows "consecutiveFailures l' < threshold l \<and> tally (slips_through calls) ts + consecutiveFailures l
       \<le> (threshold l - 1) * (tally trips ts + tally recovers ts) + consecutiveFailures l'"
  using assms
proof (induction sch arbitrary: l ph ts)
  case (Cons x sch)
  from Cons.prems(1) obtain c i p l1 ts' where st: "call_step (calls c) i (ph c, l) = (p, l1)"
    and run: "limiter_schedule_run calls sch (l1, ph(c := p)) = (ts', l', ph')"
    and ts: "ts = \<lparr>t_call = c, t_input = i, t_phase = ph c, t_limiter = l, t_next = p, t_result = l1\<rparr> # ts'"
    by (rule run_Cons)
  note acc = step_account[where calls = calls and c = c and p = "ph c", OF st Cons.prems(2,3) refl]
  have "consecutiveFailures l1 < threshold l1" using acc(1) call_step_frame(1)[OF st] by simp
  from Cons.IH[OF run this acc(2)] acc(3) show ?case
    unfolding ts by (simp add: call_step_frame(1)[OF st] algebra_simps split: if_splits)
qed simp

text \<open>Behind every recovery is a ping that Redis answered.\<close>

lemma run_recoveries:
  assumes "limiter_schedule_run calls sch (l, ph) = (ts, l', ph')" and "finite {c. ph c = Recovering}"
  shows "tally recovers ts + int (card {c. ph' c = Recovering})
    = tally ping_answered ts + int (card {c. ph c = Recovering})"
  using assms
proof (induction sch arbitrary: l ph ts)
  case (Cons x sch)
  from Cons.prems(1) obtain c i p l1 ts' where st: "call_step (calls c) i (ph c, l) = (p, l1)"
    and run: "limiter_schedule_run calls sch (l1, ph(c := p)) = (ts', l', ph')"
    and ts: "ts = \<lparr>t_call = c, t_input = i, t_phase = ph c, t_limiter = l, t_next = p, t_result = l1\<rparr> # ts'"
    by (rule run_Cons)
  let ?R = "{d. ph d = Recovering}"
  have R: "{d. (ph(c := p)) d = Recovering} = (if p = Recovering then insert c ?R else ?R - {c})" by auto
  let ?t = "\<lparr>t_call = c, t_input = i, t_phase = ph c, t_limiter = l, t_next = p, t_result = l1\<rparr>"
  from Cons.prems(2) have "finite {d. (ph(c := p)) d = Recovering}" unfolding R by simp
  from Cons.IH[OF run this] have IH: "tally recovers ts' + int (card {c. ph' c = Recovering})
      = tally ping_answered ts' + int (card (if p = Recovering then insert c ?R else ?R - {c}))" unfolding R .
  have p: "p = Recovering \<longleftrightarrow> ping_answered ?t"
    using st by (cases "ph c") (auto simp: transition_defs Let_def split: if_splits option.splits prod.splits)
  have c: "c \<in> ?R \<longleftrightarrow> recovers ?t" by (simp add: recovers_def)
  have "int (card (if p = Recovering then insert c ?R else ?R - {c})) + tally recovers [?t]
      = int (card ?R) + tally ping_answered [?t]"
  proof (cases "c \<in> ?R")
    case True
    then have "\<not> ping_answered ?t" by (simp add: ping_answered_def)
    moreover have "Suc (card (?R - {c})) = card ?R" using card.remove[OF Cons.prems(2) True] by simp
    ultimately show ?thesis using True c p by simp
  next
    case False
    with Cons.prems(2) c p show ?thesis by simp
  qed
  with IH show ?case unfolding ts by (simp split: if_splits)
qed simp

text \<open>
  (C25) However calls are interleaved, a new limiter lets at most threshold minus one requests
  through unchecked for every time it trips and every ping Redis answers, and once more: all
  other requests that pass do so on a count from Redis within their limit, or on the verdict of
  the in-process limiter, which has recorded them.
\<close>

theorem fail_opens_are_bounded:
  "let (ts, s') = limiter_schedule_run calls sch (new_system opts)
   in tally (slips_through calls) ts
        \<le> (threshold (newLimiter opts) - 1) * (1 + tally trips ts + tally ping_answered ts)"
proof -
  let ?l = "newLimiter opts"
  obtain ts l' ph' where run: "limiter_schedule_run calls sch (?l, all_entered) = (ts, l', ph')"
    by (metis prod.exhaust)
  have wf: "consecutiveFailures ?l = 0" "0 < threshold ?l" by (simp_all add: newLimiter_def)
  have none: "{c. all_entered c = Recovering} = {}" by (simp add: all_entered_def)
  from run_recoveries[OF run] none have "tally recovers ts \<le> tally ping_answered ts" by simp
  with wf have "(threshold ?l - 1) * tally recovers ts \<le> (threshold ?l - 1) * tally ping_answered ts"
    by (intro mult_left_mono) simp_all
  with run_account[OF run] wf show ?thesis by (simp add: new_system_def run algebra_simps)
qed

text \<open>
  Three calls in flight on a limiter with threshold two while Redis stops answering: the first
  failure passes, the second trips the limiter, and the third, which was sent before the trip,
  passes although the limiter is degraded.
\<close>

definition blip_calls :: "nat \<Rightarrow> limited_call" where
  "blip_calls c = \<lparr>lc_key = ''k'', lc_limit = 5, lc_window = minute\<rparr>"

definition blip_schedule :: limiter_schedule where
  "blip_schedule = map (\<lambda>c. (c, no_input)) [0, 1, 2, 0, 1, 2, 0, 1, 2]"

lemmas blip_defs = blip_calls_def blip_schedule_def all_entered_def no_input_def deny_limiter_def
  newLimiter_def DegradeModeDeny_def DegradeModeMemory_def numeral_eq_Suc

lemma blip_run:
  "let (ts, l', ph') = limiter_schedule_run blip_calls blip_schedule (deny_limiter, all_entered)
   in map t_call (filter (slips_through blip_calls) ts) = [0, 2] \<and> map t_call (filter trips ts) = [1] \<and>
      degraded l' \<and> ph' 1 = Probing"
  by (simp add: blip_defs transition_defs)

section \<open>Degraded\<close>

text \<open>Calls that may still pass unchecked although the limiter is degraded.\<close>

definition in_flight :: "(nat \<Rightarrow> phase) \<Rightarrow> nat set" where
  "in_flight ph = {c. ph c = Sending \<or> ph c = Failed}"

text \<open>The answers of a degraded limiter: a refusal in deny mode, else the in-process limiter's
  verdict, which is recorded.\<close>

definition denied_or_counted :: "limited_call \<Rightarrow> transition \<Rightarrow> bool" where
  "denied_or_counted c t \<longleftrightarrow>
     t_phase t = FallingBack \<and>
     (if mode (t_limiter t) = DegradeModeDeny then t_next t = Answered False (Some ErrDegraded)
      else t_next t = Answered (fst (fallback_verdict c t)) None \<and>
           fallback (t_result t) = snd (fallback_verdict c t))"

lemma degraded_step:
  assumes "call_step (calls c) i (ph c, l) = (p, l1)" and "degraded l" and "\<forall>d. ph d \<noteq> Recovering" and "\<not> in_ping i"
    and "t = \<lparr>t_call = c, t_input = i, t_phase = ph c, t_limiter = l, t_next = p, t_result = l1\<rparr>"
  shows "degraded l1" and "p \<noteq> Recovering" and "in_flight (ph(c := p)) \<subseteq> in_flight ph"
    and "slips_through calls t \<Longrightarrow> c \<in> in_flight ph \<and> c \<notin> in_flight (ph(c := p))"
    and "answers_now t \<Longrightarrow> c \<notin> in_flight ph \<Longrightarrow> denied_or_counted (calls c) t"
  using assms
  by (cases "ph c"; auto simp: in_flight_def denied_or_counted_def transition_defs Let_def
        split: if_splits option.splits prod.splits)+

text \<open>
  (C26) From a degraded limiter on, with no recovery under way and as long as Redis answers no
  ping, in any interleaving: the
  limiter stays degraded, the only requests it lets through unchecked are calls that had already
  been sent to Redis, each at most once, and every other call is refused with
  \<open>ErrDegraded\<close> in deny mode and otherwise gets, and is recorded with, the verdict of the
  in-process limiter.
\<close>

theorem degraded_limiter_fails_open_in_flight_only:
  assumes "degraded l" and "\<forall>c. ph c \<noteq> Recovering" and "\<forall>(c, i) \<in> set sch. \<not> in_ping i"
    and "limiter_schedule_run calls sch (l, ph) = (ts, l', ph')"
  shows "degraded l' \<and> distinct (map t_call (filter (slips_through calls) ts)) \<and>
    t_call ` set (filter (slips_through calls) ts) \<subseteq> in_flight ph \<and>
    (\<forall>t \<in> set ts. answers_now t \<and> t_call t \<notin> in_flight ph \<longrightarrow> denied_or_counted (calls (t_call t)) t)"
  using assms
proof (induction sch arbitrary: l ph ts)
  case (Cons x sch)
  from Cons.prems(4) obtain c i p l1 ts' where x: "x = (c, i)" and st: "call_step (calls c) i (ph c, l) = (p, l1)"
    and run: "limiter_schedule_run calls sch (l1, ph(c := p)) = (ts', l', ph')"
    and ts: "ts = \<lparr>t_call = c, t_input = i, t_phase = ph c, t_limiter = l, t_next = p, t_result = l1\<rparr> # ts'"
    by (rule run_Cons)
  have i: "\<not> in_ping i" and later: "\<forall>(c, i) \<in> set sch. \<not> in_ping i" using Cons.prems(3) by (auto simp: x)
  note step = degraded_step[where calls = calls and c = c and ph = ph, OF st Cons.prems(1,2) i refl]
  have "\<forall>d. (ph(c := p)) d \<noteq> Recovering" using Cons.prems(2) step(2) by simp
  note IH = Cons.IH[OF step(1) this later run]
  let ?t = "\<lparr>t_call = c, t_input = i, t_phase = ph c, t_limiter = l, t_next = p, t_result = l1\<rparr>"
  have "slips_through calls ?t \<Longrightarrow> c \<notin> t_call ` set (filter (slips_through calls) ts')"
    using IH step(4) by blast
  moreover have "\<forall>t \<in> set ts'. answers_now t \<and> t_call t \<notin> in_flight ph \<longrightarrow> denied_or_counted (calls (t_call t)) t"
    using IH step(3) by blast
  moreover have "t_call ` set (filter (slips_through calls) ts') \<subseteq> in_flight ph" using IH step(3) by blast
  ultimately show ?case using IH step(4,5) by (simp add: ts image_iff)
qed simp

lemma degraded_limiter_fails_open_in_flight_only_witness:
  "let (ts, l', ph') = limiter_schedule_run blip_calls [(2, no_input), (3, no_input), (2, no_input), (3, no_input), (3, no_input)]
                   (deny_limiter\<lparr>degraded := True, lastProbe := 0\<rparr>, all_entered(2 := Sending))
   in degraded l' \<and> set (map t_call (filter (slips_through blip_calls) ts)) \<subseteq> {2} \<and>
      ph' 3 = Answered False (Some ErrDegraded)"
proof -
  let ?l = "deny_limiter\<lparr>degraded := True, lastProbe := 0\<rparr>" and ?ph = "all_entered(2 := Sending)"
    and ?sch = "[(2, no_input), (3, no_input), (2, no_input), (3, no_input), (3, no_input)]"
  obtain ts l' ph' where run: "limiter_schedule_run blip_calls ?sch (?l, ?ph) = (ts, l', ph')"
    by (metis prod.exhaust)
  have "in_flight ?ph = {2}" by (auto simp: in_flight_def all_entered_def)
  moreover have "\<forall>c. ?ph c \<noteq> Recovering" "\<forall>(c, i) \<in> set ?sch. \<not> in_ping i" "degraded ?l"
    by (simp_all add: all_entered_def no_input_def)
  note degraded_limiter_fails_open_in_flight_only[OF this(3,1,2) run]
  moreover have "ph' 3 = Answered False (Some ErrDegraded)"
    using run by (auto simp: blip_calls_def all_entered_def no_input_def deny_limiter_def newLimiter_def
        DegradeModeDeny_def DegradeModeMemory_def time_sub_def)
  ultimately show ?thesis unfolding run by simp
qed

section \<open>Probes\<close>

text \<open>The instants at which calls go on to ping Redis, as they read them from the clock.\<close>

definition goes_to_ping :: "transition \<Rightarrow> bool" where
  "goes_to_ping t \<longleftrightarrow> t_phase t \<noteq> Pinging \<and> t_next t = Pinging"

definition reservations :: "transition list \<Rightarrow> int list" where
  "reservations ts = map (\<lambda>t. in_now2 (t_input t)) (filter goes_to_ping ts)"

lemma reservations_simps [simp]:
  "reservations [] = []"
  "reservations (t # ts) = (if goes_to_ping t then in_now2 (t_input t) # reservations ts else reservations ts)"
  by (simp_all add: reservations_def)

lemma time_sub_reaches: "0 < d \<Longrightarrow> \<not> time_sub a b < d \<Longrightarrow> b + d \<le> a"
  by (auto simp: time_sub_def max_def min_def split: if_splits)

lemma step_reserves:
  assumes "call_step c i (p, l) = (p', l')" and "0 < probeInterval l" and "in_now i \<le> in_now2 i"
  shows "if p \<noteq> Pinging \<and> p' = Pinging then lastProbe l' = in_now2 i \<and> lastProbe l + probeInterval l \<le> in_now2 i
    else lastProbe l' = lastProbe l"
  using assms
  by (cases p; auto simp: Let_def dest!: time_sub_reaches split: if_splits option.splits prod.splits)

lemma probes_spaced:
  assumes "0 < probeInterval l" and "\<forall>(c, i) \<in> set sch. in_now i \<le> in_now2 i"
    and "limiter_schedule_run calls sch (l, ph) = (ts, s')"
  shows "sorted_wrt (\<lambda>a b. a + probeInterval l \<le> b) (lastProbe l # reservations ts)"
  using assms
proof (induction sch arbitrary: l ph ts)
  case (Cons x sch)
  from Cons.prems(3) obtain c i p l1 ts' where x: "x = (c, i)" and st: "call_step (calls c) i (ph c, l) = (p, l1)"
    and run: "limiter_schedule_run calls sch (l1, ph(c := p)) = (ts', s')"
    and ts: "ts = \<lparr>t_call = c, t_input = i, t_phase = ph c, t_limiter = l, t_next = p, t_result = l1\<rparr> # ts'"
    by (rule run_Cons)
  from call_step_frame(2)[OF st] have same: "probeInterval l1 = probeInterval l" .
  from Cons.prems(1,2) x same have "0 < probeInterval l1" "\<forall>(c, i) \<in> set sch. in_now i \<le> in_now2 i" "in_now i \<le> in_now2 i"
    by auto
  with Cons.IH[OF this(1,2) run] step_reserves[OF st Cons.prems(1) this(3)] same Cons.prems(1)
  show ?case by (auto simp: ts goes_to_ping_def split: if_splits)
qed simp

text \<open>
  (C27) However calls are interleaved, the instants at which they go on to ping Redis lie at least
  the probe interval apart, the first one an interval after the last probe before.  The interval
  is positive, as \<open>newLimiter\<close> makes it, and of the two readings of the clock within one section
  of \<open>tryProbe\<close> the second is not before the first; nothing else is asked of the clock.
\<close>

theorem probes_are_spaced:
  assumes "0 < probeInterval l" and "\<forall>(c, i) \<in> set sch. in_now i \<le> in_now2 i"
    and "limiter_schedule_run calls sch (l, ph) = (ts, s')"
  shows "sorted_wrt (\<lambda>a b. a + probeInterval l \<le> b) (lastProbe l # reservations ts)"
  by (rule probes_spaced[OF assms])

lemma probes_are_spaced_witness:
  "sorted_wrt (\<lambda>a b. a + 15000000000 \<le> b) [zero_time, 20, 15000000020]"
proof -
  let ?i = "\<lambda>t. no_input\<lparr>in_now := t, in_now2 := t\<rparr>"
  let ?sch = "[(0, ?i 10), (1, ?i 10), (0, ?i 20), (1, ?i 30), (2, ?i 30), (2, ?i 15000000020)]"
  let ?l = "deny_limiter\<lparr>degraded := True\<rparr>"
  obtain ts s' where run: "limiter_schedule_run blip_calls ?sch (?l, all_entered) = (ts, s')" by (metis prod.exhaust)
  then have "reservations ts = [20, 15000000020]"
    by (auto simp: blip_calls_def all_entered_def no_input_def deny_limiter_def newLimiter_def time_sub_def
        zero_time_def goes_to_ping_def)
  moreover have "0 < probeInterval ?l" "\<forall>(c, i) \<in> set ?sch. in_now i \<le> in_now2 i"
    by (simp_all add: deny_limiter_def newLimiter_def no_input_def)
  note probes_are_spaced[OF this run]
  ultimately show ?thesis by (simp add: deny_limiter_def newLimiter_def)
qed

section \<open>Every call is answered\<close>

text \<open>The steps a call can take without another reservation of a probe.\<close>

fun steps_left :: "phase \<Rightarrow> int" where
  "steps_left Entered = 5"
| "steps_left Sending = 4"
| "steps_left Failed = 3"
| "steps_left Probing = 2"
| "steps_left Pinging = 6"
| "steps_left Recovering = 5"
| "steps_left FallingBack = 1"
| "steps_left (Answered ok e) = 0"

lemma steps_left_step:
  assumes "call_step c i (p, l) = (p', l')"
  shows "(if is_answer p then 0 else 1) + steps_left p' \<le> steps_left p + 5 * (if p \<noteq> Pinging \<and> p' = Pinging then 1 else 0)"
    and "is_answer p \<Longrightarrow> is_answer p'"
  using assms by (cases p; auto simp: Let_def split: if_splits option.splits prod.splits)+

definition turns :: "nat \<Rightarrow> limiter_schedule \<Rightarrow> int" where
  "turns c sch = int (length (filter (\<lambda>x. fst x = c) sch))"

lemma steps_left_run:
  assumes "limiter_schedule_run calls sch (l, ph) = (ts, l', ph')" and "\<not> is_answer (ph' c)"
  shows "turns c sch + steps_left (ph' c) \<le> steps_left (ph c) + 5 * int (length (reservations ts)) \<and> \<not> is_answer (ph c)"
  using assms(1)
proof (induction sch arbitrary: l ph ts)
  case Nil
  with assms(2) show ?case by (simp add: turns_def)
next
  case (Cons x sch)
  from Cons.prems obtain d i p l1 ts' where x: "x = (d, i)" and st: "call_step (calls d) i (ph d, l) = (p, l1)"
    and run: "limiter_schedule_run calls sch (l1, ph(d := p)) = (ts', l', ph')"
    and ts: "ts = \<lparr>t_call = d, t_input = i, t_phase = ph d, t_limiter = l, t_next = p, t_result = l1\<rparr> # ts'"
    by (rule run_Cons)
  from Cons.IH[OF run] steps_left_step[OF st] show ?case
    by (cases "c = d") (auto simp: x ts turns_def goes_to_ping_def split: if_splits)
qed

lemma steps_left_pos: "\<not> is_answer p \<Longrightarrow> 1 \<le> steps_left p"
  by (cases p) simp_all

lemma spaced_length:
  assumes "0 < d" and "sorted_wrt (\<lambda>a b. a + d \<le> b) ts" and "\<forall>t \<in> set ts. t0 \<le> t \<and> t \<le> t1" and "t0 \<le> t1"
  shows "int (length ts) \<le> 1 + (t1 - t0) div d"
proof (cases ts)
  case Nil
  with assms(1,4) show ?thesis by (simp add: pos_imp_zdiv_nonneg_iff)
next
  case (Cons x xs)
  have "int (length xs) * d \<le> t1 - x" using assms(2,3) unfolding Cons
  proof (induction xs arbitrary: x)
    case (Cons y ys)
    from Cons.IH[of y] Cons.prems have "int (length ys) * d \<le> t1 - y" "x + d \<le> y" by simp_all
    then show ?case by (simp add: algebra_simps)
  qed simp
  moreover have "t1 - x \<le> t1 - t0" using assms(3) Cons by simp
  ultimately have "int (length xs) * d \<le> t1 - t0" by linarith
  then have "int (length xs) \<le> (t1 - t0) div d"
    using zdiv_mono1[of "int (length xs) * d" "t1 - t0" d] assms(1) by simp
  then show ?thesis by (simp add: Cons)
qed

text \<open>
  (C28) No call loops for ever, whatever the threshold, Redis' answers and the other calls: a
  call that has taken ten steps since it began, and five more for every probe interval between
  bounds \<open>t0\<close> and \<open>t1\<close> on the readings of the clock, has its answer.  The probe interval is
  positive, as \<open>newLimiter\<close> makes it, and the second reading of the clock within a section of
  \<open>tryProbe\<close> is not before the first.
\<close>

theorem every_call_is_answered:
  assumes "0 < probeInterval l" and "ph c = Entered"
    and "\<forall>(d, i) \<in> set sch. in_now i \<le> in_now2 i \<and> t0 \<le> in_now2 i \<and> in_now2 i \<le> t1" and "t0 \<le> t1"
    and "10 + 5 * ((t1 - t0) div probeInterval l) \<le> turns c sch"
  shows "\<exists>ok e. snd (snd (limiter_schedule_run calls sch (l, ph))) c = Answered ok e"
proof -
  obtain ts l' ph' where run: "limiter_schedule_run calls sch (l, ph) = (ts, l', ph')" by (metis prod.exhaust)
  have times: "set (reservations ts) \<subseteq> (\<lambda>(d, i). in_now2 i) ` set sch" using run
  proof (induction sch arbitrary: l ph ts)
    case (Cons x sch)
    from Cons.prems obtain d i p l1 ts' where "x = (d, i)"
      and "limiter_schedule_run calls sch (l1, ph(d := p)) = (ts', l', ph')"
      and "ts = \<lparr>t_call = d, t_input = i, t_phase = ph d, t_limiter = l, t_next = p, t_result = l1\<rparr> # ts'"
      by (rule run_Cons)
    with Cons.IH[OF this(2)] show ?case by auto
  qed simp
  have "sorted_wrt (\<lambda>a b. a + probeInterval l \<le> b) (lastProbe l # reservations ts)"
    using assms(3) by (intro probes_spaced[OF assms(1) _ run]) auto
  then have "int (length (reservations ts)) \<le> 1 + (t1 - t0) div probeInterval l"
    using times assms(3) by (intro spaced_length[OF assms(1) _ _ assms(4)]) auto
  with steps_left_run[OF run, of c] steps_left_pos[of "ph' c"] assms(2,5) have "is_answer (ph' c)" by force
  then show ?thesis by (cases "ph' c") (simp_all add: run)
qed

lemma every_call_is_answered_witness:
  "\<exists>ok e. snd (snd (limiter_schedule_run blip_calls (replicate 10 (0, no_input))
     (deny_limiter\<lparr>threshold := 1\<rparr>, all_entered))) 0 = Answered ok e"
  by (rule every_call_is_answered[where ?t0.0 = 0 and ?t1.0 = 0])
    (simp_all add: deny_limiter_def newLimiter_def all_entered_def no_input_def turns_def)

end
