(* ===== verification/Redis_Window.thy ===== *)
theory Redis_Window
  imports Redis_Limiter
begin

text \<open>
  The sliding window that \<open>redisAllow\<close> (\<open>internal/ratelimit/limiter.go\<close>) builds out of Redis
  commands.  \<open>zcmd\<close> states what the four commands do to a sorted set with an expiry, as the
  Redis manual documents them; \<open>shared_redis\<close> is the hypothesis that a pipeline the limiter
  executes is one of those that Redis ran, one after another, for this and any other gateway.
  The property is the one the code wants: a request passes exactly when at most \<open>limit\<close>
  requests on its key, itself included, are less than a window old.
\<close>

section \<open>Sorted sets with an expiry\<close>

text \<open>Members with their scores, newest first, and the instant the key expires at, in
  milliseconds of the server's clock.  A key without members does not exist.\<close>

record zset =
  zmembers :: "(string \<times> int) list"
  zdeadline :: "int option"

type_synonym zstore = "string \<Rightarrow> zset"

definition empty_zset :: zset where
  "empty_zset = \<lparr>zmembers = [], zdeadline = None\<rparr>"

definition live :: "int \<Rightarrow> zset \<Rightarrow> zset" where
  "live clk z = (case zdeadline z of Some d \<Rightarrow> if d \<le> clk then empty_zset else z | None \<Rightarrow> z)"

definition score_of :: "string \<Rightarrow> int" where
  "score_of s =
     (let digits = (\<lambda>t. foldl (\<lambda>a c. 10 * a + (of_char c - 48)) 0 t)
      in (case s of c # t \<Rightarrow> if c = CHR ''-'' then - digits t else digits s | [] \<Rightarrow> 0))"

text \<open>\<open>Expire\<close> sends whole seconds.\<close>

fun zcmd :: "int \<Rightarrow> redis_cmd \<Rightarrow> zstore \<Rightarrow> int \<times> zstore" where
  "zcmd clk (ZRemRangeByScore k lo hi) s =
     (let z = live clk (s k);
          kept = filter (\<lambda>(m, t). \<not> (score_of lo \<le> t \<and> t \<le> score_of hi)) (zmembers z)
      in (int (length (zmembers z) - length kept),
          s(k := if kept = [] then empty_zset else z\<lparr>zmembers := kept\<rparr>)))"
| "zcmd clk (ZAdd k t m) s =
     (let z = live clk (s k); others = filter (\<lambda>(m', _). m' \<noteq> m) (zmembers z)
      in (if length others < length (zmembers z) then 0 else 1, s(k := z\<lparr>zmembers := (m, t) # others\<rparr>)))"
| "zcmd clk (ZCard k) s = (int (length (zmembers (live clk (s k)))), s)"
| "zcmd clk (Expire k d) s =
     (let z = live clk (s k)
      in if zmembers z = [] then (0, s) else (1, s(k := z\<lparr>zdeadline := Some (clk + 1000 * (d div 1000000000))\<rparr>)))"

fun zrun :: "int \<Rightarrow> redis_cmd list \<Rightarrow> zstore \<Rightarrow> int list \<times> zstore" where
  "zrun clk [] s = ([], s)"
| "zrun clk (c # cs) s =
     (let (n, s1) = zcmd clk c s; (ns, s2) = zrun clk cs s1 in (n # ns, s2))"

section \<open>Redis behind several gateways\<close>

text \<open>A pipeline as Redis ran it: the request's key, the gateway's reading of its clock, the
  window, the member it adds, and the server's clock.\<close>

record window_request =
  wr_key :: string
  wr_now :: int
  wr_window :: int
  wr_id :: string
  wr_clock :: int

definition request_cmds :: "window_request \<Rightarrow> redis_cmd list" where
  "request_cmds q = window_pipeline (wr_key q) (wr_now q) (wr_window q) (wr_id q)"

definition store_of :: "window_request list \<Rightarrow> zstore" where
  "store_of qs = foldl (\<lambda>s q. snd (zrun (wr_clock q) (request_cmds q) s)) (\<lambda>_. empty_zset) qs"

definition shared_redis :: "('r, 'x) redis_env_scheme \<Rightarrow> ('r \<Rightarrow> window_request list) \<Rightarrow> bool" where
  "shared_redis env history \<longleftrightarrow>
     (\<forall>key now window reqID r rs r'.
        pipe_exec env (window_pipeline key now window reqID) r = (Some rs, r') \<longrightarrow>
        (\<exists>before q. history r' = before @ [q] \<and>
           (wr_key q, wr_now q, wr_window q, wr_id q) = (key, now, window, reqID) \<and>
           rs = fst (zrun (wr_clock q) (request_cmds q) (store_of before))))"

text \<open>
  What the window needs of the clocks: the gateways' readings reach Redis in order, and the
  distance of the server's clock from them varies by at most the second by which the code
  prolongs the expiry.  Request identifiers are fresh, and all requests use one window of
  whole seconds.
\<close>

definition orderly :: "int \<Rightarrow> window_request list \<Rightarrow> bool" where
  "orderly window qs \<longleftrightarrow>
     0 < window \<and> window mod 1000000000 = 0 \<and>
     (\<forall>q \<in> set qs. wr_window q = window \<and> 0 \<le> wr_now q) \<and>
     sorted (map wr_now qs) \<and> distinct (map wr_id qs) \<and>
     (\<exists>d. \<forall>q \<in> set qs. d \<le> wr_clock q - wr_now q \<and> wr_clock q - wr_now q \<le> d + 1000)"

definition requests_since :: "int \<Rightarrow> string \<Rightarrow> window_request list \<Rightarrow> window_request list" where
  "requests_since start key qs = filter (\<lambda>q. wr_key q = key \<and> start < wr_now q) qs"

section \<open>The pipeline\<close>

lemma digit_value: "n < 10 \<Longrightarrow> of_char (char_of (48 + n) :: char) = 48 + int n"
proof -
  assume "n < 10"
  then have "of_char (char_of (48 + n) :: char) = (48 + n :: nat)" by simp
  then show ?thesis by (metis of_nat_add of_nat_numeral of_nat_of_char)
qed

lemma show_nat_digit_values:
  "foldl (\<lambda>a c. 10 * a + (of_char c - 48)) 0 (show_nat n) = int n"
proof (induction n rule: show_nat.induct)
  case (1 n)
  show ?case
    using 1 digit_value[of n] digit_value[of "n mod 10"]
    by (cases "n < 10") (simp_all add: show_nat.simps[of n] of_nat_div of_nat_mod)
qed

lemma show_nat_no_minus: "show_nat n \<noteq> [] \<and> hd (show_nat n) \<noteq> CHR ''-''"
proof (induction n rule: show_nat.induct)
  case (1 n)
  have "char_of (48 + n) \<noteq> CHR ''-''" if "n < 10"
  proof
    assume "char_of (48 + n) = CHR ''-''"
    then have "of_char (char_of (48 + n) :: char) = (45 :: nat)" by simp
    with that show False by simp
  qed
  with 1 show ?case by (cases "n < 10") (simp_all add: show_nat.simps[of n])
qed

lemma score_of_show_int [simp]: "score_of (show_int i) = i"
proof (cases "i < 0")
  case True
  then show ?thesis by (simp add: score_of_def show_int_def show_nat_digit_values)
next
  case False
  obtain c t where "show_nat (nat i) = c # t" "c \<noteq> CHR ''-''"
    using show_nat_no_minus[of "nat i"] by (cases "show_nat (nat i)") auto
  with False show_nat_digit_values[of "nat i"] show ?thesis by (simp add: score_of_def show_int_def)
qed

lemma score_of_zero [simp]: "score_of ''0'' = 0"
  by (simp add: score_of_def)

lemma zmembers_empty [simp]: "zmembers empty_zset = []"
  by (simp add: empty_zset_def)

lemma live_live [simp]: "live clk (live clk z) = live clk z" "live clk empty_zset = empty_zset"
  "live clk (live clk z\<lparr>zmembers := ms\<rparr>) = live clk z\<lparr>zmembers := ms\<rparr>"
  by (auto simp: live_def empty_zset_def split: option.splits)

definition kept_members :: "int \<Rightarrow> zset \<Rightarrow> (string \<times> int) list" where
  "kept_members start z = filter (\<lambda>(m, t). \<not> (0 \<le> t \<and> t \<le> start)) (zmembers z)"

text \<open>The pipeline removes what is a window old, adds the request, counts and prolongs.\<close>

lemma pipeline_run:
  assumes "rid \<notin> fst ` set (zmembers (live clk (s k)))"
    and kept_def: "kept = kept_members (now - milliseconds window) (live clk (s k))"
  shows "fst (zrun clk (window_pipeline k now window rid) s) ! 2 = int (length kept) + 1"
    and "length (fst (zrun clk (window_pipeline k now window rid) s)) = 4"
    and "snd (zrun clk (window_pipeline k now window rid) s) =
      s(k := \<lparr>zmembers = (rid, now) # kept, zdeadline = Some (clk + 1000 * ((window + 1000000000) div 1000000000))\<rparr>)"
proof -
  let ?z = "live clk (s k)"
  define z1 where "z1 = (if kept = [] then empty_zset else ?z\<lparr>zmembers := kept\<rparr>)"
  have z1: "zmembers z1 = kept" "live clk z1 = z1" "live clk (z1\<lparr>zmembers := ms\<rparr>) = z1\<lparr>zmembers := ms\<rparr>" for ms
    by (auto simp: z1_def empty_zset_def live_def split: option.splits)
  have "rid \<notin> fst ` set kept" using assms(1) by (auto simp: kept_def kept_members_def)
  then have others: "filter (\<lambda>(m', _). m' \<noteq> rid) kept = kept" by (force simp: filter_id_conv)
  have rem: "zcmd clk (ZRemRangeByScore k ''0'' (show_int (now - milliseconds window))) s
      = (int (length (zmembers ?z) - length kept), s(k := z1))"
    by (simp add: kept_def kept_members_def z1_def Let_def)
  have add: "zcmd clk (ZAdd k now rid) (s(k := z1)) = (1, s(k := z1\<lparr>zmembers := (rid, now) # kept\<rparr>))"
    by (simp add: z1 others)
  have full: "z1\<lparr>zmembers := ms, zdeadline := d\<rparr> = \<lparr>zmembers = ms, zdeadline = d\<rparr>" for ms d
    by (cases z1) simp
  have run: "zrun clk (window_pipeline k now window rid) s =
      ([int (length (zmembers ?z) - length kept), 1, int (length kept) + 1, 1],
       s(k := \<lparr>zmembers = (rid, now) # kept, zdeadline = Some (clk + 1000 * ((window + 1000000000) div 1000000000))\<rparr>))"
    using z1(3)[of "(rid, now) # kept"] by (simp add: window_pipeline_def rem add full del: zcmd.simps(1,2))
  then show "fst (zrun clk (window_pipeline k now window rid) s) ! 2 = int (length kept) + 1"
    and "length (fst (zrun clk (window_pipeline k now window rid) s)) = 4"
    and "snd (zrun clk (window_pipeline k now window rid) s) =
      s(k := \<lparr>zmembers = (rid, now) # kept, zdeadline = Some (clk + 1000 * ((window + 1000000000) div 1000000000))\<rparr>)"
    by simp_all
qed

section \<open>What the store holds\<close>

text \<open>The members of a key after a history: the requests a window before the last one on it.\<close>

definition key_requests :: "string \<Rightarrow> window_request list \<Rightarrow> window_request list" where
  "key_requests key qs = filter (\<lambda>q. wr_key q = key) qs"

definition spec_zset :: "int \<Rightarrow> string \<Rightarrow> window_request list \<Rightarrow> zset" where
  "spec_zset window key qs =
     (if key_requests key qs = [] then empty_zset
      else let q = last (key_requests key qs)
        in \<lparr>zmembers = map (\<lambda>p. (wr_id p, wr_now p)) (rev (requests_since (wr_now q - milliseconds window) key qs)),
            zdeadline = Some (wr_clock q + milliseconds window + 1000)\<rparr>)"

lemma key_requests_snoc [simp]:
  "key_requests k (qs @ [q]) = (if wr_key q = k then key_requests k qs @ [q] else key_requests k qs)"
  by (simp add: key_requests_def)

lemma requests_since_snoc [simp]:
  "requests_since a k (qs @ [q]) = requests_since a k qs @ (if wr_key q = k \<and> a < wr_now q then [q] else [])"
  by (simp add: requests_since_def)

lemma orderly_prefix: "orderly window (qs @ [q]) \<Longrightarrow> orderly window qs"
  by (auto simp: orderly_def sorted_append)

lemma whole_seconds:
  assumes "0 < window" and "window mod 1000000000 = (0 :: int)"
  shows "1000 * ((window + 1000000000) div 1000000000) = milliseconds window + 1000" and "0 < milliseconds window"
proof -
  from assms(2) obtain n where n: "window = 1000000000 * n" by (auto simp: mod_eq_0_iff_dvd)
  have "milliseconds window = 1000 * n" using assms(1) by (simp add: milliseconds_def n)
  moreover have "(window + 1000000000) div 1000000000 = n + 1" by (simp add: n)
  ultimately show "1000 * ((window + 1000000000) div 1000000000) = milliseconds window + 1000" by simp
  from assms(1) n have "0 < n" by simp
  with \<open>milliseconds window = 1000 * n\<close> show "0 < milliseconds window" by simp
qed

text \<open>What a new request finds and keeps, expired or not.\<close>

lemma kept_requests:
  assumes "orderly window (qs @ [q])"
  shows "kept_members (wr_now q - milliseconds window) (live (wr_clock q) (spec_zset window (wr_key q) qs))
    = map (\<lambda>p. (wr_id p, wr_now p)) (rev (requests_since (wr_now q - milliseconds window) (wr_key q) qs))"
proof (cases "key_requests (wr_key q) qs = []")
  case True
  then have "requests_since a (wr_key q) qs = []" for a
    by (auto simp: key_requests_def requests_since_def filter_empty_conv)
  with True show ?thesis by (simp add: spec_zset_def kept_members_def)
next
  case False
  define p where "p = last (key_requests (wr_key q) qs)"
  have p: "p \<in> set qs" "wr_key p = wr_key q"
    using last_in_set[OF False] by (auto simp: p_def key_requests_def)
  have latest: "wr_now x \<le> wr_now p" if "x \<in> set qs" "wr_key x = wr_key q" for x
  proof -
    have "sorted (map wr_now (key_requests (wr_key q) qs))"
      using assms by (auto simp: orderly_def key_requests_def sorted_append intro: sorted_filter)
    moreover have "x \<in> set (key_requests (wr_key q) qs)" using that by (simp add: key_requests_def)
    moreover obtain xs where "key_requests (wr_key q) qs = xs @ [p]"
      using False by (metis append_butlast_last_id p_def)
    ultimately show ?thesis by (auto simp: sorted_append)
  qed
  from p assms have order: "wr_now p \<le> wr_now q" by (auto simp: orderly_def sorted_append)
  from assms p obtain d where d: "d \<le> wr_clock p - wr_now p" "wr_clock q - wr_now q \<le> d + 1000"
    by (auto simp: orderly_def)
  have pos: "0 \<le> wr_now x" if "x \<in> set qs" for x using assms that by (auto simp: orderly_def)
  let ?rs = "\<lambda>a. requests_since a (wr_key q) qs"
  show ?thesis
  proof (cases "wr_clock p + milliseconds window + 1000 \<le> wr_clock q")
    case True
    with d have "wr_now p \<le> wr_now q - milliseconds window" by simp
    with latest have "?rs (wr_now q - milliseconds window) = []"
      by (fastforce simp: requests_since_def filter_empty_conv)
    with True False show ?thesis
      by (simp add: spec_zset_def Let_def live_def kept_members_def empty_zset_def p_def)
  next
    case keep: False
    have "filter (\<lambda>x. wr_now q - milliseconds window < wr_now x) (?rs (wr_now p - milliseconds window))
        = ?rs (wr_now q - milliseconds window)"
      using order by (auto simp: requests_since_def intro: filter_cong)
    moreover have "filter (\<lambda>x. \<not> (0 \<le> wr_now x \<and> wr_now x \<le> wr_now q - milliseconds window)) (?rs a)
        = filter (\<lambda>x. wr_now q - milliseconds window < wr_now x) (?rs a)" for a
      using pos by (intro filter_cong) (auto simp: requests_since_def)
    ultimately show ?thesis
      using False keep by (simp add: spec_zset_def Let_def live_def kept_members_def p_def filter_map comp_def
          flip: rev_filter)
  qed
qed

lemma fresh_member:
  assumes "orderly window (qs @ [q])"
  shows "wr_id q \<notin> fst ` set (zmembers (live clk (spec_zset window key qs)))"
proof -
  have "fst ` set (zmembers (live clk (spec_zset window key qs))) \<subseteq> wr_id ` set qs"
    by (auto simp: live_def spec_zset_def Let_def requests_since_def split: option.splits if_splits)
  then show ?thesis using assms by (auto simp: orderly_def)
qed

text \<open>One more request: its count, and the store after it.\<close>

lemma request_step:
  assumes "orderly window (qs @ [q])" and "s = (\<lambda>key. spec_zset window key qs)"
  shows "reply_val (fst (zrun (wr_clock q) (request_cmds q) s)) 2 =
      int (length (requests_since (wr_now q - milliseconds window) (wr_key q) (qs @ [q])))"
    and "snd (zrun (wr_clock q) (request_cmds q) s) = (\<lambda>key. spec_zset window key (qs @ [q]))"
proof -
  have w: "wr_window q = window" "0 < window" "window mod 1000000000 = 0"
    using assms(1) by (auto simp: orderly_def)
  note kept = kept_requests[OF assms(1)]
  have fresh: "wr_id q \<notin> fst ` set (zmembers (live (wr_clock q) (s (wr_key q))))"
    using fresh_member[OF assms(1)] by (simp add: assms(2))
  note run = pipeline_run[where s = s and k = "wr_key q" and now = "wr_now q" and window = window, OF fresh refl]
  show "reply_val (fst (zrun (wr_clock q) (request_cmds q) s)) 2 =
      int (length (requests_since (wr_now q - milliseconds window) (wr_key q) (qs @ [q])))"
    using run(1,2) kept whole_seconds(2)[OF w(2,3)] by (simp add: request_cmds_def w(1) reply_val_def assms(2))
  show "snd (zrun (wr_clock q) (request_cmds q) s) = (\<lambda>key. spec_zset window key (qs @ [q]))"
    using run(3) kept whole_seconds[OF w(2,3)]
    by (auto simp: request_cmds_def w(1) assms(2) spec_zset_def Let_def fun_eq_iff)
qed

lemma store_of_spec:
  assumes "orderly window qs"
  shows "store_of qs = (\<lambda>key. spec_zset window key qs)"
  using assms
proof (induction qs rule: rev_induct)
  case (snoc q qs)
  from request_step(2)[OF snoc.prems snoc.IH[OF orderly_prefix[OF snoc.prems]]] show ?case
    by (simp add: store_of_def)
qed (simp add: store_of_def spec_zset_def key_requests_def)

lemma redis_attempt_window:
  assumes "shared_redis env history" and "redis_attempt env key window r = (Some rs, r')"
    and "orderly window (history r')"
  shows "reply_val rs 2 =
    int (length (requests_since (wr_now (last (history r')) - milliseconds window) key (history r')))"
proof -
  obtain t r1 where t: "time_now env r = (t, r1)" by fastforce
  obtain u r2 where u: "new_uuid env r1 = (u, r2)" by fastforce
  from assms(2) t u have "pipe_exec env (window_pipeline key (unix_milli t) window u) r2 = (Some rs, r')"
    by (simp add: redis_attempt_def)
  with assms(1) obtain before q where h: "history r' = before @ [q]" and q: "wr_key q = key"
    and rs: "rs = fst (zrun (wr_clock q) (request_cmds q) (store_of before))"
    unfolding shared_redis_def by (metis prod.inject)
  note ord = assms(3)[unfolded h]
  from request_step(1)[OF ord store_of_spec[OF orderly_prefix[OF ord]]] show ?thesis
    by (simp add: h q rs)
qed

text \<open>
  (C24) Redis in good order makes the pipeline a sliding window shared by all gateways: a
  request whose pipeline succeeds passes exactly when the requests on its key, its own
  included and whichever gateway they came to, that are less than one window old are at most
  the limit.  Expiry never loses a request that still counts.
\<close>

theorem redis_sliding_window:
  assumes "shared_redis env history" and "redis_attempt env key window r = (Some rs, r')"
    and "orderly window (history r')"
  shows "redisAllow env (Suc fuel) key limit window l r =
    Some ((int (length (requests_since (wr_now (last (history r')) - milliseconds window) key (history r'))) \<le> limit,
           None), l, r')"
  using redis_attempt_window[OF assms] assms(2) by (simp add: redisAllow_Suc)

section \<open>A Redis that behaves so\<close>

text \<open>The world is the history; the clock shows the minute it is at, and a pipeline is run on
  the store of the history.\<close>

definition model_redis :: "window_request list redis_env" where
  "model_redis = \<lparr>time_now = (\<lambda>qs. (60000 * 1000000, qs)), new_uuid = (\<lambda>qs. (replicate (length qs) CHR ''i'', qs)),
     pipe_exec = (\<lambda>cmds qs. case cmds of
         [ZRemRangeByScore k lo hi, ZAdd k' now i, ZCard k'', Expire k''' d] \<Rightarrow>
           (Some (fst (zrun now cmds (store_of qs))),
            qs @ [\<lparr>wr_key = k, wr_now = now, wr_window = d - 1000000000, wr_id = i, wr_clock = now\<rparr>])
       | _ \<Rightarrow> (None, qs)),
     ping = (\<lambda>qs. (True, qs)), map_range = (\<lambda>_. \<lambda>es. es)\<rparr>"

lemma model_redis_shared: "shared_redis model_redis (\<lambda>qs. qs)"
  by (auto simp: shared_redis_def model_redis_def window_pipeline_def request_cmds_def simp del: zrun.simps zcmd.simps)

text \<open>Two requests of another gateway, the first exactly one window before the third.\<close>

definition earlier_requests :: "window_request list" where
  "earlier_requests =
     [\<lparr>wr_key = ''k'', wr_now = 0, wr_window = minute, wr_id = ''a'', wr_clock = 700\<rparr>,
      \<lparr>wr_key = ''k'', wr_now = 50000, wr_window = minute, wr_id = ''b'', wr_clock = 50700\<rparr>]"

definition third_request :: window_request where
  "third_request = \<lparr>wr_key = ''k'', wr_now = 60000, wr_window = minute, wr_id = ''ii'', wr_clock = 60000\<rparr>"

definition some_limiter :: limiter where
  "some_limiter = newLimiter \<lparr>DegradeMode = '''', DegradeThreshold = 0, ProbeInterval = 0, MaxMemoryKeys = 0\<rparr>"

lemma redis_sliding_window_witness:
  "redisAllow model_redis 1 ''k'' 2 minute some_limiter earlier_requests =
     Some ((True, None), some_limiter, earlier_requests @ [third_request])"
proof -
  have at: "redis_attempt model_redis ''k'' minute earlier_requests =
      (Some (fst (zrun 60000 (request_cmds third_request) (store_of earlier_requests))), earlier_requests @ [third_request])"
    by (simp add: redis_attempt_def model_redis_def window_pipeline_def request_cmds_def third_request_def
        earlier_requests_def unix_milli_def minute_def del: zrun.simps zcmd.simps)
  have ord: "orderly minute (earlier_requests @ [third_request])"
    by (auto simp: orderly_def earlier_requests_def third_request_def minute_def intro: exI[of _ 0])
  show ?thesis
    using redis_sliding_window[OF model_redis_shared at ord, of 0 2 some_limiter]
    by (simp add: earlier_requests_def third_request_def requests_since_def minute_def milliseconds_def)
qed

end
