(* ===== verification/Queue_Interleaving.thy ===== *)
theory Queue_Interleaving
  imports Job_Queue "HOL-Library.Multiset"
begin

text \<open>
  Producers and workers of \<open>internal/queue\<close> at the same time.  \<open>Enqueue\<close> (\<open>stream.go\<close>) is two
  commands, and other calls come between them; a worker (\<open>worker.go\<close>) reads, processes,
  stores, publishes and acknowledges in steps of its own, among the other workers and
  gateways of the group, and its process may die between any two of them.  Redis' commands
  stay the arguments of \<open>Job_Queue\<close>; what a consumer group promises is \<open>group_laws\<close>.
\<close>

section \<open>Producers\<close>

text \<open>A slot is a request handler: it makes one call of \<open>Enqueue\<close> after another.  A call is
  given by its UUID, time, stream and job.\<close>

type_synonym enqueue_call = "string \<times> int \<times> string \<times> Job"

datatype producer_phase = Idle | Adding enqueue_call

type_synonym 'r producers = "(nat \<Rightarrow> producer_phase) \<times> 'r"

fun producer_step :: "'r redis_api \<Rightarrow> int \<Rightarrow> enqueue_call \<Rightarrow> producer_phase \<times> 'r \<Rightarrow>
    (producer_phase \<times> (enqueue_error + string) option) \<times> 'r" where
  "producer_step api maxDepth (uuid, now_ms, stream, job) (Idle, r) =
     (case xlen api stream r of
        (None, r1) \<Rightarrow> ((Idle, Some (Inl RedisError)), r1)
      | (Some depth, r1) \<Rightarrow>
          if maxDepth \<le> depth then ((Idle, Some (Inl ErrQueueFull)), r1)
          else ((Adding (uuid, now_ms, stream, job), None), r1))"
| "producer_step api maxDepth _ (Adding (uuid, now_ms, stream, job), r) =
     (case xadd api stream (job_fields uuid job now_ms) r of
        (None, r2) \<Rightarrow> ((Idle, Some (Inl RedisError)), r2)
      | (Some _, r2) \<Rightarrow> ((Idle, Some (Inr uuid)), r2))"

fun producers_run :: "'r redis_api \<Rightarrow> int \<Rightarrow> (nat \<times> enqueue_call) list \<Rightarrow> 'r producers \<Rightarrow> 'r producers" where
  "producers_run api maxDepth [] s = s"
| "producers_run api maxDepth ((i, c) # sch) (ph, r) =
     (let ((p, _), r1) = producer_step api maxDepth c (ph i, r)
      in producers_run api maxDepth sch (ph(i := p), r1))"

text \<open>Undisturbed, the steps of a call are \<open>Enqueue\<close>.\<close>

lemma producer_alone:
  "Enqueue api maxDepth uuid now_ms stream job r =
     (case producer_step api maxDepth (uuid, now_ms, stream, job) (Idle, r) of
        ((p, Some res), r1) \<Rightarrow> (res, r1)
      | ((p, None), r1) \<Rightarrow>
          (case producer_step api maxDepth (uuid, now_ms, stream, job) (p, r1) of
             ((_, res), r2) \<Rightarrow> (the res, r2)))"
  by (auto simp: Enqueue_def split: prod.splits option.splits)

fun adds_to :: "string \<Rightarrow> producer_phase \<Rightarrow> bool" where
  "adds_to stream (Adding (_, _, s, _)) = (s = stream)"
| "adds_to stream Idle = False"

definition adding :: "nat \<Rightarrow> string \<Rightarrow> (nat \<Rightarrow> producer_phase) \<Rightarrow> nat" where
  "adding n stream ph = card {i. i < n \<and> adds_to stream (ph i)}"

lemma adding_le: "adding n stream ph \<le> n"
proof -
  have "adding n stream ph \<le> card {..<n}" unfolding adding_def by (intro card_mono) auto
  then show ?thesis by simp
qed

lemma adding_upd:
  assumes "i < n"
  shows "adding n stream (ph(i := p)) + (if adds_to stream (ph i) then 1 else 0)
    = adding n stream ph + (if adds_to stream p then 1 else 0)"
proof -
  let ?A = "{j. j < n \<and> j \<noteq> i \<and> adds_to stream (ph j)}"
  have all: "{j. j < n \<and> adds_to stream ((ph(i := q)) j)} = (if adds_to stream q then insert i ?A else ?A)" for q
    using assms by auto
  have "card {j. j < n \<and> adds_to stream ((ph(i := q)) j)} = card ?A + (if adds_to stream q then 1 else 0)" for q
    unfolding all by simp
  from this[of p] this[of "ph i"] show ?thesis by (simp add: adding_def)
qed

lemma producer_step_account:
  assumes "stream_laws api len" and "i < n" and "producer_step api maxDepth c (ph i, r) = ((p, res), r1)"
  shows "int (len r1 stream) + int (adding n stream (ph(i := p)))
    \<le> max (int (len r stream) + int (adding n stream ph)) (maxDepth - 1 + int n)"
proof -
  obtain uuid now_ms s job where c: "c = (uuid, now_ms, s, job)" by (cases c)
  show ?thesis
  proof (cases "ph i")
    case Idle
    have "xlen api s r = (Some (int (len r s)), r)" using assms(1) by (simp add: stream_laws_def)
    with assms(3) Idle have "r1 = r" "maxDepth \<le> int (len r s) \<and> p = Idle \<or> int (len r s) < maxDepth \<and> p = Adding c"
      by (auto simp: c split: if_splits)
    with adding_upd[OF assms(2), of stream ph p] adding_le[of n stream "ph(i := p)"] Idle c show ?thesis
      by (cases "s = stream") auto
  next
    case (Adding d)
    obtain uuid' now' s' job' where d: "d = (uuid', now', s', job')" by (cases d)
    obtain o1 r2 where x: "xadd api s' (job_fields uuid' job' now') r = (o1, r2)" by fastforce
    with assms(1) have "o1 \<noteq> None" "len r2 stream = (if stream = s' then Suc (len r s') else len r stream)"
      unfolding stream_laws_def by (metis fst_conv snd_conv)+
    with assms(3) Adding x have "r1 = r2" "p = Idle" by (auto simp: c d)
    with adding_upd[OF assms(2), of stream ph p] Adding d
      \<open>len r2 stream = (if stream = s' then Suc (len r s') else len r stream)\<close>
    show ?thesis by auto
  qed
qed

lemma producers_account:
  assumes "stream_laws api len" and "\<forall>(i, c) \<in> set sch. i < n"
  shows "int (len (snd (producers_run api maxDepth sch (ph, r))) stream)
      + int (adding n stream (fst (producers_run api maxDepth sch (ph, r))))
    \<le> max (int (len r stream) + int (adding n stream ph)) (maxDepth - 1 + int n)"
  using assms(2)
proof (induction sch arbitrary: ph r)
  case (Cons x sch)
  obtain i c where x: "x = (i, c)" by (cases x)
  with Cons.prems have i: "i < n" "\<forall>(i, c) \<in> set sch. i < n" by auto
  obtain p res r1 where st: "producer_step api maxDepth c (ph i, r) = ((p, res), r1)" by (metis prod.exhaust)
  from producer_step_account[where ph = ph and i = i, OF assms(1) i(1) st, of stream] Cons.IH[OF i(2), of "ph(i := p)" r1]
  show ?case by (simp add: x st del: fun_upd_apply)
qed simp

text \<open>
  (C35) Calls that enqueue at the same time can take a stream past its depth limit, but only
  by as many entries as there are calls less one: with \<open>n\<close> request handlers, however their
  length checks and additions interleave, the stream never holds more than
  \<open>maxDepth - 1 + n\<close> entries.
\<close>

theorem concurrent_enqueues_overshoot_bounded:
  assumes "stream_laws api len" and "\<forall>(i, c) \<in> set sch. i < n"
    and "int (len r stream) \<le> maxDepth - 1 + int n" and "\<forall>i < n. ph i = Idle"
  shows "int (len (snd (producers_run api maxDepth sch (ph, r))) stream) \<le> maxDepth - 1 + int n"
proof -
  have "adding n stream ph = 0" using assms(4) by (auto simp: adding_def)
  with producers_account[OF assms(1,2), of maxDepth ph r stream] assms(3) show ?thesis by simp
qed

text \<open>The bound is met: three calls that check an empty stream of depth limit one.\<close>

definition race_schedule :: "(nat \<times> enqueue_call) list" where
  "race_schedule = map (\<lambda>(i, u). (i, (u, 0, StreamRouting, demo_job)))
     [(0, ''a''), (1, ''b''), (2, ''c''), (0, ''a''), (1, ''b''), (2, ''c'')]"

lemma concurrent_enqueues_overshoot_bounded_witness:
  "length (entries (snd (producers_run memory_redis 1 race_schedule (\<lambda>_. Idle, empty_redis))) StreamRouting) = 3 \<and>
   int (length (entries (snd (producers_run memory_redis 1 race_schedule (\<lambda>_. Idle, empty_redis))) StreamRouting)) \<le> 1 - 1 + int 3"
proof
  show "length (entries (snd (producers_run memory_redis 1 race_schedule (\<lambda>_. Idle, empty_redis))) StreamRouting) = 3"
    by (simp add: race_schedule_def memory_redis_def entries_def empty_redis_def Let_def)
  show "int (length (entries (snd (producers_run memory_redis 1 race_schedule (\<lambda>_. Idle, empty_redis))) StreamRouting)) \<le> 1 - 1 + int 3"
    by (rule concurrent_enqueues_overshoot_bounded[OF memory_redis_laws])
       (auto simp: race_schedule_def entries_def empty_redis_def)
qed

section \<open>Workers\<close>

text \<open>What a worker has in hand: the messages it still has to process, and the one whose
  result it stores, publishes or acknowledges.\<close>

type_synonym message = "string \<times> fields"

datatype worker_phase =
    Polling
  | Processing "message list"
  | Storing message string "message list"
  | Publishing message string "message list"
  | Acking message "message list"

fun worker_step :: "('r, 'w) worker_config \<Rightarrow> string \<Rightarrow> worker_phase \<times> 'r \<times> 'w \<Rightarrow> worker_phase \<times> 'r \<times> 'w" where
  "worker_step cfg workerID (Polling, r, w) =
     (case xreadgroup (wc_api cfg) GroupName workerID (wc_Stream cfg) 1 r of
        (None, r1) \<Rightarrow> (Polling, r1, w)
      | (Some msgs, r1) \<Rightarrow> (Processing msgs, r1, w))"
| "worker_step cfg workerID (Processing [], r, w) = (Polling, r, w)"
| "worker_step cfg workerID (Processing (m # ms), r, w) =
     (let job = parseJob (snd m); (res, w1) = wc_Process cfg job w
      in (Storing m (result_payload job res) ms, r, w1))"
| "worker_step cfg workerID (Storing m payload ms, r, w) =
     (Publishing m payload ms,
      set_ttl (wc_api cfg) (result_key (JobID (parseJob (snd m)))) payload (wc_ResultTTL cfg) r, w)"
| "worker_step cfg workerID (Publishing m payload ms, r, w) =
     (Acking m ms, publish (wc_api cfg) (done_channel (JobID (parseJob (snd m)))) payload r, w)"
| "worker_step cfg workerID (Acking m ms, r, w) =
     (Processing ms, xack (wc_api cfg) (wc_Stream cfg) GroupName (fst m) r, w)"

fun worker_steps :: "('r, 'w) worker_config \<Rightarrow> string \<Rightarrow> nat \<Rightarrow> worker_phase \<times> 'r \<times> 'w \<Rightarrow> worker_phase \<times> 'r \<times> 'w" where
  "worker_steps cfg workerID 0 s = s"
| "worker_steps cfg workerID (Suc n) s = worker_steps cfg workerID n (worker_step cfg workerID s)"

lemma worker_steps_add: "worker_steps cfg i (m + n) s = worker_steps cfg i n (worker_steps cfg i m s)"
  by (induction m arbitrary: s) simp_all

lemma message_alone:
  "worker_steps cfg i 4 (Processing (m # ms), r, w) = (Processing ms, processMessage cfg m (r, w))"
  by (simp add: numeral_eq_Suc processMessage_def Let_def split: prod.split)

lemma messages_alone:
  "worker_steps cfg i (4 * length ms + 1) (Processing ms, s) = (Polling, fold (processMessage cfg) ms s)"
proof (induction ms arbitrary: s)
  case Nil
  show ?case by (cases s) simp
next
  case (Cons m ms)
  obtain r w where s: "s = (r, w)" by fastforce
  have "worker_steps cfg i (4 + (4 * length ms + 1)) (Processing (m # ms), r, w) =
      worker_steps cfg i (4 * length ms + 1) (Processing ms, processMessage cfg m (r, w))"
    by (simp only: worker_steps_add message_alone)
  with Cons show ?case by (simp add: s add.assoc)
qed

text \<open>Undisturbed, the steps of a worker are the turns of its loop.\<close>

lemma worker_alone: "\<exists>n. worker_steps cfg i n (Polling, s) = (Polling, worker_turn cfg i s)"
proof -
  obtain r w where s: "s = (r, w)" by fastforce
  obtain msgs r1 where x: "xreadgroup (wc_api cfg) GroupName i (wc_Stream cfg) 1 r = (msgs, r1)" by fastforce
  show ?thesis
  proof (cases msgs)
    case None
    with x have "worker_steps cfg i 1 (Polling, s) = (Polling, worker_turn cfg i s)"
      by (simp add: s worker_turn_def)
    then show ?thesis ..
  next
    case (Some ms)
    with x have "worker_steps cfg i (Suc (4 * length ms + 1)) (Polling, s) = (Polling, worker_turn cfg i s)"
      using messages_alone[of cfg i ms "(r1, w)"] by (simp add: s worker_turn_def)
    then show ?thesis ..
  qed
qed

section \<open>The consumer group\<close>

text \<open>
  What Redis documents for a group that reads with \<open>">"\<close>: entries are delivered in their
  order, at most the asked number at a time, each to one consumer; nothing but an addition
  changes what waits.
\<close>

definition group_laws :: "'r redis_api \<Rightarrow> string \<Rightarrow> ('r \<Rightarrow> message list) \<Rightarrow> bool" where
  "group_laws api stream waiting \<longleftrightarrow>
     (\<forall>c n r r1. xreadgroup api GroupName c stream n r = (None, r1) \<longrightarrow> waiting r1 = waiting r) \<and>
     (\<forall>c n r ms r1. xreadgroup api GroupName c stream n r = (Some ms, r1) \<longrightarrow>
        waiting r = ms @ waiting r1 \<and> length ms \<le> n) \<and>
     (\<forall>f r r1. xadd api stream f r = (None, r1) \<longrightarrow> waiting r1 = waiting r) \<and>
     (\<forall>f r i r1. xadd api stream f r = (Some i, r1) \<longrightarrow> waiting r1 = waiting r @ [(i, f)]) \<and>
     (\<forall>i r. waiting (xack api stream GroupName i r) = waiting r) \<and>
     (\<forall>k v t r. waiting (set_ttl api k v t r) = waiting r) \<and>
     (\<forall>k v r. waiting (publish api k v r) = waiting r)"

lemma group_lawsD:
  assumes "group_laws api stream waiting"
  shows "xreadgroup api GroupName c stream n r = (None, r1) \<Longrightarrow> waiting r1 = waiting r"
    and "xreadgroup api GroupName c stream n r = (Some ms, r1) \<Longrightarrow> waiting r = ms @ waiting r1 \<and> length ms \<le> n"
    and "xadd api stream f r = (None, r1) \<Longrightarrow> waiting r1 = waiting r"
    and "xadd api stream f r = (Some i, r1) \<Longrightarrow> waiting r1 = waiting r @ [(i, f)]"
    and "waiting (xack api stream GroupName i r) = waiting r"
    and "waiting (set_ttl api k v t r) = waiting r"
    and "waiting (publish api k v r) = waiting r"
  using assms unfolding group_laws_def by metis+

text \<open>
  The pool: the workers of all gateways that share the group, with the names they read under
  (the same in every gateway), Redis, and the world the jobs are processed in.  The last three fields are the history: the entries that were added, those
  whose result was stored, and those a dying process had in hand.  A crash takes the workers
  of one process; they start again at their loop.
\<close>

record ('r, 'w) worker_group =
  pool_name :: "nat \<Rightarrow> string"
  pool_phase :: "nat \<Rightarrow> worker_phase"
  pool_redis :: 'r
  pool_world :: 'w
  pool_added :: "message list"
  pool_stored :: "message list"
  pool_lost :: "message list"

datatype pool_event = Arrives fields | Turn nat | Crash "nat list"

fun in_hand :: "worker_phase \<Rightarrow> message list" where
  "in_hand Polling = []"
| "in_hand (Processing ms) = ms"
| "in_hand (Storing m payload ms) = m # ms"
| "in_hand (Publishing m payload ms) = ms"
| "in_hand (Acking m ms) = ms"

fun stores :: "worker_phase \<Rightarrow> message list" where
  "stores (Storing m payload ms) = [m]"
| "stores _ = []"

definition worker_dies :: "nat \<Rightarrow> ('r, 'w) worker_group \<Rightarrow> ('r, 'w) worker_group" where
  "worker_dies i s =
     s\<lparr>pool_phase := (pool_phase s)(i := Polling), pool_lost := pool_lost s @ in_hand (pool_phase s i)\<rparr>"

fun pool_step :: "('r, 'w) worker_config \<Rightarrow> pool_event \<Rightarrow> ('r, 'w) worker_group \<Rightarrow> ('r, 'w) worker_group" where
  "pool_step cfg (Arrives f) s =
     (case xadd (wc_api cfg) (wc_Stream cfg) f (pool_redis s) of
        (None, r1) \<Rightarrow> s\<lparr>pool_redis := r1\<rparr>
      | (Some i, r1) \<Rightarrow> s\<lparr>pool_redis := r1, pool_added := pool_added s @ [(i, f)]\<rparr>)"
| "pool_step cfg (Turn i) s =
     (let ph = pool_phase s i;
          (p, r1, w1) = worker_step cfg (pool_name s i) (ph, pool_redis s, pool_world s)
      in s\<lparr>pool_phase := (pool_phase s)(i := p), pool_redis := r1, pool_world := w1,
           pool_stored := pool_stored s @ stores ph\<rparr>)"
| "pool_step cfg (Crash dead) s = fold worker_dies dead s"

definition pool_run :: "('r, 'w) worker_config \<Rightarrow> pool_event list \<Rightarrow> ('r, 'w) worker_group \<Rightarrow> ('r, 'w) worker_group" where
  "pool_run cfg es s = foldl (\<lambda>s e. pool_step cfg e s) s es"

fun event_workers :: "pool_event \<Rightarrow> nat set" where
  "event_workers (Arrives f) = {}"
| "event_workers (Turn i) = {i}"
| "event_workers (Crash dead) = set dead"

text \<open>Every entry is somewhere: it waits, is in a worker's hand, has its result, or is lost.\<close>

definition accounted :: "nat \<Rightarrow> ('r \<Rightarrow> message list) \<Rightarrow> ('r, 'w) worker_group \<Rightarrow> bool" where
  "accounted n waiting s \<longleftrightarrow>
     mset (pool_added s) = mset (waiting (pool_redis s)) + (\<Sum>i<n. mset (in_hand (pool_phase s i)))
       + mset (pool_stored s) + mset (pool_lost s)"

lemma hands_upd:
  fixes i :: nat
  assumes "i < n"
  shows "(\<Sum>j<n. mset (in_hand ((ph(i := p)) j))) + mset (in_hand (ph i))
    = (\<Sum>j<n. mset (in_hand (ph j))) + mset (in_hand p)"
proof -
  have "(\<Sum>j<n. mset (in_hand ((ph(i := q)) j))) = mset (in_hand q) + (\<Sum>j\<in>{..<n} - {i}. mset (in_hand (ph j)))" for q
    using assms by (subst sum.remove[OF finite_lessThan, of i]) (auto intro!: sum.cong)
  from this[of p] this[of "ph i"] show ?thesis by (simp add: ac_simps)
qed

lemma worker_step_waiting:
  assumes "group_laws (wc_api cfg) (wc_Stream cfg) waiting" and "worker_step cfg wid (p, r, w) = (p', r1, w1)"
  shows "mset (waiting r) + mset (in_hand p) = mset (waiting r1) + mset (in_hand p') + mset (stores p)"
proof (cases p)
  case Polling
  obtain msgs r2 where x: "xreadgroup (wc_api cfg) GroupName wid (wc_Stream cfg) 1 r = (msgs, r2)" by fastforce
  note law = group_lawsD(1,2)[OF assms(1)]
  show ?thesis
  proof (cases msgs)
    case None
    with law(1) x have "waiting r2 = waiting r" by simp
    with None assms(2) x Polling show ?thesis by simp
  next
    case (Some ms)
    with law(2) x have "waiting r = ms @ waiting r2" by blast
    with Some assms(2) x Polling show ?thesis by (auto simp: ac_simps)
  qed
next
  case (Processing ms)
  with assms(2) show ?thesis by (cases ms) (auto simp: Let_def split: prod.splits)
next
  case (Storing m payload ms)
  with assms show ?thesis by (auto simp: group_laws_def)
next
  case (Publishing m payload ms)
  with assms show ?thesis by (auto simp: group_laws_def)
next
  case (Acking m ms)
  with assms show ?thesis by (auto simp: group_laws_def)
qed

lemma balance:
  fixes A B H P S W W' :: "'a multiset"
  assumes "B + H = A + P" and "W + H = W' + P + S"
  shows "W + A = W' + B + S"
proof -
  have "W + A + P = W + (B + H)" by (simp add: assms(1) add.assoc)
  also have "\<dots> = (W + H) + B" by (simp add: ac_simps)
  also have "\<dots> = (W' + P + S) + B" by (simp only: assms(2))
  also have "\<dots> = W' + B + S + P" by (simp add: ac_simps)
  finally show ?thesis by simp
qed

lemma accounted_turn:
  assumes "group_laws (wc_api cfg) (wc_Stream cfg) waiting" and "i < n" and "accounted n waiting s"
  shows "accounted n waiting (pool_step cfg (Turn i) s)"
proof -
  let ?ph = "pool_phase s"
  obtain p r1 w1 where st: "worker_step cfg (pool_name s i) (?ph i, pool_redis s, pool_world s) = (p, r1, w1)"
    by (metis prod.exhaust)
  define A where "A = (\<Sum>j<n. mset (in_hand (?ph j)))"
  define B where "B = (\<Sum>j<n. mset (in_hand ((?ph(i := p)) j)))"
  have "B + mset (in_hand (?ph i)) = A + mset (in_hand p)"
    unfolding A_def B_def by (rule hands_upd[OF assms(2)])
  moreover have "mset (waiting (pool_redis s)) + mset (in_hand (?ph i)) = mset (waiting r1) + mset (in_hand p) + mset (stores (?ph i))"
    by (rule worker_step_waiting[OF assms(1) st])
  ultimately have "mset (waiting (pool_redis s)) + A = mset (waiting r1) + B + mset (stores (?ph i))"
    by (rule balance)
  moreover have "mset (pool_added s) = mset (waiting (pool_redis s)) + A + mset (pool_stored s) + mset (pool_lost s)"
    using assms(3) by (simp add: accounted_def A_def)
  moreover have "pool_step cfg (Turn i) s = s\<lparr>pool_phase := ?ph(i := p), pool_redis := r1, pool_world := w1,
      pool_stored := pool_stored s @ stores (?ph i)\<rparr>"
    by (simp add: st Let_def)
  ultimately show ?thesis by (simp add: accounted_def ac_simps B_def)
qed

lemma accounted_dies:
  assumes "i < n" and "accounted n waiting s"
  shows "accounted n waiting (worker_dies i s)"
  using assms(2) hands_upd[OF assms(1), of "pool_phase s" Polling]
  by (simp add: accounted_def worker_dies_def ac_simps)

lemma accounted_step:
  assumes "group_laws (wc_api cfg) (wc_Stream cfg) waiting" and "event_workers e \<subseteq> {..<n}" and "accounted n waiting s"
  shows "accounted n waiting (pool_step cfg e s)"
proof (cases e)
  case (Arrives f)
  obtain o1 r1 where x: "xadd (wc_api cfg) (wc_Stream cfg) f (pool_redis s) = (o1, r1)" by fastforce
  note law = group_lawsD(3,4)[OF assms(1)]
  show ?thesis
  proof (cases o1)
    case None
    with law(1) x Arrives assms(3) show ?thesis by (simp add: accounted_def)
  next
    case (Some i)
    with law(2) x have "waiting r1 = waiting (pool_redis s) @ [(i, f)]" by blast
    with Some x Arrives assms(3) show ?thesis by (simp add: accounted_def)
  qed
next
  case (Turn i)
  with assms accounted_turn[of cfg waiting i n s] show ?thesis by simp
next
  case (Crash dead)
  have "accounted n waiting (fold worker_dies dead s)" if "set dead \<subseteq> {..<n}" "accounted n waiting s" for s :: "('a, 'b) worker_group"
    using that by (induction dead arbitrary: s) (auto simp: accounted_dies)
  with Crash assms show ?thesis by simp
qed

lemma accounted_run:
  assumes "group_laws (wc_api cfg) (wc_Stream cfg) waiting" and "\<forall>e \<in> set es. event_workers e \<subseteq> {..<n}"
    and "accounted n waiting s"
  shows "accounted n waiting (pool_run cfg es s)"
  unfolding pool_run_def using assms(2,3)
  by (induction es arbitrary: s) (auto simp: accounted_step[OF assms(1)])

section \<open>At most once\<close>

definition fresh_pool :: "('r \<Rightarrow> message list) \<Rightarrow> ('r, 'w) worker_group \<Rightarrow> bool" where
  "fresh_pool waiting s \<longleftrightarrow> (\<forall>i. pool_phase s i = Polling) \<and> pool_added s = waiting (pool_redis s) \<and>
     pool_stored s = [] \<and> pool_lost s = []"

lemma fresh_accounted: "fresh_pool waiting s \<Longrightarrow> accounted n waiting s"
  by (simp add: fresh_pool_def accounted_def)

lemma distinct_parts:
  assumes "mset xs = A + B" and "distinct xs"
  shows "set_mset A \<inter> set_mset B = {}" and "mset ys = A \<Longrightarrow> distinct ys"
proof -
  have once: "count A x + count B x \<le> 1" for x
    using assms by (metis count_union distinct_count_atmost_1 order_refl zero_le_one)
  show "set_mset A \<inter> set_mset B = {}"
  proof (rule ccontr)
    assume "set_mset A \<inter> set_mset B \<noteq> {}"
    then obtain x where "0 < count A x" "0 < count B x" by auto
    with once[of x] show False by simp
  qed
  assume ys: "mset ys = A"
  show "distinct ys"
    unfolding distinct_count_atmost_1
  proof
    fix x
    have "count (mset ys) x \<le> 1" using once[of x] by (simp add: ys)
    then show "count (mset ys) x = (if x \<in> set ys then 1 else 0)"
      by (metis One_nat_def count_mset_0_iff le_Suc_eq le_zero_eq)
  qed
qed

lemma two_hands:
  assumes "i < n" and "j < n" and "i \<noteq> (j :: nat)"
  obtains R where "(\<Sum>k<n. mset (in_hand (ph k))) = mset (in_hand (ph i)) + (mset (in_hand (ph j)) + R)"
proof -
  have "(\<Sum>k<n. mset (in_hand (ph k))) = mset (in_hand (ph i)) + (\<Sum>k\<in>{..<n} - {i}. mset (in_hand (ph k)))"
    using assms(1) by (subst sum.remove[OF finite_lessThan, of i]) simp_all
  also have "(\<Sum>k\<in>{..<n} - {i}. mset (in_hand (ph k))) = mset (in_hand (ph j)) + (\<Sum>k\<in>{..<n} - {i} - {j}. mset (in_hand (ph k)))"
    using assms by (subst sum.remove[of _ j]) simp_all
  finally show ?thesis by (rule that)
qed

text \<open>
  (C4) However producers, workers and crashes of their processes interleave, a job's result is
  stored at most once: no two workers have the same entry in hand, an entry whose result is
  stored or that a crash took is not delivered again, and a crash never takes an entry that
  has its result.  With Redis' distinct identifiers this covers every entry.
\<close>

theorem jobs_run_at_most_once:
  assumes "group_laws (wc_api cfg) (wc_Stream cfg) waiting" and "fresh_pool waiting s0"
    and "\<forall>e \<in> set es. event_workers e \<subseteq> {..<n}"
    and "s = pool_run cfg es s0" and "distinct (pool_added s)"
  shows "distinct (pool_stored s) \<and> set (pool_stored s) \<inter> set (pool_lost s) = {} \<and>
    set (waiting (pool_redis s)) \<inter> (set (pool_stored s) \<union> set (pool_lost s)) = {} \<and>
    (\<forall>i < n. set (in_hand (pool_phase s i)) \<inter> (set (pool_stored s) \<union> set (pool_lost s)) = {} \<and>
       (\<forall>j < n. i \<noteq> j \<longrightarrow> set (in_hand (pool_phase s i)) \<inter> set (in_hand (pool_phase s j)) = {}))"
proof -
  let ?W = "mset (waiting (pool_redis s))" and ?H = "\<Sum>k<n. mset (in_hand (pool_phase s k))"
    and ?S = "mset (pool_stored s)" and ?L = "mset (pool_lost s)"
  have acc: "mset (pool_added s) = ?W + ?H + ?S + ?L"
    using accounted_run[OF assms(1,3) fresh_accounted[OF assms(2)]] by (simp add: assms(4) accounted_def)
  have apart: "set_mset A \<inter> set_mset B = {}" if "?W + ?H + ?S + ?L = A + B + C" for A B C
    using distinct_parts(1)[of "pool_added s" A "B + C", OF _ assms(5)] that by (auto simp: acc add.assoc)
  have "distinct (pool_stored s)"
    using distinct_parts(2)[of "pool_added s" ?S "?W + ?H + ?L", OF _ assms(5)] by (simp add: acc ac_simps)
  moreover have "set (pool_stored s) \<inter> set (pool_lost s) = {}"
    using apart[of ?S ?L "?W + ?H"] by (simp add: ac_simps)
  moreover have "set (waiting (pool_redis s)) \<inter> (set (pool_stored s) \<union> set (pool_lost s)) = {}"
    using apart[of ?W "?S + ?L" ?H] by (simp add: ac_simps)
  moreover have "set (in_hand (pool_phase s i)) \<inter> (set (pool_stored s) \<union> set (pool_lost s)) = {}" if "i < n" for i
  proof -
    have "set_mset ?H \<inter> set_mset (?S + ?L) = {}" using apart[of ?H "?S + ?L" ?W] by (simp add: ac_simps)
    moreover have "set (in_hand (pool_phase s i)) \<subseteq> set_mset ?H" using that by (auto simp: set_mset_sum)
    ultimately show ?thesis by auto
  qed
  moreover have "set (in_hand (pool_phase s i)) \<inter> set (in_hand (pool_phase s j)) = {}"
    if "i < n" "j < n" "i \<noteq> j" for i j
  proof -
    from that obtain R where "?H = mset (in_hand (pool_phase s i)) + (mset (in_hand (pool_phase s j)) + R)"
      by (rule two_hands)
    then show ?thesis
      using apart[of "mset (in_hand (pool_phase s i))" "mset (in_hand (pool_phase s j))" "R + ?W + ?S + ?L"]
      by (simp add: ac_simps)
  qed
  ultimately show ?thesis by blast
qed

section \<open>Progress\<close>

text \<open>A group that serves: a read finds an entry when one waits, and times out otherwise.\<close>

definition group_serves :: "'r redis_api \<Rightarrow> string \<Rightarrow> ('r \<Rightarrow> message list) \<Rightarrow> bool" where
  "group_serves api stream waiting \<longleftrightarrow>
     (\<forall>c r. (waiting r = [] \<longrightarrow> fst (xreadgroup api GroupName c stream 1 r) = None) \<and>
       (waiting r \<noteq> [] \<longrightarrow> (\<exists>m ms. fst (xreadgroup api GroupName c stream 1 r) = Some (m # ms))))"

fun phase_work :: "worker_phase \<Rightarrow> nat" where
  "phase_work Polling = 0"
| "phase_work (Processing ms) = 4 * length ms + 1"
| "phase_work (Storing m payload ms) = 4 * length ms + 4"
| "phase_work (Publishing m payload ms) = 4 * length ms + 3"
| "phase_work (Acking m ms) = 4 * length ms + 2"

text \<open>The steps that are left to do: at most six for every entry that waits.\<close>

definition pool_work :: "nat \<Rightarrow> ('r \<Rightarrow> message list) \<Rightarrow> ('r, 'w) worker_group \<Rightarrow> nat" where
  "pool_work n waiting s = 6 * length (waiting (pool_redis s)) + (\<Sum>i<n. phase_work (pool_phase s i))"

lemma work_upd:
  fixes i :: nat
  assumes "i < n"
  shows "(\<Sum>j<n. phase_work ((ph(i := p)) j)) + phase_work (ph i) = (\<Sum>j<n. phase_work (ph j)) + phase_work p"
proof -
  have "(\<Sum>j<n. phase_work ((ph(i := q)) j)) = phase_work q + (\<Sum>j\<in>{..<n} - {i}. phase_work (ph j))" for q
    using assms by (subst sum.remove[OF finite_lessThan, of i]) (auto intro!: sum.cong)
  from this[of p] this[of "ph i"] show ?thesis by simp
qed

lemma worker_step_work:
  assumes "group_laws (wc_api cfg) (wc_Stream cfg) waiting" and "group_serves (wc_api cfg) (wc_Stream cfg) waiting"
    and "worker_step cfg wid (p, r, w) = (p', r1, w1)"
  shows "6 * length (waiting r1) + phase_work p' + (if p = Polling \<and> waiting r = [] then 0 else 1)
    \<le> 6 * length (waiting r) + phase_work p"
proof (cases p)
  case Polling
  obtain msgs r2 where x: "xreadgroup (wc_api cfg) GroupName wid (wc_Stream cfg) 1 r = (msgs, r2)" by fastforce
  with assms(2) have serves: "waiting r = [] \<longrightarrow> msgs = None" "waiting r \<noteq> [] \<longrightarrow> (\<exists>m ms. msgs = Some (m # ms))"
    unfolding group_serves_def by (metis fst_conv)+
  show ?thesis
  proof (cases msgs)
    case None
    with group_lawsD(1)[OF assms(1)] x have "waiting r2 = waiting r" by simp
    with None serves assms(3) x Polling show ?thesis by auto
  next
    case (Some ms)
    with group_lawsD(2)[OF assms(1)] x have "waiting r = ms @ waiting r2" by blast
    with Some serves assms(3) x Polling show ?thesis by (cases ms) auto
  qed
next
  case (Processing ms)
  with assms(3) show ?thesis by (cases ms) (auto simp: Let_def split: prod.splits)
qed (use assms(3) group_lawsD(5,6,7)[OF assms(1)] in auto)

lemma turn_work:
  assumes "group_laws (wc_api cfg) (wc_Stream cfg) waiting" and "group_serves (wc_api cfg) (wc_Stream cfg) waiting"
    and "i < n"
  shows "pool_work n waiting (pool_step cfg (Turn i) s)
      + (if pool_phase s i = Polling \<and> waiting (pool_redis s) = [] then 0 else 1) \<le> pool_work n waiting s"
    and "j \<noteq> i \<Longrightarrow> pool_phase (pool_step cfg (Turn i) s) j = pool_phase s j"
    and "pool_added (pool_step cfg (Turn i) s) = pool_added s" "pool_lost (pool_step cfg (Turn i) s) = pool_lost s"
proof -
  obtain p r1 w1 where st: "worker_step cfg (pool_name s i) (pool_phase s i, pool_redis s, pool_world s) = (p, r1, w1)"
    by (metis prod.exhaust)
  then have step: "pool_step cfg (Turn i) s = s\<lparr>pool_phase := (pool_phase s)(i := p), pool_redis := r1, pool_world := w1,
      pool_stored := pool_stored s @ stores (pool_phase s i)\<rparr>" by simp
  show "pool_work n waiting (pool_step cfg (Turn i) s)
      + (if pool_phase s i = Polling \<and> waiting (pool_redis s) = [] then 0 else 1) \<le> pool_work n waiting s"
    using worker_step_work[OF assms(1,2) st] work_upd[OF assms(3), of "pool_phase s" p]
    unfolding step pool_work_def by (auto simp del: fun_upd_apply)
qed (simp_all add: Let_def split: prod.split)

text \<open>A round gives every worker a turn.\<close>

definition pool_round :: "nat \<Rightarrow> pool_event list" where
  "pool_round n = map Turn [0..<n]"

lemma turns_work:
  assumes "group_laws (wc_api cfg) (wc_Stream cfg) waiting" and "group_serves (wc_api cfg) (wc_Stream cfg) waiting"
    and "distinct is" and "set is \<subseteq> {..<n}"
  shows "pool_work n waiting (pool_run cfg (map Turn is) s)
      + (if (\<exists>i \<in> set is. pool_phase s i \<noteq> Polling) \<or> is \<noteq> [] \<and> waiting (pool_redis s) \<noteq> [] then 1 else 0)
    \<le> pool_work n waiting s \<and>
    pool_added (pool_run cfg (map Turn is) s) = pool_added s \<and> pool_lost (pool_run cfg (map Turn is) s) = pool_lost s"
  using assms(3,4)
proof (induction "is" arbitrary: s)
  case Nil
  show ?case by (simp add: pool_run_def)
next
  case (Cons i js)
  let ?t = "pool_step cfg (Turn i) s"
  from Cons.prems have i: "i < n" and js: "distinct js" "set js \<subseteq> {..<n}" "i \<notin> set js" by auto
  note turn = turn_work[where s = s, OF assms(1,2) i]
  have run: "pool_run cfg (map Turn (i # js)) s = pool_run cfg (map Turn js) ?t" by (simp add: pool_run_def)
  note IH = Cons.IH[OF js(1,2), of ?t]
  have "(\<exists>j \<in> set js. pool_phase ?t j \<noteq> Polling) \<longleftrightarrow> (\<exists>j \<in> set js. pool_phase s j \<noteq> Polling)"
    using turn(2) js(3) by metis
  with IH turn(1,3,4) show ?case unfolding run by (auto simp del: pool_step.simps split: if_splits)
qed

lemma round_work:
  assumes "group_laws (wc_api cfg) (wc_Stream cfg) waiting" and "group_serves (wc_api cfg) (wc_Stream cfg) waiting"
    and "0 < n"
  shows "pool_work n waiting (pool_run cfg (pool_round n) s) \<le> pool_work n waiting s - 1 \<and>
    pool_added (pool_run cfg (pool_round n) s) = pool_added s \<and> pool_lost (pool_run cfg (pool_round n) s) = pool_lost s"
proof -
  have "pool_work n waiting s = 0" if "\<forall>i < n. pool_phase s i = Polling" "waiting (pool_redis s) = []"
    using that by (simp add: pool_work_def)
  moreover have "distinct [0..<n]" "set [0..<n] \<subseteq> {..<n}" by auto
  note turns_work[OF assms(1,2) this, of s]
  ultimately show ?thesis using assms(3) by (auto simp: pool_round_def split: if_splits)
qed

lemma rounds_work:
  assumes "group_laws (wc_api cfg) (wc_Stream cfg) waiting" and "group_serves (wc_api cfg) (wc_Stream cfg) waiting"
    and "0 < n"
  shows "pool_work n waiting (pool_run cfg (concat (replicate k (pool_round n))) s) \<le> pool_work n waiting s - k \<and>
    pool_added (pool_run cfg (concat (replicate k (pool_round n))) s) = pool_added s \<and>
    pool_lost (pool_run cfg (concat (replicate k (pool_round n))) s) = pool_lost s"
proof (induction k arbitrary: s)
  case (Suc k)
  have "pool_run cfg (concat (replicate (Suc k) (pool_round n))) s =
      pool_run cfg (concat (replicate k (pool_round n))) (pool_run cfg (pool_round n) s)"
    by (simp add: pool_run_def)
  with round_work[OF assms, of s] Suc.IH[of "pool_run cfg (pool_round n) s"] show ?case by auto
qed (simp add: pool_run_def)

lemma phase_work_zero: "phase_work p = 0 \<Longrightarrow> p = Polling"
  by (cases p) simp_all

text \<open>
  (C5) A group that serves gets its work done: from any state that producers, workers and
  crashes may have led to, after as many rounds of the workers as there are steps left (six
  for every entry that waits, at most five more for each one in hand), every entry ever added
  has its result stored, except those that a crash took, which never get one.
\<close>

theorem added_jobs_are_processed:
  assumes "group_laws (wc_api cfg) (wc_Stream cfg) waiting" and "group_serves (wc_api cfg) (wc_Stream cfg) waiting"
    and "0 < n" and "fresh_pool waiting s0" and "\<forall>e \<in> set es. event_workers e \<subseteq> {..<n}"
    and "s = pool_run cfg es s0" and "pool_work n waiting s \<le> k"
  defines "s' \<equiv> pool_run cfg (concat (replicate k (pool_round n))) s"
  shows "mset (pool_added s) = mset (pool_stored s') + mset (pool_lost s)"
proof -
  have acc: "accounted n waiting s" unfolding assms(6)
    by (rule accounted_run[OF assms(1,5) fresh_accounted[OF assms(4)]])
  have "\<forall>e \<in> set (concat (replicate k (pool_round n))). event_workers e \<subseteq> {..<n}"
    by (auto simp: pool_round_def)
  from accounted_run[OF assms(1) this acc] have acc': "accounted n waiting s'" by (simp add: s'_def)
  have w: "pool_work n waiting s' = 0" "pool_added s' = pool_added s" "pool_lost s' = pool_lost s"
    using rounds_work[OF assms(1-3), of k s] assms(7) by (simp_all add: s'_def)
  from w(1) have "waiting (pool_redis s') = []" "\<forall>i < n. pool_phase s' i = Polling"
    by (auto simp: pool_work_def phase_work_zero)
  with acc' w(2,3) show ?thesis by (simp add: accounted_def)
qed

section \<open>A group for concrete inputs\<close>

text \<open>The world is the list of entries that wait and the number of entries ever added.\<close>

definition group_redis :: "(message list \<times> nat) redis_api" where
  "group_redis = \<lparr>
     xlen = (\<lambda>s r. (Some (int (snd r)), r)),
     xadd = (\<lambda>s f (ms, k). (Some (show_nat k), (ms @ [(show_nat k, f)], Suc k))),
     xgroup_create = (\<lambda>s g r. r),
     xreadgroup = (\<lambda>g c s n (ms, k). if take n ms = [] then (None, (ms, k)) else (Some (take n ms), (drop n ms, k))),
     xack = (\<lambda>s g i r. r),
     set_ttl = (\<lambda>k v e r. r),
     get_key = (\<lambda>k r. (None, r)),
     publish = (\<lambda>c m r. r)\<rparr>"

definition group_config :: "(message list \<times> nat, nat) worker_config" where
  "group_config = \<lparr>wc_api = group_redis, wc_Stream = StreamRouting, wc_Count = 2,
     wc_Process = (\<lambda>job n. (Inr (JObj []), Suc n)), wc_ResultTTL = 300\<rparr>"

lemma group_redis_laws: "group_laws (wc_api group_config) (wc_Stream group_config) fst"
  by (auto simp: group_laws_def group_config_def group_redis_def split: if_splits)

lemma group_redis_serves: "group_serves (wc_api group_config) (wc_Stream group_config) fst"
  by (auto simp: group_serves_def group_config_def group_redis_def neq_Nil_conv)

definition start_pool :: "(message list \<times> nat, nat) worker_group" where
  "start_pool = \<lparr>pool_name = (\<lambda>i. ''worker-'' @ show_nat i), pool_phase = (\<lambda>_. Polling), pool_redis = ([], 0), pool_world = 0, pool_added = [], pool_stored = [],
     pool_lost = []\<rparr>"

lemma start_pool_fresh: "fresh_pool fst start_pool"
  by (simp add: fresh_pool_def start_pool_def)

text \<open>Two jobs and two workers; the first stores its result, the second dies with its job.\<close>

definition crash_events :: "pool_event list" where
  "crash_events = [Arrives [], Arrives [], Turn 0, Turn 1, Turn 0, Crash [1], Turn 0]"

lemmas crash_defs = crash_events_def pool_run_def start_pool_def group_config_def group_redis_def worker_dies_def

lemma crash_run:
  "pool_added (pool_run group_config crash_events start_pool) = [(show_nat 0, []), (show_nat 1, [])]"
  "pool_stored (pool_run group_config crash_events start_pool) = [(show_nat 0, [])]"
  "pool_lost (pool_run group_config crash_events start_pool) = [(show_nat 1, [])]"
  by (simp_all add: crash_defs)

lemma crash_workers: "\<forall>e \<in> set crash_events. event_workers e \<subseteq> {..<2}"
  by (simp add: crash_events_def)

lemma crash_distinct: "distinct (pool_added (pool_run group_config crash_events start_pool))"
  by (simp add: crash_run show_nat.simps)

lemma jobs_run_at_most_once_witness:
  "set (pool_stored (pool_run group_config crash_events start_pool)) \<inter>
     set (pool_lost (pool_run group_config crash_events start_pool)) = {} \<and>
   pool_stored (pool_run group_config crash_events start_pool) = [(show_nat 0, [])]"
  using jobs_run_at_most_once[OF group_redis_laws start_pool_fresh crash_workers refl crash_distinct] crash_run(2)
  by blast

lemma added_jobs_are_processed_witness:
  "mset [(show_nat 0, []), (show_nat 1, [])] =
   mset (pool_stored (pool_run group_config (concat (replicate 3 (pool_round 2))) (pool_run group_config crash_events start_pool)))
     + mset [(show_nat 1, [])]"
proof -
  have "pool_work 2 fst (pool_run group_config crash_events start_pool) \<le> 3"
    by (simp add: crash_defs pool_work_def numeral_2_eq_2)
  from added_jobs_are_processed[OF group_redis_laws group_redis_serves _ start_pool_fresh crash_workers refl this]
  show ?thesis by (simp add: crash_run)
qed

end
