(* ===== verification/Gateway_Paths.thy ===== *)
theory Gateway_Paths
  imports Server_Chain
begin

text \<open>
  The way through the gateway (\<open>internal/server\<close>) for a request that is let through: which
  route of the table serves it, what its handler gets to see, and what comes back.  It is the
  other side of the access policy of \<open>Server_Chain\<close>.
\<close>

section \<open>One route at most\<close>

lemma exact_paths_differ:
  "distinct (map tr_path registerRoutes)"
  by code_simp

lemma subtree_paths_are_free:
  "list_all (\<lambda>p. list_all (\<lambda>u. p = tr_path u \<or> \<not> has_prefix (tr_path u) p) registerRoutes) [''/v1/tiles/'', ''/web/'']"
  by code_simp

lemma same_path_same_route:
  assumes "t \<in> set registerRoutes" and "u \<in> set registerRoutes" and "tr_path t = tr_path u"
  shows "t = u"
  using assms exact_paths_differ by (auto simp: distinct_map inj_on_def)

lemma table_route_unique:
  assumes "t \<in> set registerRoutes" and "u \<in> set registerRoutes"
    and "matchesPath (tr_path t) path" and "matchesPath (tr_path u) path"
  shows "t = u"
proof (rule same_path_same_route[OF assms(1,2)])
  have free: "tr_path a = tr_path b \<or> \<not> has_prefix (tr_path b) (tr_path a)"
    if "a \<in> set registerRoutes" "b \<in> set registerRoutes" "has_suffix (tr_path a) ''/''" for a b
  proof -
    from subtree_routes that(1,3) have "tr_path a = ''/v1/tiles/'' \<or> tr_path a = ''/web/''"
      by (auto simp: list_all_iff)
    with subtree_paths_are_free that(2) show ?thesis by (elim disjE) (simp_all add: list_all_iff)
  qed
  show "tr_path t = tr_path u"
  proof (cases "has_suffix (tr_path t) ''/''"; cases "has_suffix (tr_path u) ''/''")
    assume both: "has_suffix (tr_path t) ''/''" "has_suffix (tr_path u) ''/''"
    with assms(3,4) have "has_prefix path (tr_path t)" "has_prefix path (tr_path u)"
      by (simp_all add: matchesPath_def)
    then obtain a b where "path = tr_path t @ a" "path = tr_path u @ b"
      unfolding has_prefix_iff by blast
    then have "has_prefix (tr_path t) (tr_path u) \<or> has_prefix (tr_path u) (tr_path t)"
      by (metis append_eq_append_conv2 has_prefix_append)
    with free[OF assms(1,2)] free[OF assms(2,1)] both show ?thesis by auto
  next
    assume "has_suffix (tr_path t) ''/''" "\<not> has_suffix (tr_path u) ''/''"
    with assms(3,4) free[OF assms(1,2)] show ?thesis by (auto simp: matchesPath_def)
  next
    assume "\<not> has_suffix (tr_path t) ''/''" "has_suffix (tr_path u) ''/''"
    with assms(3,4) free[OF assms(2,1)] show ?thesis by (auto simp: matchesPath_def)
  next
    assume "\<not> has_suffix (tr_path t) ''/''" "\<not> has_suffix (tr_path u) ''/''"
    with assms(3,4) show ?thesis by (simp add: matchesPath_def)
  qed
qed

lemma find_table_route:
  assumes "t \<in> set registerRoutes" and "table_serves r t"
  shows "find (table_serves r) registerRoutes = Some t"
proof (cases "find (table_serves r) registerRoutes")
  case None
  with assms show ?thesis by (auto simp: find_None_iff)
next
  case (Some u)
  then have "u \<in> set registerRoutes" "table_serves r u" by (auto simp: find_Some_iff)
  with assms table_route_unique[of t u "r_path r"] Some show ?thesis by (simp add: table_serves_def)
qed

section \<open>What the handler sees\<close>

text \<open>The request behind the middleware: its context is what \<open>Auth\<close> makes of it, its body is
  bounded, and nothing else has changed.\<close>

definition forwarded_request ::
  "swlib \<Rightarrow> (string \<Rightarrow> claims option) \<Rightarrow> ipnet list \<Rightarrow> int \<Rightarrow> route_set option \<Rightarrow> request \<Rightarrow> request" where
  "forwarded_request lib verify trusted maxBytes ext r =
     (let r1 = with_context r (auth_ctx lib verify trusted r);
          bound = body_bound maxBytes (Some (set_BodyLimit ext)) r1
      in if 0 < bound then r1\<lparr>r_body := max_bytes_reader (r_body r1) bound\<rparr> else r1)"

definition guard_met :: "guard \<Rightarrow> claims option \<Rightarrow> bool" where
  "guard_met g pc =
     (case g of Open \<Rightarrow> True
      | VerifiedUser \<Rightarrow> (case pc of Some c \<Rightarrow> verified_email c | None \<Rightarrow> False)
      | AdminOnly \<Rightarrow> (case pc of Some c \<Rightarrow> admin_claims c | None \<Rightarrow> False))"

lemma guard_lets_through:
  assumes "getClaims lib (r_ctx r) = (pc, pc \<noteq> None)" and "guard_met g pc"
  shows "apply_guard lib g h r w s = h r w s"
  using assms by (cases g; cases pc)
    (simp_all add: guard_met_def apply_guard_def verified.mw_decide admin.mw_decide guard_decide_def)

lemma forwarded_request_simps [simp]:
  "r_path (forwarded_request lib verify trusted maxBytes ext r) = r_path r"
  "r_method (forwarded_request lib verify trusted maxBytes ext r) = r_method r"
  "r_ctx (forwarded_request lib verify trusted maxBytes ext r) = auth_ctx lib verify trusted r"
  by (simp_all add: forwarded_request_def Let_def with_context_def)

text \<open>
  (C2) The other side of the access policy: a request for a built-in route whose guard its
  verified claims meet, and which the limiter admits, reaches exactly that route's handler,
  with the context of its own token and its body bounded and otherwise unchanged, and the
  client gets what that handler answers; the access log gains one line and the limiter counts
  one call.
\<close>

theorem authorised_requests_reach_their_endpoint:
  assumes "swlib_context lib" and "ctx_value (r_ctx r) ClaimsKey = None"
    and "t \<in> set registerRoutes" and "table_serves r t"
    and "guard_met (tr_guard t) (proved_claims lib verify r)"
    and "\<not> be_unclean be (forwarded_request lib verify trusted maxBytes ext r)"
    and "allow (rate_key lib (with_extension cfg ext) (with_context r (auth_ctx lib verify trusted r)))
           (rate_limit lib (with_extension cfg ext) (with_context r (auth_ctx lib verify trusted r))) l = ((True, None), l')"
    and "be_endpoint be (tr_endpoint t) (forwarded_request lib verify trusted maxBytes ext r) w a = (w', a')"
  shows "\<exists>line. gateway lib verify trusted allow cfg maxBytes ext be r w ((l, a), logged) = (w', (l', a'), logged @ [line]) \<and>
    ll_method line = r_method r \<and> ll_path line = r_path r"
proof -
  let ?r1 = "with_context r (auth_ctx lib verify trusted r)"
  let ?r2 = "forwarded_request lib verify trusted maxBytes ext r"
  have claims: "getClaims lib (r_ctx ?r2) = (proved_claims lib verify r, proved_claims lib verify r \<noteq> None)"
    using claims_after_auth[OF assms(1,2)] by simp
  have "table_serves ?r2 t" using assms(4) by (simp add: table_serves_def split: option.splits)
  from find_table_route[OF assms(3) this] assms(6,8) guard_lets_through[OF claims assms(5), of "be_endpoint be (tr_endpoint t)" w a]
  have mux: "serve_mux lib ext be ?r2 w a = (w', a')" by (simp add: serve_mux_def)
  have "BodyLimitWith maxBytes (Some (set_BodyLimit ext)) (on_endpoints (serve_mux lib ext be)) ?r1 w (l', a) =
      on_endpoints (serve_mux lib ext be) ?r2 w (l', a)"
    by (simp add: body_limit.forwarded[OF body_limit_decide_def] forwarded_request_def Let_def)
  then have "rateLimit lib (on_limiter allow) (with_extension cfg ext)
      (BodyLimitWith maxBytes (Some (set_BodyLimit ext)) (on_endpoints (serve_mux lib ext be))) ?r1 w (l, a) = (w', l', a')"
    by (simp add: rate.mw_decide rateLimit_decide_def on_limiter_def assms(7) mux on_endpoints_def)
  then show ?thesis
    by (simp add: gateway_def Auth_def Logging_def Let_def with_context_def)
qed

text \<open>A verified user's request for a route, answered by its handler.\<close>

definition tile_request :: request where
  "tile_request = (demo_peer ''203.0.113.9:4000'' [(''Authorization'', [''Bearer good''])])\<lparr>r_path := ''/v1/tiles/1/2/3.png''\<rparr>"

definition tiles_route :: table_route where
  "tiles_route = \<lparr>tr_method = None, tr_path = ''/v1/tiles/'', tr_guard = VerifiedUser, tr_endpoint = ''Tiles''\<rparr>"

theorem authorised_requests_reach_their_endpoint_witness:
  "\<exists>line. gateway plain_swlib demo_verify demo_trusted (\<lambda>k n l. ((True, None :: unit option), Suc l)) demo_limits 1048576
     (Some loaded_set) demo_backends tile_request fresh_response ((0, 7), []) = (fresh_response, (1, 8), [line]) \<and>
     ll_path line = ''/v1/tiles/1/2/3.png''"
proof -
  have c: "ctx_value (r_ctx tile_request) ClaimsKey = None"
    by (simp add: tile_request_def demo_peer_def ctx_value_def)
  have t: "tiles_route \<in> set registerRoutes"
    by (simp add: tiles_route_def registerRoutes_def verified_routes_def)
  have s: "table_serves tile_request tiles_route"
    by (simp add: table_serves_def tiles_route_def tile_request_def matchesPath_def has_suffix_def)
  have "proved_claims plain_swlib demo_verify tile_request =
      demo_verify ''good''" by code_simp
  then have g: "guard_met (tr_guard tiles_route) (proved_claims plain_swlib demo_verify tile_request)"
    by (simp add: guard_met_def tiles_route_def demo_verify_def verified_email_def)
  have u: "\<not> be_unclean demo_backends (forwarded_request plain_swlib demo_verify demo_trusted 1048576 (Some loaded_set) tile_request)"
    by (simp add: demo_backends_def)
  have e: "be_endpoint demo_backends (tr_endpoint tiles_route)
      (forwarded_request plain_swlib demo_verify demo_trusted 1048576 (Some loaded_set) tile_request) fresh_response 7 = (fresh_response, 8)"
    by (simp add: demo_backends_def)
  have p: "r_path tile_request = ''/v1/tiles/1/2/3.png''" by (simp add: tile_request_def)
  note reach = authorised_requests_reach_their_endpoint[where allow = "\<lambda>k n l. ((True, None :: unit option), Suc l)"
      and cfg = demo_limits and l = 0 and l' = 1 and logged = "[]", OF plain_swlib_context c t s g u _ e]
  show ?thesis using reach by (simp add: p) blast
qed

end
