(* ===== verification/Gateway_Life.thy ===== *)
theory Gateway_Life
  imports Gateway_Start Job_Queue
begin

text \<open>
  The life of the process: what \<open>main\<close> (\<open>cmd/swayrider-api/main.go\<close>) does before the gateway
  listens, in its order and up to the error that ends it, how \<open>Server.Run\<close> ends, and the
  server with and without extension routes.  What a
  call of a library does is an effect, recorded with its arguments; whether a client can be
  created and whether Redis grants a consumer group are arguments.
\<close>

section \<open>Before it listens\<close>

datatype effect =
    LoadsDotenv
  | ConfiguresJwt string string
  | SetsCookieNamespace string
  | SetsLogLevel string
  | CreatesClient string string int
  | OpensRedis redis_options
  | StartsKeyCache int int
  | StartsTokenManager string string "string list" int
  | CreatesLimiter limiter_options
  | AsksForGroup string string bool
  | StartsWorkers string "string list"
  | Listens int

datatype fatal = NoClient string | NoStart start_error

definition service_clients :: "Config \<Rightarrow> (string \<times> string \<times> int) list" where
  "service_clients cfg =
     [(''authclient'', cf_AuthServiceHost cfg, cf_AuthServicePort cfg),
      (''regionclient'', cf_RegionServiceHost cfg, cf_RegionServicePort cfg),
      (''routerclient'', cf_RouterServiceHost cfg, cf_RouterServicePort cfg),
      (''searchclient'', cf_SearchServiceHost cfg, cf_SearchServicePort cfg)]"

fun create_clients :: "(string \<Rightarrow> string \<Rightarrow> int \<Rightarrow> bool) \<Rightarrow> (string \<times> string \<times> int) list \<Rightarrow> effect list \<times> string option" where
  "create_clients can [] = ([], None)"
| "create_clients can ((name, host, port) # cs) =
     (if can name host port
      then (case create_clients can cs of (es, err) \<Rightarrow> (CreatesClient name host port # es, err))
      else ([], Some name))"

definition first_effects :: "Config \<Rightarrow> effect list" where
  "first_effects cfg =
     [LoadsDotenv, ConfiguresJwt ''SwayRider'' ''SwayRider'', SetsCookieNamespace (cf_CookieNamespace cfg),
      SetsLogLevel (cf_LogLevel cfg)]"

definition service_effects :: "Config \<Rightarrow> effect list" where
  "service_effects cfg =
     [OpensRedis (redis_client_options cfg),
      StartsKeyCache (cf_JWTKeysRefreshInterval cfg) (cf_JWTKeysFetchTimeout cfg),
      StartsTokenManager (cf_ClientID cfg) (cf_ClientSecret cfg) token_scopes (cf_ServiceTokenRefreshTimeout cfg),
      CreatesLimiter (limiter_config cfg)]"

text \<open>
  \<open>Producer.Bootstrap\<close> asks for one group per stream and looks at no answer; \<open>granted\<close> is what
  Redis answers, recorded with the request.
\<close>

definition bootstrap_effects :: "(string \<Rightarrow> bool) \<Rightarrow> effect list" where
  "bootstrap_effects granted =
     map (\<lambda>stream. AsksForGroup stream GroupName (granted stream)) [StreamRouting, StreamSearch, StreamRerouting]"

definition work_effects :: "(string \<Rightarrow> bool) \<Rightarrow> 'v pool list \<Rightarrow> effect list" where
  "work_effects granted pools =
     bootstrap_effects granted @
     map (\<lambda>p. StartsWorkers (po_Stream p) (worker_names p)) pools"

text \<open>\<open>main\<close> up to the listening server: the effects and the fatal error, if there is one.
  \<open>run\<close> is \<open>Server.Run\<close> up to there.\<close>

definition main_start ::
  "(string \<Rightarrow> string \<Rightarrow> int \<Rightarrow> bool) \<Rightarrow> (string \<Rightarrow> bool) \<Rightarrow> (string \<Rightarrow> string option) \<Rightarrow>
     (string \<Rightarrow> Route list option) \<Rightarrow> (string \<Rightarrow> url option) \<Rightarrow> ('b, go_error) gobreaker \<Rightarrow> 'v pool list \<Rightarrow> Config \<Rightarrow>
     (route_set \<Rightarrow> start_error + 'h) \<Rightarrow> effect list \<times> (fatal + route_set \<times> 'b registry \<times> 'h)" where
  "main_start can granted read_file decode parse gb pools cfg run =
     (case create_clients can (service_clients cfg) of
        (es, Some name) \<Rightarrow> (first_effects cfg @ es, Inl (NoClient name))
      | (es, None) \<Rightarrow>
          (let up = first_effects cfg @ es @ service_effects cfg
           in case prepare read_file decode parse gb cfg of
                Inl e \<Rightarrow> (up, Inl (NoStart e))
              | Inr (ext, registry) \<Rightarrow>
                  (let work = up @ work_effects granted pools
                   in case run ext of
                        Inl e \<Rightarrow> (work, Inl (NoStart e))
                      | Inr h \<Rightarrow> (work @ [Listens (cf_HTTPPort cfg)], Inr (ext, registry, h)))))"

section \<open>How it ends\<close>

text \<open>
  \<open>Run\<close> after \<open>ListenAndServe\<close> has been started: it waits for a signal or its context, then
  gives the open requests thirty seconds; a listener that fails otherwise than by the shutdown
  ends the process with status 1.  A second signal waits in the channel nobody reads any more.
  \<open>main\<close> passes a context that is never done.
\<close>

datatype server_phase = Serving | Draining int | Exited int

datatype server_event = ListenerFails bool | SignalArrives | ContextDone | ShutdownReturns bool

definition shutdown_timeout :: int where "shutdown_timeout = 30 * time_second"

text \<open>\<open>ListenerFails True\<close> is \<open>http.ErrServerClosed\<close>.\<close>

inductive server_step :: "server_phase \<Rightarrow> server_event \<Rightarrow> server_phase \<Rightarrow> bool" where
  listener: "server_step Serving (ListenerFails False) (Exited 1)"
| signal: "server_step Serving SignalArrives (Draining shutdown_timeout)"
| context_done: "server_step Serving ContextDone (Draining shutdown_timeout)"
| drains: "server_step (Draining t) (ShutdownReturns ok) (Exited 0)"
| listener_late: "server_step (Draining t) (ListenerFails False) (Exited 1)"
| listener_closed: "server_step (Draining t) (ListenerFails True) (Draining t)"
| late_signal: "server_step (Draining t) SignalArrives (Draining t)"
| late_context: "server_step (Draining t) ContextDone (Draining t)"

inductive_cases exited_step: "server_step (Exited c) e s"
inductive_cases draining_step: "server_step (Draining t) e s"
inductive_cases serving_step: "server_step Serving e s"

inductive server_runs :: "server_phase \<Rightarrow> server_event list \<Rightarrow> server_phase \<Rightarrow> bool" where
  stays: "server_runs s [] s"
| goes: "server_step s e s1 \<Longrightarrow> server_runs s1 es s2 \<Longrightarrow> server_runs s (e # es) s2"

lemma exited_stays: "server_runs s es s' \<Longrightarrow> s = Exited c \<Longrightarrow> es = [] \<and> s' = Exited c"
  by (induction rule: server_runs.induct) (auto elim: exited_step)

text \<open>What a shutdown lets pass.\<close>

definition passing_events :: "server_event set" where
  "passing_events = {ListenerFails True, SignalArrives, ContextDone}"

lemma draining_runs:
  "server_runs s es s' \<Longrightarrow> s = Draining t \<Longrightarrow> s' = Exited 0 \<Longrightarrow>
     \<exists>ok mid. es = mid @ [ShutdownReturns ok] \<and> set mid \<subseteq> passing_events"
proof (induction rule: server_runs.induct)
  case (goes s e s1 es s2)
  from goes.hyps(1) goes.prems(1) consider ok where "e = ShutdownReturns ok" "s1 = Exited 0" | "s1 = Exited 1"
    | "e \<in> passing_events" "s1 = Draining t" by (auto elim: draining_step simp: passing_events_def)
  then show ?case
  proof cases
    case 1
    with exited_stays[OF goes.hyps(2)] show ?thesis by (auto intro: exI[of _ "[]"])
  next
    case 2
    with exited_stays[OF goes.hyps(2)] goes.prems(2) show ?thesis by simp
  next
    case 3
    with goes.IH goes.prems(2) obtain ok mid where "es = mid @ [ShutdownReturns ok]" "set mid \<subseteq> passing_events" by blast
    with 3 have "e # es = (e # mid) @ [ShutdownReturns ok]" "set (e # mid) \<subseteq> passing_events" by simp_all
    then show ?thesis by blast
  qed
qed simp

text \<open>
  The process ends with success only after a signal or the end of its context, and only once
  the shutdown has returned, in time or not; a second signal changes nothing.
\<close>

theorem success_needs_a_shutdown:
  assumes "server_runs Serving es (Exited 0)"
  shows "\<exists>e mid ok. es = e # mid @ [ShutdownReturns ok] \<and> (e = SignalArrives \<or> e = ContextDone) \<and> set mid \<subseteq> passing_events"
proof -
  from assms obtain e s1 es' where es: "es = e # es'" and st: "server_step Serving e s1" and rest: "server_runs s1 es' (Exited 0)"
    by (auto elim: server_runs.cases)
  from st consider "s1 = Exited 1" | t where "s1 = Draining t" "e = SignalArrives \<or> e = ContextDone"
    by (auto elim: serving_step)
  then show ?thesis
  proof cases
    case 1
    with exited_stays[OF rest] show ?thesis by simp
  next
    case 2
    from draining_runs[OF rest 2(1) refl] obtain ok mid where "es' = mid @ [ShutdownReturns ok]" "set mid \<subseteq> passing_events" by blast
    with 2(2) show ?thesis unfolding es by blast
  qed
qed

theorem success_needs_a_shutdown_witness:
  "\<exists>e mid ok. [SignalArrives, SignalArrives, ShutdownReturns False] = e # mid @ [ShutdownReturns ok] \<and>
     (e = SignalArrives \<or> e = ContextDone) \<and> set mid \<subseteq> passing_events"
  by (rule success_needs_a_shutdown) (auto intro!: server_runs.intros server_step.intros)

section \<open>The order of a start\<close>

lemma create_clients_all:
  "snd (create_clients can cs) = None \<longleftrightarrow> list_all (\<lambda>(n, h, p). can n h p) cs"
  by (induction can cs rule: create_clients.induct) (auto split: prod.splits)

lemma create_clients_effects:
  "e \<in> set (fst (create_clients can cs)) \<Longrightarrow> \<exists>n h p. e = CreatesClient n h p"
  by (induction can cs rule: create_clients.induct) (auto split: prod.splits if_splits)

lemmas early_effects = first_effects_def service_effects_def

text \<open>Redis' answers are recorded and have no other consequence.\<close>

lemma main_start_any_grants:
  "snd (main_start can granted read_file decode parse gb pools cfg run) =
   snd (main_start can granted' read_file decode parse gb pools cfg run)"
  by (simp add: main_start_def Let_def split: prod.split option.split sum.split)

lemma main_start_cases:
  assumes "main_start can granted read_file decode parse gb pools cfg run = (es, res)"
  obtains name where "\<not> list_all (\<lambda>(n, h, p). can n h p) (service_clients cfg)" "res = Inl (NoClient name)"
      "\<forall>e \<in> set es. (\<forall>p. e \<noteq> Listens p) \<and> (\<forall>st ns. e \<noteq> StartsWorkers st ns)"
  | e where "list_all (\<lambda>(n, h, p). can n h p) (service_clients cfg)" "prepare read_file decode parse gb cfg = Inl e"
      "res = Inl (NoStart e)" "\<forall>e \<in> set es. (\<forall>p. e \<noteq> Listens p) \<and> (\<forall>st ns. e \<noteq> StartsWorkers st ns)"
  | ext registry up where "list_all (\<lambda>(n, h, p). can n h p) (service_clients cfg)"
      "prepare read_file decode parse gb cfg = Inr (ext, registry)"
      "\<forall>e \<in> set up. (\<forall>p. e \<noteq> Listens p) \<and> (\<forall>st ns. e \<noteq> StartsWorkers st ns)"
      "res = (case run ext of Inl e \<Rightarrow> Inl (NoStart e) | Inr h \<Rightarrow> Inr (ext, registry, h))"
      "es = up @ work_effects granted pools @ (case run ext of Inl e \<Rightarrow> [] | Inr h \<Rightarrow> [Listens (cf_HTTPPort cfg)])"
proof -
  obtain cs err where c: "create_clients can (service_clients cfg) = (cs, err)" by fastforce
  have quiet: "\<forall>e \<in> set cs. (\<forall>p. e \<noteq> Listens p) \<and> (\<forall>st ns. e \<noteq> StartsWorkers st ns)"
    using create_clients_effects[of _ can "service_clients cfg"] by (fastforce simp: c)
  have all: "err = None \<longleftrightarrow> list_all (\<lambda>(n, h, p). can n h p) (service_clients cfg)"
    using create_clients_all[of can "service_clients cfg"] by (simp add: c)
  show thesis
  proof (cases err)
    case (Some name)
    with assms c have "es = first_effects cfg @ cs" "res = Inl (NoClient name)" by (simp_all add: main_start_def)
    with that(1) quiet all Some show thesis by (auto simp: early_effects)
  next
    case None
    show thesis
    proof (cases "prepare read_file decode parse gb cfg")
      case (Inl e)
      with assms c None have "es = first_effects cfg @ cs @ service_effects cfg" "res = Inl (NoStart e)"
        by (simp_all add: main_start_def Let_def)
      with that(2) quiet all None Inl show thesis by (auto simp: early_effects)
    next
      case (Inr x)
      obtain ext registry where x: "x = (ext, registry)" by fastforce
      let ?up = "first_effects cfg @ cs @ service_effects cfg"
      have "\<forall>e \<in> set ?up. (\<forall>p. e \<noteq> Listens p) \<and> (\<forall>st ns. e \<noteq> StartsWorkers st ns)"
        using quiet by (auto simp: early_effects)
      moreover have "res = (case run ext of Inl e \<Rightarrow> Inl (NoStart e) | Inr h \<Rightarrow> Inr (ext, registry, h))"
        "es = ?up @ work_effects granted pools @ (case run ext of Inl e \<Rightarrow> [] | Inr h \<Rightarrow> [Listens (cf_HTTPPort cfg)])"
        using assms c None Inr x by (auto simp: main_start_def Let_def split: sum.splits)
      ultimately show thesis using that(3) all None Inr x by blast
    qed
  qed
qed

text \<open>
  (C10) The order of a start: the gateway listens, once and last, exactly when every client can
  be created and the configuration can be served.  No worker starts before the extension file
  has been accepted and Redis has been asked for the consumer group of every stream.  It is
  only asked: whatever it answers, a refusal or an outage included, the outcome of the start is
  the same and all workers start, with or without groups to read from.  And what only
  \<open>Server.Run\<close> finds, a bad origin or a route the mux refuses, ends a process whose workers
  already run.
\<close>

theorem start_order:
  assumes "main_start can granted read_file decode parse gb pools cfg
      (\<lambda>ext. Run lib verify allow handle mux cors cfg ext (be ext)) = (es, res)"
  shows "(\<forall>x. res = Inr x \<longleftrightarrow> list_all (\<lambda>(n, h, p). can n h p) (service_clients cfg) \<and>
           start read_file decode parse gb lib verify allow handle mux cors cfg be = Inr x) \<and>
    (if isl res then \<forall>p. Listens p \<notin> set es else \<exists>pre. es = pre @ [Listens (cf_HTTPPort cfg)] \<and> (\<forall>p. Listens p \<notin> set pre)) \<and>
    (\<forall>st ns. StartsWorkers st ns \<in> set es \<longrightarrow> (\<exists>x. prepare read_file decode parse gb cfg = Inr x) \<and>
       (\<exists>a b. es = a @ map (\<lambda>stream. AsksForGroup stream ''workers'' (granted stream))
            [StreamRouting, StreamSearch, StreamRerouting] @ b \<and> (\<forall>st ns. StartsWorkers st ns \<notin> set a))) \<and>
    snd (main_start can granted' read_file decode parse gb pools cfg
      (\<lambda>ext. Run lib verify allow handle mux cors cfg ext (be ext))) = res \<and>
    (list_all (\<lambda>(n, h, p). can n h p) (service_clients cfg) \<and> (\<exists>x. prepare read_file decode parse gb cfg = Inr x) \<longrightarrow>
       (\<forall>p \<in> set pools. StartsWorkers (po_Stream p) (worker_names p) \<in> set es)) \<and>
    (\<forall>e n p. (res = Inl (NoStart (BadCorsOrigins e)) \<or> res = Inl (NoStart (BadExtensionRoute n))) \<and> p \<in> set pools \<longrightarrow>
       StartsWorkers (po_Stream p) (worker_names p) \<in> set es)"
proof -
  have "snd (main_start can granted' read_file decode parse gb pools cfg
      (\<lambda>ext. Run lib verify allow handle mux cors cfg ext (be ext))) = res"
    by (subst main_start_any_grants[of can granted' read_file decode parse gb pools cfg _ granted]) (simp add: assms)
  note same = this
  let ?ask = "map (\<lambda>stream. AsksForGroup stream ''workers'' (granted stream)) [StreamRouting, StreamSearch, StreamRerouting]"
  from assms show ?thesis
  proof (cases rule: main_start_cases)
    case (1 name)
    with same show ?thesis by (auto simp: list_all_iff)
  next
    case (2 e)
    have "e \<noteq> BadCorsOrigins e'" "e \<noteq> BadExtensionRoute n'" for e' n'
      using 2(2) by (auto simp: prepare_def Let_def split: sum.splits)
    with 2 same show ?thesis by (auto simp: start_def)
  next
    case (3 ext registry up)
    let ?run = "Run lib verify allow handle mux cors cfg ext (be ext)"
    have st: "start read_file decode parse gb lib verify allow handle mux cors cfg be =
        (case ?run of Inl e \<Rightarrow> Inl e | Inr h \<Rightarrow> Inr (ext, registry, h))"
      by (simp add: start_def 3(2))
    have w: "\<forall>p. Listens p \<notin> set (work_effects granted pools)" by (auto simp: work_effects_def bootstrap_effects_def)
    have "es = up @ ?ask @ (map (\<lambda>p. StartsWorkers (po_Stream p) (worker_names p)) pools @
           (case ?run of Inl e \<Rightarrow> [] | Inr h \<Rightarrow> [Listens (cf_HTTPPort cfg)]))"
      by (simp add: 3(5) work_effects_def bootstrap_effects_def GroupName_def)
    with 3(3) have g: "\<exists>a b. es = a @ ?ask @ b \<and> (\<forall>st ns. StartsWorkers st ns \<notin> set a)" by blast
    have workers: "\<forall>p \<in> set pools. StartsWorkers (po_Stream p) (worker_names p) \<in> set es"
      by (auto simp: 3(5) work_effects_def)
    have listens: "if isl res then \<forall>p. Listens p \<notin> set es
        else \<exists>pre. es = pre @ [Listens (cf_HTTPPort cfg)] \<and> (\<forall>p. Listens p \<notin> set pre)"
      using 3(3,4,5) w by (cases ?run) auto
    have "\<forall>x. res = Inr x \<longleftrightarrow> list_all (\<lambda>(n, h, p). can n h p) (service_clients cfg) \<and>
        start read_file decode parse gb lib verify allow handle mux cors cfg be = Inr x"
      using 3(1,4) by (simp add: st split: sum.split)
    moreover have "\<exists>x. prepare read_file decode parse gb cfg = Inr x" using 3(2) by simp
    ultimately show ?thesis using same listens g workers by blast
  qed
qed

text \<open>A configuration that asks for every origin: the workers are up when the start fails.\<close>

definition wildcard_config :: Config where
  "wildcard_config = (Config_Load default_env)\<lparr>cf_CORSAllowedOrigins := [''*'']\<rparr>"

definition one_pool :: "unit pool list" where
  "one_pool = [\<lparr>po_Stream = StreamRouting, po_Count = 1, po_Process = (\<lambda>job v. None), po_ResultTTL = 300\<rparr>]"

theorem start_order_witness:
  "\<exists>es. main_start (\<lambda>n h p. True) (\<lambda>st. False) (\<lambda>p. None) (\<lambda>d. None) (\<lambda>u. None) counting_breaker one_pool wildcard_config
       (\<lambda>ext. Run plain_swlib (\<lambda>t. None) (\<lambda>k n l. ((True, None :: unit option), l)) (\<lambda>m p h. Some m) () (\<lambda>os h. h)
          wildcard_config ext (idle_backends ext))
     = (es, Inl (NoStart (BadCorsOrigins WildcardOrigin)) ::
          fatal + route_set \<times> nat registry \<times> ((unit \<times> nat registry \<times> unit) \<times> log_line list) handler) \<and>
     StartsWorkers StreamRouting [''worker-'' @ show_nat 0] \<in> set es \<and> (\<forall>p. Listens p \<notin> set es)"
proof -
  define run :: "route_set \<Rightarrow> start_error + ((unit \<times> nat registry \<times> unit) \<times> log_line list) handler"
    where "run ext = Run plain_swlib (\<lambda>t. None) (\<lambda>k n l. ((True, None :: unit option), l)) (\<lambda>m p h. Some m) () (\<lambda>os h. h)
          wildcard_config ext (idle_backends ext)" for ext
  have c: "normalizeCORSOrigins [''*''] = Inl WildcardOrigin" by code_simp
  have p: "prepare (\<lambda>p. None) (\<lambda>d. None) (\<lambda>u. None) counting_breaker wildcard_config =
      Inr (\<lparr>routes = [], breakers = True\<rparr>, New counting_breaker (breakerNames []))"
    by (simp add: prepare_Inr configured_routes_def wildcard_config_def Config_Load_def default_env_def)
  have r: "run \<lparr>routes = [], breakers = True\<rparr> = Inl (BadCorsOrigins WildcardOrigin)"
    by (simp add: run_def Run_def c Register_def Let_def wildcard_config_def)
  obtain es res where m: "main_start (\<lambda>n h p. True) (\<lambda>st. False) (\<lambda>p. None) (\<lambda>d. None) (\<lambda>u. None) counting_breaker one_pool wildcard_config run = (es, res)"
    by fastforce
  have res: "res = Inl (NoStart (BadCorsOrigins WildcardOrigin))"
    using m by (simp add: main_start_def service_clients_def p r Let_def)
  have eq: "run = (\<lambda>ext. Run plain_swlib (\<lambda>t. None) (\<lambda>k n l. ((True, None :: unit option), l)) (\<lambda>m p h. Some m) () (\<lambda>os h. h)
          wildcard_config ext (idle_backends ext))" by (rule ext) (rule run_def)
  from start_order[OF m[unfolded eq]] have "StartsWorkers StreamRouting [''worker-'' @ show_nat 0] \<in> set es \<and> (\<forall>p. Listens p \<notin> set es)"
    by (simp add: res one_pool_def worker_names_def)
  with m res show ?thesis unfolding eq by blast
qed

section \<open>The server with and without extensions\<close>

text \<open>\<open>server.Server\<close>: its configuration, the backends its handlers amount to, and the extension
  routes, which may be nil.\<close>

record 's server =
  sv_cfg :: Config
  sv_backends :: "'s backends"
  sv_ext :: "route_set option"

definition server_New :: "Config \<Rightarrow> 's backends \<Rightarrow> 's server" where
  "server_New cfg be = \<lparr>sv_cfg = cfg, sv_backends = be, sv_ext = None\<rparr>"

definition WithExtensions :: "'s server \<Rightarrow> route_set option \<Rightarrow> 's server" where
  "WithExtensions srv ext = srv\<lparr>sv_ext := ext\<rparr>"

definition server_Run ::
  "swlib \<Rightarrow> (string \<Rightarrow> claims option) \<Rightarrow> (string \<Rightarrow> int \<Rightarrow> 'l \<Rightarrow> (bool \<times> 'e option) \<times> 'l) \<Rightarrow>
     ('m \<Rightarrow> string \<Rightarrow> 's handler \<Rightarrow> 'm option) \<Rightarrow> 'm \<Rightarrow>
     (string list \<Rightarrow> (('l \<times> 's) \<times> log_line list) handler \<Rightarrow> (('l \<times> 's) \<times> log_line list) handler) \<Rightarrow>
     's server \<Rightarrow> start_error + (('l \<times> 's) \<times> log_line list) handler" where
  "server_Run lib verify allow handle mux cors srv =
     (let cfg = sv_cfg srv; be = sv_backends srv; ext = sv_ext srv
      in case Register handle (\<lambda>_. be_extension be) ext mux of
           (Some name, _) \<Rightarrow> Inl (BadExtensionRoute name)
         | (None, _) \<Rightarrow>
             (let handler = gateway lib verify (parseTrustedProxies (cf_TrustedProxies cfg)) allow (rate_config cfg ext)
                              (cf_MaxBodyBytes cfg) ext be
              in case normalizeCORSOrigins (cf_CORSAllowedOrigins cfg) of
                   Inl e \<Rightarrow> Inl (BadCorsOrigins e)
                 | Inr allowedOrigins \<Rightarrow> Inr (cors allowedOrigins handler)))"

lemma server_Run_with_extensions:
  "server_Run lib verify allow handle mux cors (WithExtensions (server_New cfg be) (Some ext)) =
     Run lib verify allow handle mux cors cfg ext be"
  by (simp add: server_Run_def WithExtensions_def server_New_def Run_def Let_def split: prod.split option.split)

lemma empty_set_is_nil:
  "RateClass (Some \<lparr>routes = [], breakers = brk\<rparr>) = RateClass None"
  "set_BodyLimit (Some \<lparr>routes = [], breakers = brk\<rparr>) = set_BodyLimit None"
  "mux_extension (Some \<lparr>routes = [], breakers = brk\<rparr>) = mux_extension None"
  by (auto simp: fun_eq_iff RateClass_def set_BodyLimit_def Match_def mux_extension_def)

lemma gateway_nil_set:
  "gateway lib verify trusted allow (rate_config cfg (Some \<lparr>routes = [], breakers = brk\<rparr>)) maxBytes
     (Some \<lparr>routes = [], breakers = brk\<rparr>) be =
   gateway lib verify trusted allow (rate_config cfg None) maxBytes None be"
proof -
  have "serve_mux lib (Some \<lparr>routes = [], breakers = brk\<rparr>) be = serve_mux lib None be"
    by (intro ext) (unfold serve_mux_def empty_set_is_nil, rule refl)
  then show ?thesis by (simp add: gateway_def with_extension_def rate_config_def empty_set_is_nil)
qed

text \<open>
  A nil set leaves the gateway exactly as it is: a server without extensions and one with an
  empty set are the same.
\<close>

theorem nil_set_is_the_empty_set:
  "server_Run lib verify allow handle mux cors (server_New cfg be) =
   server_Run lib verify allow handle mux cors (WithExtensions (server_New cfg be) (Some \<lparr>routes = [], breakers = brk\<rparr>))"
  by (simp add: server_Run_def server_New_def WithExtensions_def gateway_nil_set Register_def Let_def)

end
