(* ===== verification/Spec2Isabelle.thy ===== *)
theory Spec2Isabelle
  imports
    Memory_Limiter Redis_Limiter Rate_Middleware Auth_Middleware Body_Log_Middleware
    Circuit_Breaker Extension_Contracts Service_Token Grpc_Errors Job_Queue Sse_Hub Stream_Jobs
    Auth_Handlers Admin_Handlers Cookie_Proxy Server_Chain
    Float64 Json_Struct Route_Requests Reroute_Checks Route_Results Route_Worker Search_Jobs
    Region_Handlers Configuration Gateway_Start
    Limiter_Interleaving Redis_Window Queue_Interleaving Gateway_Paths Gateway_Life
begin

text \<open>
  A verification development for the SwayRider API gateway (\<open>src/\<close>, Go).

  The program.  An HTTP gateway in front of gRPC services.  A request runs through
  authentication, access log, rate limit and body limit to the mux, and from there to a
  guarded endpoint: handlers that call a service, handlers that put a job on a Redis stream
  and answer with server-sent events, reverse proxies, and proxied routes an operator adds
  by a file.  In the background, workers drain the streams and a manager keeps the service
  token fresh.

  Conventions.  The definitions follow the source function by function and keep its names.
  A handler is a function of the request, the response so far and a state; errors are sums
  or options; a loop is a recursion over what it ranges on.  Code that is not under \<open>src/\<close>
  (\<open>swlib\<close>, \<open>gobreaker\<close>, Redis, the gRPC services, \<open>url.Parse\<close> and YAML decoding, the
  mux's own answers) is an argument, and what the gateway relies on is a named hypothesis:
  \<open>swlib_context\<close> for the context accessors, \<open>stream_laws\<close>, \<open>group_laws\<close> and \<open>group_serves\<close> for
  Redis streams and their consumer groups, \<open>shared_redis\<close> for the sorted sets of the limiter, the
  two errors \<open>gobreaker\<close> rejects with.  Each has a concrete instance, which the witnesses use.
  Go strings are byte lists; instants and durations are integers in nanoseconds, with the
  saturation and the wrap-around of 64 bits written out where the source can meet them.

  Theories, in the order of the program.
  - \<open>Prelude_Go\<close>, \<open>Go_Time\<close>, \<open>Go_Net\<close>, \<open>Json_Model\<close>, \<open>Http_Model\<close>: what the source uses of Go's
    standard library (strings, maps, time, addresses and networks, JSON with its parser,
    headers, cookies, bodies, response writers), with the lemmas the components share.  JSON
    texts are exact on valid UTF-8 (\<open>valid_utf8\<close>); the replacement of other bytes by
    \<open>encoding/json\<close> is not modelled.
    \<open>Http_Model\<close> states the contract of a middleware as the locale \<open>gate\<close> (it answers by
    itself or forwards one request) and derives that two gates in a row are one.
  - \<open>Limiter_Interface\<close>: the interface between the rate-limit middleware and the limiters, as
    the locale \<open>limiter_contract\<close>.
  - \<open>Memory_Limiter\<close> (\<open>internal/ratelimit/memory.go\<close>): the sliding windows, their pruning and
    the eviction, for any iteration order of the Go map; equivalence with the declarative
    window of the requests made, exact while nothing is evicted and one-sided otherwise;
    interprets \<open>limiter_contract\<close>.
  - \<open>Redis_Limiter\<close> (\<open>internal/ratelimit/limiter.go\<close>): the Redis pipeline, the switch to the
    degraded mode and the probes; interprets \<open>limiter_contract\<close>.  Its recursion through a
    successful probe is bounded by fuel; two units are proved enough for every call when the
    threshold is at least two.  (With a threshold of one the number of attempts depends on the
    clock; \<open>Limiter_Interleaving\<close> bounds the steps of a call for every threshold.)
  - \<open>Redis_Window\<close>: the pipeline of \<open>redisAllow\<close> over sorted sets with an expiry, shared by several
    gateways, is the sliding window of their requests; the expiry's extra second is what the
    clocks may drift.
  - \<open>Limiter_Interleaving\<close>: concurrent calls of \<open>Limiter.Allow\<close>, cut at the mutex sections and
    the calls of Redis; a call alone is the method of \<open>Redis_Limiter\<close>.  A run yields its
    transitions, and the properties are read off them: how many requests are answered true
    without a check, what a degraded limiter answers, how often Redis is probed, and after how
    many steps a call has its answer.
  - \<open>Rate_Middleware\<close> (\<open>internal/middleware/ratelimit.go\<close>): endpoint classes, keys and limits.
  - \<open>Auth_Middleware\<close> (\<open>internal/middleware/auth.go\<close>): tokens, trusted proxies, the client
    address, the guards.
  - \<open>Body_Log_Middleware\<close> (\<open>bodylimit.go\<close>, \<open>logging.go\<close>).
  - \<open>Circuit_Breaker\<close> (\<open>internal/circuitbreaker/registry.go\<close>): the trip condition on 32-bit
    counters, and \<open>Execute\<close> as an interpretation of the locale \<open>call_guard\<close>.
  - \<open>Extension_Routes\<close>, \<open>Extension_Contracts\<close> (\<open>internal/extension/extension.go\<close>): validation,
    matching and limits of operator-configured routes, what the upstream gets to see, and the
    handler; the second theory holds what they promise.
  - \<open>Service_Token\<close> (\<open>internal/servicetoken/manager.go\<close>): the refresh loop.
  - \<open>Grpc_Errors\<close> (the error mapping of \<open>internal/handlers/auth.go\<close> and
    \<open>internal/queue/result.go\<close>).
  - \<open>Job_Queue\<close> (\<open>internal/queue\<close>), \<open>Sse_Hub\<close> (\<open>internal/sse/hub.go\<close>), \<open>Stream_Jobs\<close>
    (\<open>streamJob\<close> and \<open>enqueueAndStream\<close> with their callers in \<open>internal/handlers\<close>): a job's way
    from the request over the stream to the worker and back to the client.  The wait for a
    result is also a step relation interleaved with the worker, with invariants by rule
    induction; its parameter \<open>sync\<close> tells whether a subscription is active when \<open>Subscribe\<close>
    returns, which \<open>go-redis\<close> does not promise, and what is proved of it holds without.
  - \<open>Queue_Interleaving\<close>: concurrent \<open>Enqueue\<close> calls between the length check and the addition,
    and the workers of a group step by step with crashes of their processes; every entry is
    accounted for (multisets), is processed at most once, and is processed unless a crash took
    it.  The number of worker rounds that suffices is the measure \<open>pool_work\<close>.
  - \<open>Request_Bodies\<close> (\<open>decodeBody\<close> and the decoding of request structs), \<open>Auth_Handlers\<close>,
    \<open>Admin_Handlers\<close> (\<open>internal/handlers/auth.go\<close>, \<open>auth_admin.go\<close>): the account and the
    administration endpoints over a record of the service's methods; cookies are set only for
    granted sessions, and the service is only asked under the request's verified token.
  - \<open>Cookie_Proxy\<close> (\<open>proxy.go\<close>, \<open>tiles.go\<close>, \<open>web.go\<close>): which cookies and which path a proxied
    request has.
  - \<open>Server_Chain\<close> (\<open>internal/server\<close>): configuration checks, the route table, the mux and the
    whole chain.  \<open>Gateway_Paths\<close>: which route serves a request and what its handler sees.
  - \<open>Float64\<close>, \<open>Json_Struct\<close>: 64-bit floats (rounding, decimal texts as \<open>strconv\<close> reads and
    \<open>encoding/json\<close> writes them, order and arithmetic) and the reading and writing of struct
    types.  The locale \<open>codec\<close> states that what is written is read back; it is interpreted
    for the basic types and, field by field, for every request type.
  - \<open>Route_Requests\<close>, \<open>Reroute_Checks\<close>, \<open>Route_Results\<close>, \<open>Route_Worker\<close> (\<open>route.go\<close>,
    \<open>reroute.go\<close>, the result types of \<open>internal/queue/result.go\<close>): requests with their JSON,
    the checks and the queries of reroutes, the conversion of a router's trip (\<open>None\<close> for a
    nil dereference) and its JSON, the process functions behind the breaker.
  - \<open>Search_Jobs\<close> (\<open>search.go\<close>): search and reverse geocoding from the request over the payload
    with its kind to the service, and autocomplete.
  - \<open>Region_Handlers\<close> (\<open>region.go\<close>): the region endpoints over a record of the client's methods.
  - \<open>Configuration\<close> (\<open>internal/config\<close>) and \<open>Gateway_Start\<close> (\<open>cmd/swayrider-api/main.go\<close>,
    \<open>Server.Run\<close>): the configuration, what stops a start, the breakers, the worker pools and the
    handlers behind the route table; the running gateway is a step relation over its breakers
    and the world.  \<open>Gateway_Life\<close>: the effects of \<open>main\<close> in their order, up to the error that ends
    it, whatever Redis answers to the requests for consumer groups, and the shutdown of \<open>Run\<close> as a
    step relation.
  - this theory: properties across components.

  Concurrency.  What the code runs in parallel without a lock around it is modelled step by
  step, for every interleaving: the result wait and the worker (\<open>Sse_Hub\<close>), calls of the
  Redis-backed limiter, producers and workers.  The in-process limiter, the breakers and the
  token manager are modelled by their sections under the mutex, one after another.  The four
  commands of the limiter's pipeline are taken to run in a row, as Redis runs what one client
  has sent in one piece.

  Arguments that stand for code outside \<open>src/\<close> in the later theories: the router, search and
  region clients as records of their calls, sine, cosine, arcsine and square root (\<open>go_math\<close>),
  the text of a time, the texts of JSON errors, the environment readers, \<open>mux.Handle\<close> and the
  CORS library.  Floating-point products and sums are rounded one by one, without the fused
  operations a compiler may choose.

  Not modelled: the log; what the libraries do behind the effects of a start; how the HTTP
  server drains its connections; transports and their timeouts; the handlers' constructors, which only fill a
  struct; nil elements of a trip's lists; road types with letters beyond ASCII; the
  acknowledgement a panicking worker still sends.
\<close>

section \<open>A job from its request to its answer\<close>

text \<open>
  (C3) A streamed job is run for the user whose token was verified, and its result reaches
  that user only: the worker that reads the entry processes the submitted payload under the
  verified identity, stores and publishes one payload under the job's own key and channel
  before it acknowledges, and any wait for the job that ends with a payload sends the result
  to the submitter and "not found" to everyone else.
\<close>

theorem submitted_job_answers_its_submitter:
  assumes "wc_Process cfg ((job_of_claims c payload)\<lparr>JobID := uuid\<rparr>) w = (res, w')"
    and "\<And>d. res = Inr d \<Longrightarrow> wf_json d"
  defines "P \<equiv> result_payload (job_of_claims c payload) res"
  shows "processMessage cfg (i, job_fields uuid (job_of_claims c payload) now_ms) (r, w) =
      (xack (wc_api cfg) (wc_Stream cfg) GroupName i
        (publish (wc_api cfg) (done_channel uuid) P
          (set_ttl (wc_api cfg) (result_key uuid) P (wc_ResultTTL cfg) r)), w') \<and>
    (reachable sync P s \<and> ws_client s = Finished p \<longrightarrow>
      deliver resp p user =
        (if user = subject c
         then writeSSEEvent resp ''result'' (print_json (job_result_json (process_result res)))
         else writeSSEEvent resp ''error'' notFoundEvent))"
proof -
  let ?job = "job_of_claims c payload"
  have j: "parseJob (job_fields uuid ?job now_ms) = ?job\<lparr>JobID := uuid\<rparr>"
    by (simp add: parseJob_def job_fields_def job_of_claims_def Let_def)
  have u: "UserID ?job = subject c" by (simp add: job_of_claims_def)
  have P': "result_payload (?job\<lparr>JobID := uuid\<rparr>) res = P" by (simp add: P_def result_payload_def)
  have "deliver resp p user = (if user = subject c
      then writeSSEEvent resp ''result'' (print_json (job_result_json (process_result res)))
      else writeSSEEvent resp ''error'' notFoundEvent)"
    if "reachable sync P s" "ws_client s = Finished p"
  proof -
    from reachable_genuine[OF that(1)] that(2) have "p = P" by (simp add: genuine_def)
    then show ?thesis
      using resultForUser_payload[of res ?job user, OF assms(2)] by (simp add: deliver_def P_def u)
  qed
  then show ?thesis
    using assms(1) by (simp add: processMessage_def j P' Let_def)
qed

theorem submitted_job_answers_its_submitter_witness:
  "snd (processMessage demo_config (''0'', job_fields ''id1'' (job_of_claims demo_claims ''{}'') 7) (empty_redis, 0)) = 1"
proof -
  have "wc_Process demo_config ((job_of_claims demo_claims ''{}'')\<lparr>JobID := ''id1''\<rparr>) 0 = (Inr (JObj []), 1)"
    by (simp add: demo_config_def)
  from submitted_job_answers_its_submitter[OF this, of "''0''" 7 empty_redis] show ?thesis by simp
qed

section \<open>The rate limit with the in-process limiter\<close>

text \<open>
  Requests that arrive while the gateway limits by its own windows, each with its instant in
  milliseconds and the order in which the map is visited.  The state a request leaves does not
  depend on what the next handler does, which has no access to the limiter.
\<close>

type_synonym arrival = "request \<times> int \<times> range_fun"

fun limited_run :: "swlib \<Rightarrow> RateLimitConfig \<Rightarrow> arrival list \<Rightarrow> memoryLimiter \<Rightarrow> memoryLimiter" where
  "limited_run lib cfg [] m = m"
| "limited_run lib cfg ((r, t, rng) # as) m =
     limited_run lib cfg as (mw_lim (snd (rateLimit lib memory_allow cfg (\<lambda>r w s. (w, s)) r fresh_response
       \<lparr>mw_now = t, mw_rng = rng, mw_lim = m\<rparr>)))"

text \<open>The call of the limiter an arrival makes.\<close>

definition arrival_call :: "swlib \<Rightarrow> RateLimitConfig \<Rightarrow> arrival \<Rightarrow> mem_call" where
  "arrival_call lib cfg a =
     (case a of (r, t, rng) \<Rightarrow>
        \<lparr>c_rng = rng, c_now = t, c_key = rate_key lib cfg r, c_limit = rate_limit lib cfg r, c_window = minute\<rparr>)"

lemma rateLimit_memory:
  "rateLimit lib memory_allow cfg next r w \<lparr>mw_now = t, mw_rng = rng, mw_lim = m\<rparr> =
     (case memory_call (arrival_call lib cfg (r, t, rng)) m of
        (ok, m') \<Rightarrow>
          (if ok then next r w \<lparr>mw_now = t, mw_rng = rng, mw_lim = m'\<rparr>
           else (http_error (set_header w ''Retry-After'' ''60'') ''rate limit exceeded'' 429,
                 \<lparr>mw_now = t, mw_rng = rng, mw_lim = m'\<rparr>)))"
  by (simp add: rate.mw_decide rateLimit_decide_def memory_allow_def memory_call_def arrival_call_def Let_def
      split: prod.split)

lemma limited_run_calls:
  "limited_run lib cfg as m = memory_run (map (arrival_call lib cfg) as) m"
  by (induction lib cfg as m rule: limited_run.induct) (simp_all add: rateLimit_memory split: prod.split)

lemma arrival_call_simps [simp]:
  "c_now (arrival_call lib cfg a) = fst (snd a)" "c_window (arrival_call lib cfg a) = minute"
  "c_key (arrival_call lib cfg a) = rate_key lib cfg (fst a)"
  "c_limit (arrival_call lib cfg a) = rate_limit lib cfg (fst a)"
  by (simp_all add: arrival_call_def split: prod.split)

text \<open>
  (C29) Whatever requests a gateway that limits by its own windows has received, the rate-limit
  middleware forwards the next one, unchanged, exactly when the requests received within the
  last minute under the same class, scope and identity, the refused ones and itself included,
  are within the limit of its class; otherwise it answers 429 with \<open>Retry-After: 60\<close>.  The
  clock readings are taken to be in order and the distinct keys of all requests to fit into the
  keyspace, so that nothing was evicted.
\<close>

theorem fallback_limit_holds:
  assumes "sorted (map (fst \<circ> snd) (as @ [(r, t, rng)]))"
    and "card ((rate_key lib cfg \<circ> fst) ` set (as @ [(r, t, rng)])) \<le> nat (maxKeys (NewMemory n))"
  shows "rateLimit lib memory_allow cfg next r w
      \<lparr>mw_now = t, mw_rng = rng, mw_lim = limited_run lib cfg as (NewMemory n)\<rparr> =
    (let s' = \<lparr>mw_now = t, mw_rng = rng, mw_lim = limited_run lib cfg (as @ [(r, t, rng)]) (NewMemory n)\<rparr>
     in if int (length (filter (\<lambda>a. rate_key lib cfg (fst a) = rate_key lib cfg r \<and> t - 60000 \<le> fst (snd a))
              (as @ [(r, t, rng)]))) \<le> rate_limit lib cfg r
        then next r w s'
        else (http_error (set_header w ''Retry-After'' ''60'') ''rate limit exceeded'' 429, s'))"
proof -
  let ?call = "arrival_call lib cfg" and ?c = "arrival_call lib cfg (r, t, rng)"
  let ?cs = "map ?call as" and ?m = "memory_run (map (arrival_call lib cfg) as) (NewMemory n)"
  have map_c: "?cs @ [?c] = map ?call (as @ [(r, t, rng)])" by simp
  have now: "map c_now (?cs @ [?c]) = map (fst \<circ> snd) (as @ [(r, t, rng)])" by simp
  have "sorted (map c_now (calls_on (c_key ?c) (?cs @ [?c])))"
    unfolding calls_on_def using assms(1) by (intro sorted_filter) (simp only: now)
  then have "length (still_counted (calls_on (c_key ?c) (?cs @ [?c]))) =
      length (filter (\<lambda>d. c_key d = c_key ?c \<and> c_now ?c - milliseconds minute \<le> c_now d) (?cs @ [?c]))"
    by (intro still_counted_window) (auto simp: calls_on_def minute_def)
  also have "\<dots> = length (filter (\<lambda>a. rate_key lib cfg (fst a) = rate_key lib cfg r \<and> t - 60000 \<le> fst (snd a))
      (as @ [(r, t, rng)]))"
    by (simp add: filter_map comp_def minute_def milliseconds_def)
  finally have counted: "length (still_counted (calls_on (c_key ?c) (?cs @ [?c]))) = \<dots>" .
  have "c_key ` set (?cs @ [?c]) = (rate_key lib cfg \<circ> fst) ` set (as @ [(r, t, rng)])"
    unfolding map_c by (simp add: image_image)
  with assms(2) have "card (c_key ` set (?cs @ [?c])) \<le> nat (maxKeys (NewMemory n))" by simp
  from memory_verdict[OF this] counted have "fst (memory_call ?c ?m) \<longleftrightarrow>
      int (length (filter (\<lambda>a. rate_key lib cfg (fst a) = rate_key lib cfg r \<and> t - 60000 \<le> fst (snd a))
        (as @ [(r, t, rng)]))) \<le> rate_limit lib cfg r"
    by simp
  moreover have "limited_run lib cfg (as @ [(r, t, rng)]) (NewMemory n) = snd (memory_call ?c ?m)"
    by (simp add: limited_run_calls memory_run_append)
  moreover obtain ok m' where "memory_call ?c ?m = (ok, m')" by fastforce
  ultimately show ?thesis
    unfolding rateLimit_memory limited_run_calls[of lib cfg as] Let_def by simp
qed

definition one_per_minute :: RateLimitConfig where
  "one_per_minute = demo_limits\<lparr>IPAuth := 1\<rparr>"

text \<open>Two logins from one address within a minute, with a limit of one.\<close>

theorem fallback_limit_holds_witness:
  "fst (rateLimit plain_swlib memory_allow one_per_minute (\<lambda>r w s. (w, s)) (demo_request ''/api/v1/auth/login'')
     fresh_response \<lparr>mw_now = 60000, mw_rng = (\<lambda>es. es),
       mw_lim = limited_run plain_swlib one_per_minute [(demo_request ''/api/v1/auth/login'', 0, (\<lambda>es. es))] (NewMemory 1)\<rparr>)
   = http_error (set_header fresh_response ''Retry-After'' ''60'') ''rate limit exceeded'' 429"
proof -
  let ?r = "demo_request ''/api/v1/auth/login''"
  have s: "sorted (map (fst \<circ> snd) ([(?r, 0, (\<lambda>es. es))] @ [(?r, 60000, (\<lambda>es. es))] :: arrival list))" by simp
  have k: "card ((rate_key plain_swlib one_per_minute \<circ> fst) `
      set ([(?r, 0, (\<lambda>es. es))] @ [(?r, 60000, (\<lambda>es. es))] :: arrival list)) \<le> nat (maxKeys (NewMemory 1))"
    by (simp add: NewMemory_def)
  have "rate_limit plain_swlib one_per_minute ?r = 1" by code_simp
  with fallback_limit_holds[OF s k, of "\<lambda>r w s. (w, s)" fresh_response] show ?thesis
    by (simp add: Let_def del: limited_run.simps)
qed

end
